(* ===== verification/Prelude.thy ===== *)
theory Prelude
  imports Main "HOL-Library.AList" "HOL-Library.Multiset" "HOL-Library.Word"
    "HOL-Library.List_Lexorder" "HOL-Library.Char_ord"
begin

text \<open>
  Shared vocabulary of the development: Go errors and process exits as values, Go maps as
  association lists whose order is the (unspecified) iteration order, the early-return loop
  over a slice, and the generic facts about them that the component theories use.
\<close>

named_theorems go_simps \<open>unfolding of small model operations used by component proofs\<close>
named_theorems store_defs \<open>definitions of the stateful operations\<close>

type_synonym u32 = "32 word"
type_synonym u64 = "64 word"
type_synonym 'v gomap = "(string \<times> 'v) list"
type_synonym opaque = string

section \<open>Errors and outcomes\<close>

text \<open>
  \<open>Err\<close> is an error made with \<^verbatim>\<open>errors.New\<close> or returned by a library; \<open>Wrap\<close> is
  \<^verbatim>\<open>errors.Wrap(err, msg)\<close>. An operation that can end the process returns an outcome:
  \<open>Exit\<close> for \<^verbatim>\<open>log.Fatal\<close>, \<open>Panic\<close> for a run-time panic.
\<close>

datatype goerr = Err string | Wrap string goerr

fun Error :: "goerr \<Rightarrow> string" where
  "Error (Err m) = m"
| "Error (Wrap m e) = m @ '': '' @ Error e"

fun Cause :: "goerr \<Rightarrow> goerr" where
  "Cause (Err m) = Err m"
| "Cause (Wrap m e) = Cause e"

datatype 'a outcome = Ret 'a | Exit goerr | Panic string

fun bind_outcome :: "'a outcome \<Rightarrow> ('a \<Rightarrow> 'b outcome) \<Rightarrow> 'b outcome" where
  "bind_outcome (Ret x) f = f x"
| "bind_outcome (Exit e) f = Exit e"
| "bind_outcome (Panic m) f = Panic m"

lemma bind_outcome_Ret_iff [simp]:
  "bind_outcome m f = Ret y \<longleftrightarrow> (\<exists>x. m = Ret x \<and> f x = Ret y)"
  by (cases m) auto

definition wrap :: "string \<Rightarrow> goerr + 'a \<Rightarrow> goerr + 'a" where
  "wrap msg r = (case r of Inl e \<Rightarrow> Inl (Wrap msg e) | Inr x \<Rightarrow> Inr x)"

lemma wrap_simps [simp]:
  "wrap msg (Inl e) = Inl (Wrap msg e)"
  "wrap msg (Inr x) = Inr x"
  by (simp_all add: wrap_def)

lemma wrap_Inr_iff [simp]: "wrap msg r = Inr x \<longleftrightarrow> r = Inr x"
  by (cases r) auto

lemma Error_Wrap_suffix: "\<exists>p. Error e = p @ Error (Cause e)"
proof (induction e)
  case (Err m)
  show ?case by simp
next
  case (Wrap m e)
  then obtain p where "Error e = p @ Error (Cause e)" by blast
  then have "Error (Wrap m e) = (m @ '': '' @ p) @ Error (Cause (Wrap m e))" by simp
  then show ?case by blast
qed

section \<open>Go maps\<close>

text \<open>
  A Go map is an association list with distinct keys; its order stands for the iteration
  order, which Go leaves unspecified. A nil map is \<open>None\<close> where the code tells it from an
  empty one. \<open>mapget\<close> is \<^verbatim>\<open>m[k]\<close> on a string map: the zero value for a missing key.
\<close>

definition wf_gomap :: "'v gomap \<Rightarrow> bool" where
  "wf_gomap m \<longleftrightarrow> distinct (map fst m)"

fun nilmap :: "'v gomap option \<Rightarrow> 'v gomap" where
  "nilmap None = []"
| "nilmap (Some m) = m"

definition mapget :: "string gomap option \<Rightarrow> string \<Rightarrow> string" where
  "mapget m k = (case map_of (nilmap m) k of None \<Rightarrow> '''' | Some v \<Rightarrow> v)"

text \<open>\<^verbatim>\<open>m[k] = append(m[k], vs...)\<close> on a map of slices.\<close>

definition mapappend :: "string \<Rightarrow> 'v list \<Rightarrow> 'v list gomap \<Rightarrow> 'v list gomap" where
  "mapappend k vs m =
     AList.update k ((case map_of m k of None \<Rightarrow> [] | Some old \<Rightarrow> old) @ vs) m"

text \<open>\<^verbatim>\<open>reflect.DeepEqual\<close> on string maps: nil equals only nil, order does not matter.\<close>

definition gomap_equal :: "string gomap \<Rightarrow> string gomap \<Rightarrow> bool" where
  "gomap_equal a b \<longleftrightarrow> length a = length b \<and> (\<forall>(k, v) \<in> set a. map_of b k = Some v)"

fun DeepEqual_map :: "string gomap option \<Rightarrow> string gomap option \<Rightarrow> bool" where
  "DeepEqual_map None None = True"
| "DeepEqual_map (Some a) (Some b) = gomap_equal a b"
| "DeepEqual_map _ _ = False"

definition slot :: "'v list gomap \<Rightarrow> string \<Rightarrow> 'v list" where
  "slot m k = (case map_of m k of None \<Rightarrow> [] | Some vs \<Rightarrow> vs)"

lemma wf_gomap_Nil [simp]: "wf_gomap []"
  by (simp add: wf_gomap_def)

lemma wf_gomap_update [simp]: "wf_gomap m \<Longrightarrow> wf_gomap (AList.update k v m)"
  by (simp add: wf_gomap_def distinct_update)

lemma wf_gomap_mapappend [simp]: "wf_gomap m \<Longrightarrow> wf_gomap (mapappend k vs m)"
  by (simp add: mapappend_def)

lemma map_of_update [simp]: "map_of (AList.update k v m) = (map_of m)(k \<mapsto> v)"
  by (rule update_conv')

lemma keys_update [simp]: "fst ` set (AList.update k v m) = insert k (fst ` set m)"
  by (simp add: dom_update)

lemma set_update_subset: "set (AList.update k v m) \<subseteq> insert (k, v) (set m)"
  by (induction m) auto

lemma set_delete_subset: "set (AList.delete k m) \<subseteq> set m"
  by (auto simp: AList.delete_eq)

lemma wf_gomap_delete [simp]: "wf_gomap m \<Longrightarrow> wf_gomap (AList.delete k m)"
  by (simp add: wf_gomap_def AList.distinct_delete)

lemma keys_mapappend [simp]: "fst ` set (mapappend k vs m) = insert k (fst ` set m)"
  by (simp add: mapappend_def)

lemma slot_Nil [simp]: "slot [] k = []"
  by (simp add: slot_def)

lemma slot_mapappend: "slot (mapappend k vs m) j = (if j = k then slot m k @ vs else slot m j)"
  by (simp add: slot_def mapappend_def)

lemma slot_member: "wf_gomap m \<Longrightarrow> (k, vs) \<in> set m \<Longrightarrow> slot m k = vs"
  by (simp add: slot_def wf_gomap_def map_of_is_SomeI)

lemma slot_in_set: "x \<in> set (slot m k) \<Longrightarrow> (k, slot m k) \<in> set m"
  by (auto simp: slot_def split: option.splits intro: map_of_SomeD)

lemma wf_gomap_perm: "mset a = mset b \<Longrightarrow> wf_gomap a = wf_gomap b"
proof -
  assume "mset a = mset b"
  then have "mset (map fst a) = mset (map fst b)" by simp
  then show ?thesis unfolding wf_gomap_def by (rule mset_eq_imp_distinct_iff)
qed

lemma gomap_equal_iff:
  assumes "wf_gomap a" and "wf_gomap b"
  shows "gomap_equal a b \<longleftrightarrow> map_of a = map_of b"
proof -
  have card: "card (dom (map_of a)) = length a" "card (dom (map_of b)) = length b"
    using assms by (simp_all add: wf_gomap_def dom_map_of_conv_image_fst distinct_card [of "map fst _", simplified])
  have sub: "(\<forall>(k, v) \<in> set a. map_of b k = Some v) \<longleftrightarrow> map_of a \<subseteq>\<^sub>m map_of b"
    using assms by (auto simp: map_le_def wf_gomap_def dom_map_of_conv_image_fst map_of_is_SomeI)
  show ?thesis
  proof
    assume eq: "gomap_equal a b"
    then have le: "map_of a \<subseteq>\<^sub>m map_of b" and "length a = length b"
      using sub by (auto simp: gomap_equal_def)
    with card have "card (dom (map_of a)) = card (dom (map_of b))" by simp
    with map_le_implies_dom_le [OF le] have "dom (map_of a) = dom (map_of b)"
      by (simp add: card_subset_eq finite_dom_map_of)
    with le show "map_of a = map_of b"
      by (intro map_le_antisym) (auto simp: map_le_def)
  next
    assume "map_of a = map_of b"
    with sub card show "gomap_equal a b" by (auto simp: gomap_equal_def)
  qed
qed

section \<open>The early-return loop over a slice of pointers\<close>

text \<open>
  \<^verbatim>\<open>for _, x := range xs { if err := f(x); err != nil { return err } }\<close> where \<open>f\<close> mutates
  the element: elements visited before the failing one stay mutated, later ones are untouched.
\<close>

fun go_each :: "('a \<Rightarrow> 'a \<times> goerr option) \<Rightarrow> 'a list \<Rightarrow> 'a list \<times> goerr option" where
  "go_each f [] = ([], None)"
| "go_each f (x # xs) =
     (case f x of
        (y, Some e) \<Rightarrow> (y # xs, Some e)
      | (y, None) \<Rightarrow> (case go_each f xs of (ys, r) \<Rightarrow> (y # ys, r)))"

text \<open>
  The contract of a visitor: what it may change (\<open>R\<close>), what holds after a visit without error
  (\<open>Q\<close>), and that a visit of an element where \<open>Q\<close> holds changes nothing.
\<close>

locale visitor =
  fixes f :: "'a \<Rightarrow> 'a \<times> goerr option"
    and R :: "'a \<Rightarrow> 'a \<Rightarrow> bool"
    and Q :: "'a \<Rightarrow> bool"
  assumes visit_refl: "R x x"
    and visit_rel: "R x (fst (f x))"
    and visit_post: "snd (f x) = None \<Longrightarrow> Q (fst (f x))"
    and visit_fix: "Q x \<Longrightarrow> f x = (x, None)"
begin

lemma each_rel: "list_all2 R xs (fst (go_each f xs))"
proof (induction xs)
  case Nil
  show ?case by simp
next
  case (Cons x xs)
  have "list_all2 R xs xs" by (simp add: list_all2_refl visit_refl)
  with Cons visit_rel [of x] show ?case
    by (auto split: prod.splits option.splits)
qed

lemma each_post: "snd (go_each f xs) = None \<Longrightarrow> list_all Q (fst (go_each f xs))"
proof (induction xs)
  case Nil
  show ?case by simp
next
  case (Cons x xs)
  with visit_post [of x] show ?case
    by (auto split: prod.splits option.splits)
qed

lemma each_fix: "list_all Q xs \<Longrightarrow> go_each f xs = (xs, None)"
  by (induction xs) (auto simp: visit_fix)

lemma visit_idem: "snd (f x) = None \<Longrightarrow> f (fst (f x)) = (fst (f x), None)"
  by (intro visit_fix visit_post)

end

lemma visitor_list: "visitor f R Q \<Longrightarrow> visitor (go_each f) (list_all2 R) (list_all Q)"
  by unfold_locales
    (auto simp: visitor.each_rel visitor.each_post visitor.each_fix
       intro: list_all2_refl visitor.visit_refl)

text \<open>
  Visitors whose frame is "equal after erasing what may change": lifting one to a message that
  holds a slice of the visited elements in one of its fields.
\<close>

lemma list_all2_erase: "list_all2 (\<lambda>x y. E x = E y) xs ys \<longleftrightarrow> map E xs = map E ys"
  by (auto simp: list_all2_conv_all_nth list_eq_iff_nth_eq)

lemma visitor_erase_list:
  "visitor f (\<lambda>x y. E x = E y) Q \<Longrightarrow>
     visitor (go_each f) (\<lambda>xs ys. map E xs = map E ys) (list_all Q)"
  using visitor_list [of f "\<lambda>x y. E x = E y" Q] by (simp add: list_all2_erase [abs_def])

lemma visitor_field:
  assumes vis: "visitor f (\<lambda>x y. E x = E y) Q"
    and get_put: "\<And>v x. get (put v x) = v"
    and put_get: "\<And>x. put (get x) x = x"
    and put_put: "\<And>v w x. put v (put w x) = put v x"
  shows "visitor (\<lambda>x. case f (get x) of (v, e) \<Rightarrow> (put v x, e))
           (\<lambda>x y. put (E (get x)) x = put (E (get y)) y) (\<lambda>x. Q (get x))"
proof
  fix x
  show "put (E (get x)) x = put (E (get (fst (case f (get x) of (v, e) \<Rightarrow> (put v x, e)))))
    (fst (case f (get x) of (v, e) \<Rightarrow> (put v x, e)))"
    using visitor.visit_rel [OF vis, of "get x"] by (simp add: get_put put_put split: prod.splits)
  show "Q (get (fst (case f (get x) of (v, e) \<Rightarrow> (put v x, e))))"
    if "snd (case f (get x) of (v, e) \<Rightarrow> (put v x, e)) = None"
    using that visitor.visit_post [OF vis, of "get x"] by (simp add: get_put split: prod.splits)
  show "(case f (get x) of (v, e) \<Rightarrow> (put v x, e)) = (x, None)" if "Q (get x)"
    using visitor.visit_fix [OF vis that] by (simp add: put_get)
qed simp

text \<open>The same lifting for an arbitrary frame: the field is related, every other field is equal.\<close>

lemma visitor_frame:
  assumes vis: "visitor f R Q"
    and get_put: "\<And>v x. get (put v x) = v"
    and put_get: "\<And>x. put (get x) x = x"
    and put_put: "\<And>v w x. put v (put w x) = put v x"
  shows "visitor (\<lambda>x. case f (get x) of (v, e) \<Rightarrow> (put v x, e))
           (\<lambda>x y. R (get x) (get y) \<and> put (get x) y = x) (\<lambda>x. Q (get x))"
proof
  fix x
  show "R (get x) (get (fst (case f (get x) of (v, e) \<Rightarrow> (put v x, e)))) \<and>
      put (get x) (fst (case f (get x) of (v, e) \<Rightarrow> (put v x, e))) = x"
    using visitor.visit_rel [OF vis, of "get x"] by (simp add: get_put put_put put_get case_prod_beta)
  show "Q (get (fst (case f (get x) of (v, e) \<Rightarrow> (put v x, e))))"
    if "snd (case f (get x) of (v, e) \<Rightarrow> (put v x, e)) = None"
    using that visitor.visit_post [OF vis, of "get x"] by (simp add: get_put split: prod.splits)
  show "(case f (get x) of (v, e) \<Rightarrow> (put v x, e)) = (x, None)" if "Q (get x)"
    using visitor.visit_fix [OF vis that] by (simp add: put_get)
qed (use visitor.visit_refl [OF vis] put_get in simp)

lemma go_each_error:
  "snd (go_each f xs) = Some e \<Longrightarrow> \<exists>x \<in> set xs. snd (f x) = Some e"
proof (induction xs)
  case Nil
  then show ?case by simp
next
  case (Cons x xs)
  show ?case
  proof (cases "snd (f x)")
    case None
    with Cons.prems have "snd (go_each f xs) = Some e"
      by (cases "f x") (auto split: prod.splits)
    with Cons.IH show ?thesis by auto
  next
    case (Some e')
    with Cons.prems show ?thesis by (cases "f x") auto
  qed
qed

lemma go_each_map:
  assumes "\<And>x. f (K x) = (K (fst (g x)), snd (g x))"
  shows "go_each f (map K xs) = (map K (fst (go_each g xs)), snd (go_each g xs))"
  by (induction xs) (auto simp: assms split: prod.splits option.splits)

lemma go_each_ok_iff: "snd (go_each f xs) = None \<longleftrightarrow> (\<forall>x \<in> set xs. snd (f x) = None)"
  by (induction xs) (auto split: prod.splits option.splits)

lemma go_each_ok: "\<forall>x \<in> set xs. snd (f x) = None \<Longrightarrow> go_each f xs = (map (fst \<circ> f) xs, None)"
  by (induction xs) (auto split: prod.splits)

lemma go_each_length [simp]: "length (fst (go_each f xs)) = length xs"
  by (induction xs) (auto split: prod.splits option.splits)

section \<open>State machines\<close>

text \<open>
  A component that handles a sequence of events, each of which may end the process: the run of a
  sequence, and the rule that an invariant that every step keeps, without ending the process, holds
  after every run. Components with such a state interpret the locale.
\<close>

fun run_outcome :: "('e \<Rightarrow> 's \<Rightarrow> 's outcome) \<Rightarrow> 'e list \<Rightarrow> 's \<Rightarrow> 's outcome" where
  "run_outcome step [] s = Ret s"
| "run_outcome step (e # es) s = bind_outcome (step e s) (run_outcome step es)"

lemma run_outcome_append:
  "run_outcome step (as @ bs) s = bind_outcome (run_outcome step as s) (run_outcome step bs)"
proof (induction "as" arbitrary: s)
  case (Cons a as)
  then show ?case by (cases "step a s") simp_all
qed simp

locale machine =
  fixes step :: "'e \<Rightarrow> 's \<Rightarrow> 's outcome"
    and inv :: "'s \<Rightarrow> bool"
  assumes step_safe: "inv s \<Longrightarrow> \<exists>s'. step e s = Ret s' \<and> inv s'"
begin

lemma run_safe: "inv s \<Longrightarrow> \<exists>s'. run_outcome step es s = Ret s' \<and> inv s'"
proof (induction es arbitrary: s)
  case (Cons e es)
  then obtain s' where "step e s = Ret s'" "inv s'" using step_safe by blast
  with Cons.IH show ?case by auto
qed simp

end

end
