(* ===== verification/GoStd.thy ===== *)
theory GoStd
  imports Prelude
begin

text \<open>
  The parts of Go's standard library whose results the program's behaviour depends on:
  \<^verbatim>\<open>strings.HasPrefix\<close>, \<^verbatim>\<open>strings.HasSuffix\<close>, \<^verbatim>\<open>strings.Split\<close> (by one
  character), \<^verbatim>\<open>path.Base\<close>, \<^verbatim>\<open>fmt\<close>'s \<^verbatim>\<open>%d\<close> on unsigned numbers,
  \<^verbatim>\<open>strconv.ParseUint(s, 10, 64)\<close> with its overflow checks on 64-bit words, and
  \<^verbatim>\<open>net.ParseIP\<close> (whether the result is nil). Strings are byte lists.
\<close>

section \<open>strings and path\<close>

fun HasPrefix :: "string \<Rightarrow> string \<Rightarrow> bool" where
  "HasPrefix s [] = True"
| "HasPrefix [] (p # ps) = False"
| "HasPrefix (c # s) (p # ps) = (c = p \<and> HasPrefix s ps)"

definition HasSuffix :: "string \<Rightarrow> string \<Rightarrow> bool" where
  "HasSuffix s suffix \<longleftrightarrow>
     length suffix \<le> length s \<and> drop (length s - length suffix) s = suffix"

fun Split :: "char \<Rightarrow> string \<Rightarrow> string list" where
  "Split sep [] = [[]]"
| "Split sep (c # s) =
     (if c = sep then [] # Split sep s
      else (case Split sep s of [] \<Rightarrow> [[c]] | p # ps \<Rightarrow> (c # p) # ps))"

text \<open>\<^verbatim>\<open>path.Base\<close>: strip trailing slashes, keep what follows the last remaining slash.\<close>

definition path_Base :: "string \<Rightarrow> string" where
  "path_Base p =
     (if p = [] then ''.''
      else let q = rev (dropWhile (\<lambda>c. c = CHR ''/'') (rev p))
           in if q = [] then ''/''
              else rev (takeWhile (\<lambda>c. c \<noteq> CHR ''/'') (rev q)))"

section \<open>Decimal numbers\<close>

definition digit :: "nat \<Rightarrow> char" where
  "digit d = char_of (48 + d)"

definition digit_val :: "char \<Rightarrow> nat option" where
  "digit_val c =
     (let n = of_char c in if 48 \<le> n \<and> n \<le> 57 then Some (n - 48) else None)"

fun dec :: "nat \<Rightarrow> string" where
  "dec n = (if n < 10 then [digit n] else dec (n div 10) @ [digit (n mod 10)])"

declare dec.simps [simp del]

abbreviation dec32 :: "u32 \<Rightarrow> string" where
  "dec32 w \<equiv> dec (unat w)"

text \<open>The reference reading of a digit string, used to state what \<open>ParseUint\<close> computes.\<close>

fun all_digits :: "string \<Rightarrow> bool" where
  "all_digits [] = True"
| "all_digits (c # cs) = (digit_val c \<noteq> None \<and> all_digits cs)"

fun dec_value :: "nat \<Rightarrow> string \<Rightarrow> nat" where
  "dec_value acc [] = acc"
| "dec_value acc (c # cs) =
     dec_value (acc * 10 + (case digit_val c of None \<Rightarrow> 0 | Some d \<Rightarrow> d)) cs"

definition ErrSyntax :: goerr where "ErrSyntax = Err ''invalid syntax''"
definition ErrRange :: goerr where "ErrRange = Err ''value out of range''"

definition parse_cutoff :: u64 where
  "parse_cutoff = 1844674407370955162"

fun parse_loop :: "u64 \<Rightarrow> string \<Rightarrow> goerr + u64" where
  "parse_loop n [] = Inr n"
| "parse_loop n (c # cs) =
     (case digit_val c of
        None \<Rightarrow> Inl ErrSyntax
      | Some d \<Rightarrow>
          if parse_cutoff \<le> n then Inl ErrRange
          else let n' = n * 10; n1 = n' + of_nat d
               in if n1 < n' then Inl ErrRange else parse_loop n1 cs)"

definition ParseUint :: "string \<Rightarrow> goerr + u64" where
  "ParseUint s = (if s = [] then Inl ErrSyntax else parse_loop 0 s)"

section \<open>net.ParseIP\<close>

fun parseIPv4Fields :: "nat \<Rightarrow> nat \<Rightarrow> nat \<Rightarrow> char option \<Rightarrow> string \<Rightarrow> bool" where
  "parseIPv4Fields val pos digLen prev [] = (\<not> pos < 3)"
| "parseIPv4Fields val pos digLen prev (c # cs) =
     (case digit_val c of
        Some d \<Rightarrow>
          if digLen = 1 \<and> val = 0 then False
          else let val' = val * 10 + d
               in if 255 < val' then False
                  else parseIPv4Fields val' pos (digLen + 1) (Some c) cs
      | None \<Rightarrow>
          if c = CHR ''.'' then
            (if prev = None \<or> cs = [] \<or> prev = Some (CHR ''.'') then False
             else if pos = 3 then False
             else parseIPv4Fields 0 (pos + 1) 0 (Some c) cs)
          else False)"

definition is_hex :: "char \<Rightarrow> bool" where
  "is_hex c \<longleftrightarrow>
     (let n = (of_char c :: nat)
      in (48 \<le> n \<and> n \<le> 57) \<or> (97 \<le> n \<and> n \<le> 102) \<or> (65 \<le> n \<and> n \<le> 70))"

definition ipv6_done :: "nat option \<Rightarrow> nat \<Rightarrow> string \<Rightarrow> bool" where
  "ipv6_done ellipsis i s \<longleftrightarrow> s = [] \<and> (if i < 16 then ellipsis \<noteq> None else ellipsis = None)"

function parseIPv6Fields :: "nat option \<Rightarrow> nat \<Rightarrow> string \<Rightarrow> bool" where
  "parseIPv6Fields ellipsis i s =
     (if 16 \<le> i then ipv6_done ellipsis i s
      else let h = takeWhile is_hex s; r = dropWhile is_hex s
           in if 4 < length h \<or> h = [] then False
              else case r of
                [] \<Rightarrow> ipv6_done ellipsis (i + 2) []
              | c # r1 \<Rightarrow>
                  if c = CHR ''.'' then
                    \<not> (ellipsis = None \<and> i \<noteq> 12) \<and> i + 4 \<le> 16
                      \<and> parseIPv4Fields 0 0 0 None s \<and> ipv6_done ellipsis (i + 4) []
                  else if c \<noteq> CHR '':'' then False
                  else case r1 of
                    [] \<Rightarrow> False
                  | c2 # r2 \<Rightarrow>
                      if c2 = CHR '':'' then
                        (if ellipsis \<noteq> None then False
                         else if r2 = [] then ipv6_done (Some (i + 2)) (i + 2) []
                         else parseIPv6Fields (Some (i + 2)) (i + 2) r2)
                      else parseIPv6Fields ellipsis (i + 2) r1)"
  by pat_completeness auto
termination
  by (relation "measure (\<lambda>(e, i, s). 16 - i)") auto

declare parseIPv6Fields.simps [simp del]

definition parseIPv6 :: "string \<Rightarrow> bool" where
  "parseIPv6 s =
     (if CHR ''%'' \<in> set s then False
      else if HasPrefix s ''::'' then
        (if drop 2 s = [] then True else parseIPv6Fields (Some 0) 0 (drop 2 s))
      else parseIPv6Fields None 0 s)"

text \<open>\<open>ParseIP s\<close> is \<^verbatim>\<open>net.ParseIP(s) != nil\<close>.\<close>

definition ParseIP :: "string \<Rightarrow> bool" where
  "ParseIP s =
     (case dropWhile (\<lambda>c. c \<noteq> CHR ''.'' \<and> c \<noteq> CHR '':'' \<and> c \<noteq> CHR ''%'') s of
        [] \<Rightarrow> False
      | c # _ \<Rightarrow> if c = CHR ''.'' then parseIPv4Fields 0 0 0 None s
                 else if c = CHR '':'' then parseIPv6 s else False)"

section \<open>Facts about strings\<close>

lemma HasPrefix_iff: "HasPrefix s p \<longleftrightarrow> (\<exists>t. s = p @ t)"
  by (induction s p rule: HasPrefix.induct) auto

lemma HasPrefix_append [simp]: "HasPrefix (p @ t) p"
  by (simp add: HasPrefix_iff)

lemma HasSuffix_iff: "HasSuffix s p \<longleftrightarrow> (\<exists>t. s = t @ p)"
proof
  assume "HasSuffix s p"
  then have "drop (length s - length p) s = p" by (simp add: HasSuffix_def)
  then have "s = take (length s - length p) s @ p" by (metis append_take_drop_id)
  then show "\<exists>t. s = t @ p" by blast
qed (auto simp: HasSuffix_def)

lemma HasSuffix_append [simp]: "HasSuffix (t @ p) p"
  by (auto simp: HasSuffix_iff)

lemma Split_ne [simp]: "Split sep s \<noteq> []"
  by (cases s) (auto split: list.splits)

lemma Split_no_sep: "sep \<notin> set s \<Longrightarrow> Split sep s = [s]"
  by (induction s) auto

lemma Split_append_sep: "sep \<notin> set a \<Longrightarrow> Split sep (a @ sep # b) = a # Split sep b"
  by (induction a) auto

section \<open>Facts about decimal numbers\<close>

lemma digit_val_digit [simp]: "d < 10 \<Longrightarrow> digit_val (digit d) = Some d"
  by (simp add: digit_val_def digit_def)

lemma dec_ne [simp]: "dec n \<noteq> []"
  by (subst dec.simps) simp

lemma all_digits_append [simp]: "all_digits (a @ b) \<longleftrightarrow> all_digits a \<and> all_digits b"
  by (induction a) auto

lemma all_digits_dec [simp]: "all_digits (dec n)"
proof (induction n rule: dec.induct)
  case (1 n)
  then show ?case by (cases "n < 10") (simp_all add: dec.simps [of n])
qed

lemma dec_value_append: "dec_value acc (a @ b) = dec_value (dec_value acc a) b"
  by (induction a arbitrary: acc) auto

lemma dec_value_dec [simp]: "dec_value 0 (dec n) = n"
  by (induction n rule: less_induct) (simp add: dec.simps [of n for n] dec_value_append)

lemma dec_inject [simp]: "dec m = dec n \<longleftrightarrow> m = n"
  by (metis dec_value_dec)

lemma digits_only: "all_digits s \<Longrightarrow> c \<in> set s \<Longrightarrow> digit_val c \<noteq> None"
  by (induction s) auto

lemma dec_no_char: "digit_val c = None \<Longrightarrow> c \<notin> set (dec n)"
  using digits_only [OF all_digits_dec] by blast

lemma dec_no_bar [simp]: "CHR ''|'' \<notin> set (dec n)"
  by (rule dec_no_char) (simp add: digit_val_def)

lemma digit_val_less: "digit_val c = Some d \<Longrightarrow> d < 10"
  by (auto simp: digit_val_def Let_def split: if_splits)

lemma dec_value_mono: "acc \<le> dec_value acc s"
proof (induction s arbitrary: acc)
  case Nil
  show ?case by simp
next
  case (Cons c s)
  let ?a = "acc * 10 + (case digit_val c of None \<Rightarrow> 0 | Some d \<Rightarrow> d)"
  have "acc \<le> ?a" by simp
  also have "?a \<le> dec_value ?a s" by (rule Cons.IH)
  finally show ?case by simp
qed

text \<open>One step of the loop on words against the numbers it stands for.\<close>

lemma parse_step_small:
  assumes "n < parse_cutoff" and "d < 10"
  shows "(n * 10 + of_nat d < n * 10) \<longleftrightarrow> 2 ^ 64 \<le> unat n * 10 + d"
    and "unat n * 10 + d < 2 ^ 64 \<Longrightarrow> unat (n * 10 + of_nat d) = unat n * 10 + d"
proof -
  have n: "unat n < 1844674407370955162"
    using assms(1) by (simp add: parse_cutoff_def word_less_nat_alt)
  then have m: "unat (n * 10) = unat n * 10"
    by (simp add: unat_word_ariths)
  have d: "unat (of_nat d :: u64) = d" using assms(2) by (simp add: unat_of_nat)
  have s: "unat (n * 10 + of_nat d) = (unat n * 10 + d) mod 2 ^ 64"
    by (simp add: unat_word_ariths(1) m d)
  show "unat n * 10 + d < 2 ^ 64 \<Longrightarrow> unat (n * 10 + of_nat d) = unat n * 10 + d"
    using s by simp
  let ?x = "unat n * 10 + d"
  have mod: "?x mod 2 ^ 64 = (if ?x < 2 ^ 64 then ?x else ?x - 2 ^ 64)"
  proof (cases "?x < 2 ^ 64")
    case False
    then have "?x mod 2 ^ 64 = (?x - 2 ^ 64) mod 2 ^ 64" by (intro le_mod_geq) simp
    also have "\<dots> = ?x - 2 ^ 64" using n assms(2) by simp
    finally show ?thesis using False by simp
  qed simp
  show "(n * 10 + of_nat d < n * 10) \<longleftrightarrow> 2 ^ 64 \<le> unat n * 10 + d"
    using n assms(2) unfolding word_less_nat_alt s m mod by auto
qed

lemma parse_loop_correct:
  "parse_loop n s = Inr w \<longleftrightarrow>
     all_digits s \<and> dec_value (unat n) s < 2 ^ 64 \<and> unat w = dec_value (unat n) s"
proof (induction n s rule: parse_loop.induct)
  case (1 n)
  have "unat n < 2 ^ LENGTH(64)" by (rule unsigned_less)
  then show ?case by (auto simp: word_unat_eq_iff)
next
  case (2 n c cs)
  show ?case
  proof (cases "digit_val c")
    case None
    then show ?thesis by simp
  next
    case (Some d)
    then have d: "d < 10" by (rule digit_val_less)
    let ?x = "unat n * 10 + d"
    have big: "\<not> dec_value ?x cs < 2 ^ 64" if "2 ^ 64 \<le> ?x"
      using that dec_value_mono [of ?x cs] by linarith
    show ?thesis
    proof (cases "parse_cutoff \<le> n")
      case True
      then have "2 ^ 64 \<le> ?x" by (simp add: parse_cutoff_def word_le_nat_alt)
      with True Some big show ?thesis by simp
    next
      case False
      then have n: "n < parse_cutoff" by simp
      show ?thesis
      proof (cases "2 ^ 64 \<le> ?x")
        case True
        with parse_step_small(1) [OF n d] n Some big show ?thesis by simp
      next
        case small: False
        then have "unat (n * 10 + of_nat d) = ?x"
          using parse_step_small(2) [OF n d] by simp
        with small parse_step_small(1) [OF n d] n Some False 2 [of d "n * 10" "n * 10 + of_nat d"]
        show ?thesis by simp
      qed
    qed
  qed
qed

lemma ParseUint_correct:
  "ParseUint s = Inr w \<longleftrightarrow>
     s \<noteq> [] \<and> all_digits s \<and> dec_value 0 s < 2 ^ 64 \<and> unat w = dec_value 0 s"
  using parse_loop_correct [of 0 s w] by (simp add: ParseUint_def)

lemma ParseUint_dec: "n < 2 ^ 64 \<Longrightarrow> ParseUint (dec n) = Inr (of_nat n)"
  by (simp add: ParseUint_correct unat_of_nat)

section \<open>Facts about IP addresses\<close>

abbreviation ip_char :: "char \<Rightarrow> bool" where
  "ip_char c \<equiv> is_hex c \<or> c = CHR ''.'' \<or> c = CHR '':''"

lemma digit_is_hex: "digit_val c = Some d \<Longrightarrow> is_hex c"
  by (auto simp: digit_val_def is_hex_def Let_def split: if_splits)

lemma parseIPv4Fields_chars:
  "parseIPv4Fields val pos dl prev s \<Longrightarrow> \<forall>c \<in> set s. ip_char c"
proof (induction val pos dl prev s rule: parseIPv4Fields.induct)
  case (2 val pos dl prev c cs)
  then show ?case
    by (auto simp: Let_def digit_is_hex split: option.splits if_splits)
qed simp

lemma parseIPv6Fields_chars:
  "parseIPv6Fields e i s \<Longrightarrow> \<forall>c \<in> set s. ip_char c"
proof (induction e i s rule: parseIPv6Fields.induct)
  case (1 e i s)
  let ?h = "takeWhile is_hex s" and ?r = "dropWhile is_hex s"
  have s: "set s = set ?h \<union> set ?r"
    by (metis set_append takeWhile_dropWhile_id)
  have h: "\<forall>c \<in> set ?h. ip_char c" using set_takeWhileD by fast
  show ?case
  proof (cases "16 \<le> i")
    case True
    with "1.prems" show ?thesis by (simp add: parseIPv6Fields.simps [of e i s] ipv6_done_def)
  next
    case i: False
    with "1.prems" have len: "\<not> (4 < length ?h \<or> ?h = [])"
      by (auto simp: parseIPv6Fields.simps [of e i s] Let_def)
    show ?thesis
    proof (cases ?r)
      case Nil
      with s h show ?thesis by simp
    next
      case (Cons c r1)
      show ?thesis
      proof (cases "c = CHR ''.''")
        case True
        with "1.prems" i len Cons have "parseIPv4Fields 0 0 0 None s"
          by (simp add: parseIPv6Fields.simps [of e i s] Let_def)
        then show ?thesis by (rule parseIPv4Fields_chars)
      next
        case dot: False
        with "1.prems" i len Cons obtain c2 r2 where c: "c = CHR '':''" and r1: "r1 = c2 # r2"
          by (auto simp: parseIPv6Fields.simps [of e i s] Let_def split: list.splits if_splits)
        have "\<forall>x \<in> set r1. ip_char x"
        proof (cases "c2 = CHR '':''")
          case True
          with "1.prems" i len Cons c r1 have "r2 = [] \<or> parseIPv6Fields (Some (i + 2)) (i + 2) r2" and "e = None"
            by (auto simp: parseIPv6Fields.simps [of e i s] Let_def split: if_splits)
          moreover have "\<forall>x \<in> set r2. ip_char x" if "parseIPv6Fields (Some (i + 2)) (i + 2) r2" "r2 \<noteq> []"
            using "1.IH"(1) [OF i refl refl len Cons dot _ r1 True _ that(2) that(1)] c \<open>e = None\<close> by simp
          ultimately show ?thesis using True r1 by (cases "r2 = []") auto
        next
          case False
          with "1.prems" i len Cons c r1 have "parseIPv6Fields e (i + 2) r1"
            by (simp add: parseIPv6Fields.simps [of e i s] Let_def)
          with "1.IH"(2) [OF i refl refl len Cons dot _ r1 False] c show ?thesis by simp
        qed
        with s h Cons c show ?thesis by auto
      qed
    qed
  qed
qed

lemma ParseIP_chars: "ParseIP s \<Longrightarrow> c \<in> set s \<Longrightarrow> ip_char c"
proof -
  assume ip: "ParseIP s" and c: "c \<in> set s"
  then consider "parseIPv4Fields 0 0 0 None s" | "parseIPv6 s"
    by (auto simp: ParseIP_def split: list.splits if_splits)
  then show ?thesis
  proof cases
    case 1
    with c show ?thesis using parseIPv4Fields_chars by blast
  next
    case 2
    then consider "parseIPv6Fields None 0 s" | "HasPrefix s ''::''" "parseIPv6Fields (Some 0) 0 (drop 2 s) \<or> drop 2 s = []"
      by (auto simp: parseIPv6_def split: if_splits)
    then show ?thesis
    proof cases
      case 1
      with c show ?thesis using parseIPv6Fields_chars by blast
    next
      case 2
      then obtain t where s: "s = ''::'' @ t" by (auto simp: HasPrefix_iff)
      with 2 have "\<forall>x \<in> set t. ip_char x" using parseIPv6Fields_chars by auto
      with c s show ?thesis by auto
    qed
  qed
qed

lemma ParseIP_no_bar: "ParseIP s \<Longrightarrow> CHR ''|'' \<notin> set s"
  using ParseIP_chars [of s "CHR ''|''"] by (auto simp: is_hex_def)

lemma ParseIP_Nil [simp]: "\<not> ParseIP []"
  by (simp add: ParseIP_def)

text \<open>A dotted quad of decimal octets is an address.\<close>

lemma dec_snoc: "0 < q \<Longrightarrow> r < 10 \<Longrightarrow> dec (q * 10 + r) = dec q @ [digit r]"
  by (simp add: dec.simps [of "q * 10 + r"])

lemma dec_small: "n < 10 \<Longrightarrow> dec n = [digit n]"
  by (simp add: dec.simps [of n])

lemma dec_octet:
  assumes "n < 256"
  obtains (one) "n < 10" "dec n = [digit n]"
  | (two) q r where "0 < q" "q < 10" "r < 10" "n = q * 10 + r" "dec n = [digit q, digit r]"
  | (three) p q r where "0 < p" "p < 10" "q < 10" "r < 10" "n = (p * 10 + q) * 10 + r"
      "dec n = [digit p, digit q, digit r]"
proof (cases "n < 100")
  case True
  define q r where qr: "q = n div 10" "r = n mod 10"
  have n: "n = q * 10 + r" and "r < 10" "q < 10" using True by (simp_all add: qr)
  show thesis
  proof (cases "q = 0")
    case True
    with n \<open>r < 10\<close> show thesis by (intro one) (simp_all add: dec_small)
  next
    case False
    with \<open>q < 10\<close> \<open>r < 10\<close> show thesis by (intro two [of q r] n) (simp_all add: n dec_snoc dec_small)
  qed
next
  case False
  define p q r where pqr: "p = n div 10 div 10" "q = n div 10 mod 10" "r = n mod 10"
  have n: "n = (p * 10 + q) * 10 + r" by (simp add: pqr)
  have lt: "r < 10" "q < 10" by (simp_all add: pqr)
  with n False assms have p: "0 < p" "p < 10" by simp_all
  have "dec n = [digit p, digit q, digit r]"
    unfolding n by (subst dec_snoc) (use lt p in \<open>simp_all add: dec_snoc dec_small\<close>)
  with lt p show thesis by (intro three [of p q r] n)
qed

lemma octet_step:
  assumes "n < 256"
  shows "parseIPv4Fields 0 pos 0 prev (dec n @ s) =
    parseIPv4Fields n pos (length (dec n)) (Some (last (dec n))) s"
  using assms
proof (cases n rule: dec_octet)
  case one
  with assms show ?thesis by (simp add: Let_def)
next
  case (two q r)
  then show ?thesis by (simp add: Let_def)
next
  case (three p q r)
  moreover from this assms have "p * 10 + q \<le> 255" by simp
  ultimately show ?thesis using assms by (simp add: Let_def)
qed

lemma digit_not_dot: "d < 10 \<Longrightarrow> digit d \<noteq> CHR ''.''"
  using digit_val_digit [of d] by (auto simp: digit_val_def)

lemma last_dec_not_dot: "last (dec n) \<noteq> CHR ''.''"
proof -
  have "last (dec n) \<in> set (dec n)" by simp
  moreover have "CHR ''.'' \<notin> set (dec n)" by (rule dec_no_char) (simp add: digit_val_def)
  ultimately show ?thesis by metis
qed

lemma octet_dot:
  assumes "n < 256" and "pos < 3" and "s \<noteq> []"
  shows "parseIPv4Fields 0 pos 0 prev (dec n @ CHR ''.'' # s) = parseIPv4Fields 0 (pos + 1) 0 (Some (CHR ''.'')) s"
  using assms last_dec_not_dot [of n] by (simp add: octet_step digit_val_def)

lemma ParseIP_dotted:
  assumes "a < 256" "b < 256" "c < 256" "d < 256"
  shows "ParseIP (dec a @ CHR ''.'' # dec b @ CHR ''.'' # dec c @ CHR ''.'' # dec d)" (is "ParseIP ?s")
proof -
  have "\<forall>x \<in> set (dec a). x \<noteq> CHR ''.'' \<and> x \<noteq> CHR '':'' \<and> x \<noteq> CHR ''%''"
    using dec_no_char [of "CHR ''.''" a] dec_no_char [of "CHR '':''" a] dec_no_char [of "CHR ''%''" a]
    by (auto simp: digit_val_def)
  then have "ParseIP ?s = parseIPv4Fields 0 0 0 None ?s"
    by (simp add: ParseIP_def dropWhile_append1 dropWhile_append2)
  also have "\<dots>" using assms octet_step [of d 3 "Some (CHR ''.'')" "[]"] by (simp add: octet_dot numeral_3_eq_3)
  finally show ?thesis .
qed

section \<open>Paths\<close>

text \<open>\<^verbatim>\<open>path.Clean\<close> and \<^verbatim>\<open>path.Join\<close>: the segments already kept are held in reverse.\<close>

fun clean_segments :: "bool \<Rightarrow> string list \<Rightarrow> string list \<Rightarrow> string list" where
  "clean_segments rooted kept [] = rev kept"
| "clean_segments rooted kept (s # ss) =
     (if s = '''' \<or> s = ''.'' then clean_segments rooted kept ss
      else if s = ''..'' then
        (case kept of
           [] \<Rightarrow> clean_segments rooted (if rooted then [] else [''..'']) ss
         | k # ks \<Rightarrow> clean_segments rooted (if k = ''..'' then ''..'' # kept else ks) ss)
      else clean_segments rooted (s # kept) ss)"

fun join_slash :: "string list \<Rightarrow> string" where
  "join_slash [] = ''''"
| "join_slash [s] = s"
| "join_slash (s # ss) = s @ ''/'' @ join_slash ss"

definition path_Clean :: "string \<Rightarrow> string" where
  "path_Clean p =
     (if p = '''' then ''.''
      else let rooted = HasPrefix p ''/'';
               body = join_slash (clean_segments rooted [] (Split (CHR ''/'') p))
           in if rooted then ''/'' @ body else if body = '''' then ''.'' else body)"

definition path_Join :: "string list \<Rightarrow> string" where
  "path_Join elems =
     (case filter (\<lambda>e. e \<noteq> '''') elems of [] \<Rightarrow> '''' | es \<Rightarrow> path_Clean (join_slash es))"

end
