(* ===== verification/AppConfig.thy ===== *)
theory AppConfig
  imports GoStd
begin

text \<open>
  \<^verbatim>\<open>pkg/config/config.go\<close>: the process configuration, its defaults, loading and checking.
  Durations are nanoseconds. Reading files, \<^verbatim>\<open>os.Stat\<close>, the environment and the YAML decoder
  are parameters.
\<close>

definition Second :: int where "Second = 1000000000"
definition Minute :: int where "Minute = 60 * Second"
definition Hour :: int where "Hour = 60 * Minute"

definition AppName :: string where
  "AppName = ''envoy-control-plane''"
definition annotationRouteClusterWeight :: string where
  "annotationRouteClusterWeight = AppName @ ''/routes.cluster.weight.''"
definition AnnotationCanaryEnabled :: string where
  "AnnotationCanaryEnabled = AppName @ ''/canary.enabled''"
definition CanarySuffix :: string where
  "CanarySuffix = ''-canary''"
definition sslRotationPeriodDefault :: int where
  "sslRotationPeriodDefault = 1 * Hour"
definition endpointCheckPeriodDefault :: int where
  "endpointCheckPeriodDefault = 60 * Second"
definition configDrainPeriodDefault :: int where
  "configDrainPeriodDefault = 5 * Second"
definition defaultGracePeriod :: int where
  "defaultGracePeriod = 5 * Second"

record app_config =
  GracePeriod :: int
  LogLevel :: string
  LogPretty :: bool
  LogAccess :: bool
  LogPath :: string
  LogReportCaller :: bool
  ConfigFile :: string
  ConfigMapLabels :: string
  ConfigMapNames :: string
  KubeConfigFile :: string
  WatchNamespaced :: bool
  LeaderElection :: bool
  PodName :: string
  Namespace :: string
  GrpcAddress :: string
  WebHTTPAddress :: string
  WebHTTPSAddress :: string
  NodeZoneLabel :: string
  ConfigDrainPeriod :: int
  EndpointCheckPeriod :: int
  SentryDSN :: string
  SSLName :: string
  SSLCrt :: string
  SSLKey :: string
  SSLDoNotUseValidation :: bool
  SSLRotationPeriod :: int
  WebAdminUser :: string
  WebAdminPassword :: string

definition getEnvDefault :: "(string \<Rightarrow> string) \<Rightarrow> string \<Rightarrow> string \<Rightarrow> string" where
  "getEnvDefault getenv name defaultValue =
     (let r = getenv name; defaultValueLen = length defaultValue
      in if defaultValueLen = 0 then r
         else if length r = 0 then defaultValue
         else r)"

text \<open>The flag defaults; \<open>GetVersion\<close> is the link-time version, \<^verbatim>\<open>"dev"\<close> if not set.\<close>

definition default_config :: "(string \<Rightarrow> string) \<Rightarrow> string \<Rightarrow> app_config" where
  "default_config getenv GetVersion =
     \<lparr>GracePeriod = defaultGracePeriod,
      LogLevel = ''INFO'',
      LogPretty = False,
      LogAccess = False,
      LogPath = ''/tmp'',
      LogReportCaller = True,
      ConfigFile = getEnvDefault getenv ''CONFIG'' ''config.yaml'',
      ConfigMapLabels = ''app=envoy-control-plane'',
      ConfigMapNames = '''',
      KubeConfigFile = '''',
      WatchNamespaced = True,
      LeaderElection = True,
      PodName = getenv ''MY_POD_NAME'',
      Namespace = getEnvDefault getenv ''MY_POD_NAMESPACE'' ''default'',
      GrpcAddress = '':18080'',
      WebHTTPAddress = '':18082'',
      WebHTTPSAddress = '':18081'',
      NodeZoneLabel = ''topology.kubernetes.io/zone'',
      ConfigDrainPeriod = configDrainPeriodDefault,
      EndpointCheckPeriod = endpointCheckPeriodDefault,
      SentryDSN = '''',
      SSLName = ''envoy_control_plane_default'',
      SSLCrt = '''',
      SSLKey = '''',
      SSLDoNotUseValidation = False,
      SSLRotationPeriod = sslRotationPeriodDefault,
      WebAdminUser = ''admin'',
      WebAdminPassword = GetVersion\<rparr>"

text \<open>
  \<^verbatim>\<open>Load\<close>: a missing file is not an error; the decoder overwrites the fields the file sets and
  reports its error.
\<close>

definition Load ::
  "(string \<Rightarrow> goerr + string) \<Rightarrow> (string \<Rightarrow> app_config \<Rightarrow> app_config \<times> goerr option)
     \<Rightarrow> app_config \<Rightarrow> app_config \<times> goerr option" where
  "Load readFile unmarshal config =
     (case readFile (ConfigFile config) of
        Inl e \<Rightarrow> (config, None)
      | Inr configByte \<Rightarrow>
          (case unmarshal configByte config of
             (config', Some err) \<Rightarrow> (config', Some err)
           | (config', None) \<Rightarrow> (config', None)))"

text \<open>\<^verbatim>\<open>os.Stat\<close> succeeds, reports a missing file, or fails in another way.\<close>

datatype stat_result = StatOk | NotExist goerr | StatError goerr

definition errUseNamespace :: goerr where
  "errUseNamespace = Err ''use namespace name if using namespaced''"

definition check_file :: "(string \<Rightarrow> stat_result) \<Rightarrow> string \<Rightarrow> string \<Rightarrow> goerr option" where
  "check_file stat msg path =
     (if length path > 0 then
        (case stat path of NotExist err \<Rightarrow> Some (Wrap msg err) | _ \<Rightarrow> None)
      else None)"

definition CheckConfig :: "(string \<Rightarrow> stat_result) \<Rightarrow> app_config \<Rightarrow> goerr option" where
  "CheckConfig stat config =
     (if WatchNamespaced config \<and> length (Namespace config) = 0 then Some errUseNamespace
      else case check_file stat ''ssl certificate error'' (SSLCrt config) of
             Some e \<Rightarrow> Some e
           | None \<Rightarrow> check_file stat ''ssl key error'' (SSLKey config))"

section \<open>Properties\<close>

lemma getEnvDefault_default: "d \<noteq> '''' \<Longrightarrow> getEnvDefault getenv n d \<noteq> ''''"
  by (simp add: getEnvDefault_def Let_def)

lemma check_file_None:
  "check_file stat msg p = None \<longleftrightarrow> p = '''' \<or> (\<forall>e. stat p \<noteq> NotExist e)"
  by (auto simp: check_file_def split: stat_result.splits)

end
