(* ===== verification/Metrics.thy ===== *)
theory Metrics
  imports Prelude
begin

text \<open>
  \<^verbatim>\<open>pkg/metrics/metrics.go\<close>: the registered collectors with their exposed names, and the
  counts they hold. A collector without labels uses the empty label; a histogram is represented
  by its number of observations.
\<close>

datatype metric =
    LeaderElectionIsMaster
  | GrpcOnStreamOpen
  | GrpcOnStreamClosed
  | GrpcOnStreamRequest
  | GrpcOnStreamResponse
  | GrpcOnFetchRequest
  | GrpcOnFetchResponse
  | GrpcOnStreamDeltaRequest
  | GrpcOnStreamDeltaResponse
  | GrpcOnStreamDeltaRequestOnStreamDeltaRequest
  | GrpcOnDeltaStreamOpen
  | GrpcOnDeltaStreamClosed
  | KubernetesAPIRequest
  | KubernetesAPIRequestDuration
  | ConfigmapsstoreAddFunc
  | ConfigmapsstoreUpdateFunc
  | ConfigmapsstoreDeleteFunc
  | ConfigmapsstorePush
  | EndpointstoreAddFunc
  | EndpointstoreUpdateFunc
  | EndpointstoreDeleteFunc
  | Operation
  | OperationDuration

definition metric_namespace :: string where
  "metric_namespace = ''envoy_control_plane''"

fun metric_name :: "metric \<Rightarrow> string" where
  "metric_name LeaderElectionIsMaster = ''leader_election_is_master''"
| "metric_name GrpcOnStreamOpen = ''on_stream_open_total''"
| "metric_name GrpcOnStreamClosed = ''on_stream_closed_total''"
| "metric_name GrpcOnStreamRequest = ''on_stream_request_total''"
| "metric_name GrpcOnStreamResponse = ''on_stream_response_total''"
| "metric_name GrpcOnFetchRequest = ''on_fetch_request_total''"
| "metric_name GrpcOnFetchResponse = ''on_fetch_response_total''"
| "metric_name GrpcOnStreamDeltaRequest = ''on_stream_delta_request_total''"
| "metric_name GrpcOnStreamDeltaResponse = ''on_stream_delta_response_total''"
| "metric_name GrpcOnStreamDeltaRequestOnStreamDeltaRequest =
     ''on_stream_delta_request_on_stream_delta_request_total''"
| "metric_name GrpcOnDeltaStreamOpen = ''on_delta_stream_open_total''"
| "metric_name GrpcOnDeltaStreamClosed = ''on_delta_stream_closed_total''"
| "metric_name KubernetesAPIRequest = ''apiserver_request_total''"
| "metric_name KubernetesAPIRequestDuration = ''apiserver_request_duration''"
| "metric_name ConfigmapsstoreAddFunc = ''configmapsstore_add_total''"
| "metric_name ConfigmapsstoreUpdateFunc = ''configmapsstore_update_total''"
| "metric_name ConfigmapsstoreDeleteFunc = ''configmapsstore_delete_total''"
| "metric_name ConfigmapsstorePush = ''configmapsstore_push_total''"
| "metric_name EndpointstoreAddFunc = ''endpointstore_add_total''"
| "metric_name EndpointstoreUpdateFunc = ''endpointstore_update_total''"
| "metric_name EndpointstoreDeleteFunc = ''endpointstore_delete_total''"
| "metric_name Operation = ''operation_total''"
| "metric_name OperationDuration = ''operation_duration''"

text \<open>The fully qualified name: namespace, underscore, name.\<close>

definition fq_name :: "metric \<Rightarrow> string" where
  "fq_name m = metric_namespace @ ''_'' @ metric_name m"

type_synonym metric_state = "metric \<times> string \<Rightarrow> nat"

definition Inc :: "metric \<Rightarrow> metric_state \<Rightarrow> metric_state" where
  "Inc m s = s((m, '''') := Suc (s (m, '''')))"

definition IncLabel :: "metric \<Rightarrow> string \<Rightarrow> metric_state \<Rightarrow> metric_state" where
  "IncLabel m l s = s((m, l) := Suc (s (m, l)))"

definition SetGauge :: "metric \<Rightarrow> nat \<Rightarrow> metric_state \<Rightarrow> metric_state" where
  "SetGauge m v s = s((m, '''') := v)"

lemma metric_name_inject [simp]: "metric_name a = metric_name b \<longleftrightarrow> a = b"
  by (cases a; cases b) simp_all

lemma Inc_same [simp]: "Inc m s (m, '''') = Suc (s (m, ''''))"
  by (simp add: Inc_def)

lemma Inc_other [simp]: "k \<noteq> (m, '''') \<Longrightarrow> Inc m s k = s k"
  by (auto simp: Inc_def)

end
