(* ===== verification/Api.thy ===== *)
theory Api
  imports AppConfig Metrics
begin

text \<open>
  \<^verbatim>\<open>pkg/api\<close>: the Kubernetes objects the program reads, the lister queries, the informer
  event handlers, the client set-up and the informer start sequence. client-go's listers,
  selectors, REST clients and cache synchronisation are parameters.
\<close>

section \<open>Kubernetes objects\<close>

record pod_condition =
  pc_Type :: string
  pc_Status :: string

record pod =
  pod_Name :: string
  pod_Namespace :: string
  pod_Labels :: "string gomap option"
  pod_DeletionTimestamp :: "int option"
  pod_NodeName :: string
  pod_PodIP :: string
  pod_Phase :: string
  pod_Conditions :: "pod_condition list"

record node =
  node_Name :: string
  node_Labels :: "string gomap option"

record configmap =
  cm_Name :: string
  cm_Namespace :: string
  cm_Labels :: "string gomap option"
  cm_Annotations :: "string gomap option"
  cm_Data :: "string gomap option"

record object_reference =
  ref_Kind :: string
  ref_Namespace :: string
  ref_Name :: string

record endpoint_address =
  ea_IP :: string
  ea_NodeName :: "string option"
  ea_TargetRef :: "object_reference option"

record endpoints =
  eps_Name :: string
  eps_Annotations :: "string gomap option"
  eps_Subsets :: "endpoint_address list list"

text \<open>
  The informer caches as the program queries them. \<open>GetPod\<close> answers an error for a missing
  object. A selector is a predicate on label sets.
\<close>

type_synonym selector = "string gomap \<Rightarrow> bool"

record listers =
  AsSelector :: "string gomap \<Rightarrow> selector"
  Everything :: selector
  podLister_Get :: "string \<Rightarrow> string \<Rightarrow> goerr + pod"
  podLister_List :: "selector \<Rightarrow> goerr + pod list"
  configLister_List :: "selector \<Rightarrow> goerr + configmap list"
  nodeLister_Get :: "string \<Rightarrow> goerr + node"
  endpointsLister_List :: "selector \<Rightarrow> goerr + endpoints list"

section \<open>Queries\<close>

definition GetPod :: "listers \<Rightarrow> string \<Rightarrow> string \<Rightarrow> goerr + pod" where
  "GetPod L namespace name = podLister_Get L namespace name"

definition ListPods :: "listers \<Rightarrow> string gomap \<Rightarrow> goerr + pod list" where
  "ListPods L selectorSet = (let selector = AsSelector L selectorSet in podLister_List L selector)"

definition ListConfigMaps :: "listers \<Rightarrow> goerr + configmap list" where
  "ListConfigMaps L = configLister_List L (Everything L)"

definition GetNode :: "listers \<Rightarrow> string \<Rightarrow> goerr + node" where
  "GetNode L name = nodeLister_Get L name"

definition canary_enabled :: "endpoints \<Rightarrow> bool" where
  "canary_enabled ep \<longleftrightarrow> map_of (nilmap (eps_Annotations ep)) AnnotationCanaryEnabled = Some ''true''"

fun find_endpoint :: "string \<Rightarrow> endpoints list \<Rightarrow> endpoints option" where
  "find_endpoint name [] = None"
| "find_endpoint name (ep # eps) =
     (if HasSuffix name CanarySuffix \<and> \<not> canary_enabled ep then find_endpoint name eps
      else if eps_Name ep = name then Some ep
      else find_endpoint name eps)"

definition GetEndpoint :: "listers \<Rightarrow> string \<Rightarrow> goerr + endpoints option" where
  "GetEndpoint L name =
     (case endpointsLister_List L (Everything L) of
        Inl e \<Rightarrow> Inl e
      | Inr eps \<Rightarrow> Inr (find_endpoint name eps))"

definition unknown_zone :: string where "unknown_zone = ''unknown''"

definition GetZoneByPodName ::
  "(string \<Rightarrow> string \<Rightarrow> goerr + pod) \<Rightarrow> (string \<Rightarrow> goerr + node) \<Rightarrow> app_config
     \<Rightarrow> string \<Rightarrow> string \<Rightarrow> string" where
  "GetZoneByPodName clientPods clientNodes cfg namespace name =
     (case clientPods namespace name of
        Inl e \<Rightarrow> unknown_zone
      | Inr podInfo \<Rightarrow>
          (case clientNodes (pod_NodeName podInfo) of
             Inl e \<Rightarrow> unknown_zone
           | Inr nodeInfo \<Rightarrow>
               (let zone = mapget (node_Labels nodeInfo) (NodeZoneLabel cfg)
                in if length zone = 0 then unknown_zone else zone)))"

section \<open>Event handlers\<close>

text \<open>
  What an informer hands to a handler: an object of any kind, or the tombstone client-go passes
  to \<^verbatim>\<open>DeleteFunc\<close> when a deletion was missed. A handler counts the event, asserts the type
  (\<^verbatim>\<open>log.Fatal\<close> when it is wrong) and yields the callback to run, if one is registered.
\<close>

datatype kobj =
    KPod pod
  | KConfigMap configmap
  | KEndpoints endpoints
  | KNode node
  | DeletedFinalStateUnknown string

datatype callback =
    OnNewPod pod
  | OnDeletePod pod
  | OnNewConfig configmap
  | OnDeleteConfig configmap
  | OnNewEndpoints endpoints

record hooks =
  hasOnNewPod :: bool
  hasOnDeletePod :: bool
  hasOnNewConfig :: bool
  hasOnDeleteConfig :: bool
  hasOnNewEndpoints :: bool

definition errAssertion :: goerr where "errAssertion = Err ''assertion error''"
definition errTimeout :: goerr where "errTimeout = Err ''timed out waiting for caches to sync''"

type_synonym handler_result = "(metric_state \<times> callback option) outcome"

definition podInformer_AddFunc :: "hooks \<Rightarrow> kobj \<Rightarrow> metric_state \<Rightarrow> handler_result" where
  "podInformer_AddFunc h obj m =
     (let m' = Inc EndpointstoreAddFunc m
      in case obj of
           KPod p \<Rightarrow> Ret (m', if hasOnNewPod h then Some (OnNewPod p) else None)
         | _ \<Rightarrow> Exit errAssertion)"

definition podInformer_UpdateFunc :: "hooks \<Rightarrow> kobj \<Rightarrow> kobj \<Rightarrow> metric_state \<Rightarrow> handler_result" where
  "podInformer_UpdateFunc h old newObj m =
     (let m' = Inc EndpointstoreUpdateFunc m
      in case newObj of
           KPod p \<Rightarrow> Ret (m', if hasOnNewPod h then Some (OnNewPod p) else None)
         | _ \<Rightarrow> Exit errAssertion)"

definition podInformer_DeleteFunc :: "hooks \<Rightarrow> kobj \<Rightarrow> metric_state \<Rightarrow> handler_result" where
  "podInformer_DeleteFunc h obj m =
     (let m' = Inc EndpointstoreDeleteFunc m
      in case obj of
           KPod p \<Rightarrow> Ret (m', if hasOnDeletePod h then Some (OnDeletePod p) else None)
         | _ \<Rightarrow> Exit errAssertion)"

definition configInformer_AddFunc :: "hooks \<Rightarrow> kobj \<Rightarrow> metric_state \<Rightarrow> handler_result" where
  "configInformer_AddFunc h obj m =
     (let m' = Inc ConfigmapsstoreAddFunc m
      in case obj of
           KConfigMap cm \<Rightarrow> Ret (m', if hasOnNewConfig h then Some (OnNewConfig cm) else None)
         | _ \<Rightarrow> Exit errAssertion)"

definition configInformer_UpdateFunc ::
  "hooks \<Rightarrow> kobj \<Rightarrow> kobj \<Rightarrow> metric_state \<Rightarrow> handler_result" where
  "configInformer_UpdateFunc h old cur m =
     (let m' = Inc ConfigmapsstoreUpdateFunc m
      in case cur of
           KConfigMap curConfig \<Rightarrow>
             (case old of
                KConfigMap oldConfig \<Rightarrow>
                  if DeepEqual_map (cm_Data curConfig) (cm_Data oldConfig)
                     \<and> DeepEqual_map (cm_Annotations curConfig) (cm_Annotations oldConfig)
                  then Ret (m', None)
                  else Ret (m', if hasOnNewConfig h then Some (OnNewConfig curConfig) else None)
              | _ \<Rightarrow> Exit errAssertion)
         | _ \<Rightarrow> Exit errAssertion)"

definition configInformer_DeleteFunc :: "hooks \<Rightarrow> kobj \<Rightarrow> metric_state \<Rightarrow> handler_result" where
  "configInformer_DeleteFunc h obj m =
     (let m' = Inc ConfigmapsstoreDeleteFunc m
      in case obj of
           KConfigMap cm \<Rightarrow> Ret (m', if hasOnDeleteConfig h then Some (OnDeleteConfig cm) else None)
         | _ \<Rightarrow> Exit errAssertion)"

definition endpointsInformer_AddFunc :: "hooks \<Rightarrow> kobj \<Rightarrow> metric_state \<Rightarrow> handler_result" where
  "endpointsInformer_AddFunc h obj m =
     (case obj of
        KEndpoints eps \<Rightarrow> Ret (m, if hasOnNewEndpoints h then Some (OnNewEndpoints eps) else None)
      | _ \<Rightarrow> Exit errAssertion)"

definition endpointsInformer_UpdateFunc ::
  "hooks \<Rightarrow> kobj \<Rightarrow> kobj \<Rightarrow> metric_state \<Rightarrow> handler_result" where
  "endpointsInformer_UpdateFunc h old cur m =
     (case cur of
        KEndpoints eps \<Rightarrow> Ret (m, if hasOnNewEndpoints h then Some (OnNewEndpoints eps) else None)
      | _ \<Rightarrow> Exit errAssertion)"

lemmas handler_defs =
  podInformer_AddFunc_def podInformer_UpdateFunc_def podInformer_DeleteFunc_def
  configInformer_AddFunc_def configInformer_UpdateFunc_def configInformer_DeleteFunc_def
  endpointsInformer_AddFunc_def endpointsInformer_UpdateFunc_def

section \<open>Client and informer start\<close>

text \<open>
  \<^verbatim>\<open>newClient\<close>: which REST configuration is used and which namespace the informer factory
  watches. The two branches of the \<^verbatim>\<open>WatchNamespaced\<close> test are kept as the source has them.
\<close>

record ('rc, 'cs) kube_client =
  clientset :: 'cs
  restconfig :: 'rc
  factory_namespace :: string

definition newClient ::
  "(string \<Rightarrow> goerr + 'rc) \<Rightarrow> (goerr + 'rc) \<Rightarrow> ('rc \<Rightarrow> goerr + 'cs) \<Rightarrow> app_config
     \<Rightarrow> (goerr + ('rc, 'cs) kube_client) outcome" where
  "newClient BuildConfigFromFlags InClusterConfig NewForConfig cfg =
     (case (if length (KubeConfigFile cfg) > 0 then BuildConfigFromFlags (KubeConfigFile cfg)
            else InClusterConfig) of
        Inl err \<Rightarrow> Ret (Inl err)
      | Inr rc \<Rightarrow>
          (case NewForConfig rc of
             Inl err \<Rightarrow> Exit err
           | Inr cs \<Rightarrow>
               if WatchNamespaced cfg
               then Ret (Inr \<lparr>clientset = cs, restconfig = rc, factory_namespace = Namespace cfg\<rparr>)
               else Ret (Inr \<lparr>clientset = cs, restconfig = rc, factory_namespace = Namespace cfg\<rparr>)))"

definition api_Init ::
  "(string \<Rightarrow> goerr + 'rc) \<Rightarrow> (goerr + 'rc) \<Rightarrow> ('rc \<Rightarrow> goerr + 'cs) \<Rightarrow> app_config
     \<Rightarrow> (goerr + ('rc, 'cs) kube_client) outcome" where
  "api_Init b i n cfg =
     bind_outcome (newClient b i n cfg) (\<lambda>r. Ret (wrap ''error creating newClient'' r))"

datatype informer = PodInformer | NodeInformer | ConfigInformer | EndpointsInformer

datatype start_action =
    AddEventHandler informer
  | SetWatchErrorHandler informer
  | RunInformer informer
  | SleepFor int
  | WaitForCacheSync informer
  | SpawnStopOnDone

definition informersSyncTime :: int where "informersSyncTime = 5 * Second"

fun set_watch_handlers ::
  "(informer \<Rightarrow> goerr option) \<Rightarrow> informer list \<Rightarrow> start_action list outcome" where
  "set_watch_handlers setErr [] = Ret []"
| "set_watch_handlers setErr (i # is) =
     (case setErr i of
        Some err \<Rightarrow> Exit err
      | None \<Rightarrow> bind_outcome (set_watch_handlers setErr is)
                  (\<lambda>t. Ret (SetWatchErrorHandler i # t)))"

fun wait_synced :: "(informer \<Rightarrow> bool) \<Rightarrow> informer list \<Rightarrow> start_action list outcome" where
  "wait_synced synced [] = Ret []"
| "wait_synced synced (i # is) =
     (if \<not> synced i then Exit errTimeout
      else bind_outcome (wait_synced synced is) (\<lambda>t. Ret (WaitForCacheSync i # t)))"

definition RunKubeInformers ::
  "(informer \<Rightarrow> goerr option) \<Rightarrow> (informer \<Rightarrow> bool) \<Rightarrow> start_action list outcome" where
  "RunKubeInformers setErr synced =
     bind_outcome
       (set_watch_handlers setErr [PodInformer, NodeInformer, ConfigInformer, EndpointsInformer])
       (\<lambda>ws. bind_outcome
          (wait_synced synced [PodInformer, NodeInformer, ConfigInformer, EndpointsInformer])
          (\<lambda>ss. Ret
             ([AddEventHandler PodInformer, AddEventHandler ConfigInformer,
               AddEventHandler EndpointsInformer] @ ws @
              [RunInformer NodeInformer, SleepFor informersSyncTime, RunInformer PodInformer,
               RunInformer ConfigInformer, RunInformer EndpointsInformer] @ ss @
              [SpawnStopOnDone])))"

definition watchErrors :: "goerr \<Rightarrow> 'a outcome" where
  "watchErrors err = Exit err"

definition requestResult_Increment :: "string \<Rightarrow> metric_state \<Rightarrow> metric_state" where
  "requestResult_Increment code m = IncLabel KubernetesAPIRequest code m"

definition requestLatency_Observe :: "metric_state \<Rightarrow> metric_state" where
  "requestLatency_Observe m = Inc KubernetesAPIRequestDuration m"

section \<open>Facts\<close>

text \<open>Documented behaviour of label selectors: every pair of the set is among the labels.\<close>

definition selector_law :: "listers \<Rightarrow> bool" where
  "selector_law L \<longleftrightarrow>
     (\<forall>sel ls. AsSelector L sel ls = (\<forall>(k, v) \<in> set sel. map_of ls k = Some v)) \<and>
     (\<forall>sel ps. podLister_List L sel = Inr ps \<longrightarrow> (\<forall>p \<in> set ps. sel (nilmap (pod_Labels p))))"

lemma ListPods_selected:
  assumes "selector_law L" and "ListPods L sel = Inr ps" and "p \<in> set ps" and "(k, v) \<in> set sel"
  shows "mapget (pod_Labels p) k = v"
proof -
  from assms(1,2,3) have "AsSelector L sel (nilmap (pod_Labels p))"
    unfolding selector_law_def ListPods_def Let_def by blast
  with assms(1,4) have "map_of (nilmap (pod_Labels p)) k = Some v"
    unfolding selector_law_def by fastforce
  then show ?thesis by (simp add: mapget_def)
qed

lemma find_endpoint_Some:
  "find_endpoint name eps = Some ep \<Longrightarrow>
     ep \<in> set eps \<and> eps_Name ep = name \<and> (HasSuffix name CanarySuffix \<longrightarrow> canary_enabled ep)"
  by (induction eps) (auto split: if_splits)

lemma find_endpoint_None:
  "find_endpoint name eps = None \<longleftrightarrow>
     (\<forall>ep \<in> set eps. eps_Name ep = name \<longrightarrow> HasSuffix name CanarySuffix \<and> \<not> canary_enabled ep)"
  by (induction eps) auto

lemma wait_synced_Ret:
  "wait_synced synced is = Ret t \<longleftrightarrow> (\<forall>i \<in> set is. synced i) \<and> t = map WaitForCacheSync is"
  by (induction "is" arbitrary: t) auto

lemma set_watch_handlers_Ret:
  "set_watch_handlers setErr is = Ret t \<longleftrightarrow>
     (\<forall>i \<in> set is. setErr i = None) \<and> t = map SetWatchErrorHandler is"
  by (induction "is" arbitrary: t) (auto split: option.splits)

text \<open>A concrete cluster, used where an example has to be evaluated.\<close>

record kube_state =
  ks_pods :: "pod list"
  ks_nodes :: "node list"
  ks_configmaps :: "configmap list"
  ks_endpoints :: "endpoints list"

definition listers_of :: "kube_state \<Rightarrow> listers" where
  "listers_of K =
     \<lparr>AsSelector = (\<lambda>sel ls. \<forall>(k, v) \<in> set sel. map_of ls k = Some v),
      Everything = (\<lambda>_. True),
      podLister_Get = (\<lambda>ns n. case filter (\<lambda>p. pod_Namespace p = ns \<and> pod_Name p = n) (ks_pods K) of
          [] \<Rightarrow> Inl (Err ''not found'') | p # _ \<Rightarrow> Inr p),
      podLister_List = (\<lambda>sel. Inr (filter (\<lambda>p. sel (nilmap (pod_Labels p))) (ks_pods K))),
      configLister_List = (\<lambda>sel. Inr (filter (\<lambda>c. sel (nilmap (cm_Labels c))) (ks_configmaps K))),
      nodeLister_Get = (\<lambda>n. case filter (\<lambda>x. node_Name x = n) (ks_nodes K) of
          [] \<Rightarrow> Inl (Err ''not found'') | x # _ \<Rightarrow> Inr x),
      endpointsLister_List = (\<lambda>sel. Inr (ks_endpoints K))\<rparr>"

lemma listers_of_law: "selector_law (listers_of K)"
  by (auto simp: selector_law_def listers_of_def)

end
