(* ===== verification/Envoy.thy ===== *)
theory Envoy
  imports GoStd
begin

text \<open>
  The Envoy API messages the program builds, reads or rewrites, as records and datatypes with
  the fields the program touches. A pointer that may be nil is an \<open>option\<close>; a oneof is a
  \<open>datatype\<close>; every field the program never reads is kept in an opaque \<open>rest\<close> field, so that
  "the rest of the message is unchanged" can be stated. The getters are nil-safe, as the generated
  Go getters are.
\<close>

section \<open>Endpoints\<close>

record locality =
  Zone :: string
  locality_rest :: opaque

record socket_address =
  sa_Address :: string
  sa_PortValue :: u32
  sa_rest :: opaque

datatype address = SocketAddress socket_address | OtherAddress opaque

record endpoint =
  HealthCheckPort :: "u32 option"
  ep_Address :: "address option"
  ep_rest :: opaque

datatype host_identifier = HostEndpoint endpoint | EndpointName string

datatype pb_value = BoolValue bool | StringValue string | OtherValue opaque

record lb_endpoint =
  lbe_Metadata :: "pb_value gomap gomap option"
  HostIdentifier :: "host_identifier option"
  lbe_rest :: opaque

record locality_lb_endpoints =
  lle_Locality :: "locality option"
  lle_Priority :: u32
  LbEndpoints :: "lb_endpoint list"
  lle_rest :: opaque

record cluster_load_assignment =
  cla_ClusterName :: string
  cla_Endpoints :: "locality_lb_endpoints list"
  cla_rest :: opaque

definition GetEndpointOf :: "lb_endpoint \<Rightarrow> endpoint option" where
  "GetEndpointOf e =
     (case HostIdentifier e of Some (HostEndpoint ep) \<Rightarrow> Some ep | _ \<Rightarrow> None)"

definition GetSocketAddress :: "lb_endpoint \<Rightarrow> socket_address option" where
  "GetSocketAddress e =
     (case GetEndpointOf e of
        None \<Rightarrow> None
      | Some ep \<Rightarrow> (case ep_Address ep of Some (SocketAddress sa) \<Rightarrow> Some sa | _ \<Rightarrow> None))"

definition GetAddress :: "lb_endpoint \<Rightarrow> string" where
  "GetAddress e = (case GetSocketAddress e of None \<Rightarrow> '''' | Some sa \<Rightarrow> sa_Address sa)"

definition GetPortValue :: "lb_endpoint \<Rightarrow> u32" where
  "GetPortValue e = (case GetSocketAddress e of None \<Rightarrow> 0 | Some sa \<Rightarrow> sa_PortValue sa)"

definition GetHealthCheckPort :: "lb_endpoint \<Rightarrow> u32" where
  "GetHealthCheckPort e =
     (case GetEndpointOf e of
        None \<Rightarrow> 0
      | Some ep \<Rightarrow> (case HealthCheckPort ep of None \<Rightarrow> 0 | Some p \<Rightarrow> p))"

definition GetZone :: "locality_lb_endpoints \<Rightarrow> string" where
  "GetZone l = (case lle_Locality l of None \<Rightarrow> '''' | Some loc \<Rightarrow> Zone loc)"

section \<open>Routes\<close>

record cluster_weight_entry =
  cw_Name :: string
  cw_Weight :: "u32 option"
  cw_rest :: opaque

record weighted_cluster =
  wc_Clusters :: "cluster_weight_entry list"
  wc_rest :: opaque

datatype cluster_specifier = WeightedClusters weighted_cluster | OtherSpecifier opaque

record route_action =
  ClusterSpecifier :: "cluster_specifier option"
  ra_rest :: opaque

datatype route_kind = RouteAction route_action | OtherAction opaque

record route =
  rt_Action :: "route_kind option"
  rt_rest :: opaque

record virtual_host =
  vh_Routes :: "route list"
  vh_rest :: opaque

record route_configuration =
  rc_Name :: string
  rc_VirtualHosts :: "virtual_host list"
  rc_rest :: opaque

definition cw_value :: "cluster_weight_entry \<Rightarrow> u32" where
  "cw_value c = (case cw_Weight c of None \<Rightarrow> 0 | Some w \<Rightarrow> w)"

section \<open>Listeners and TLS\<close>

record any =
  TypeUrl :: string
  AnyValue :: opaque

record transport_socket =
  ts_Name :: string
  ts_TypedConfig :: "any option"

record listener_filter =
  f_Name :: string
  f_TypedConfig :: "any option"

record filter_chain =
  fc_Filters :: "listener_filter list"
  fc_TransportSocket :: "transport_socket option"
  fc_rest :: opaque

record listener =
  l_Name :: string
  l_FilterChains :: "filter_chain list"
  l_rest :: opaque

record http_connection_manager =
  hcm_RouteConfig :: "route_configuration option"
  hcm_rest :: opaque

record downstream_tls_context =
  RequireClientCertificate :: "bool option"
  dtc_rest :: opaque

datatype data_source = InlineBytes string | OtherSource opaque

record tls_certificate =
  CertificateChain :: "data_source option"
  PrivateKeySource :: "data_source option"

record certificate_validation_context =
  TrustedCa :: "data_source option"
  cvc_rest :: opaque

datatype secret_type =
    TlsCertificate tls_certificate
  | ValidationContext certificate_validation_context
  | OtherSecret opaque

record secret =
  s_Name :: string
  s_Type :: secret_type

record cluster =
  c_Name :: string
  c_rest :: opaque

section \<open>Resources\<close>

text \<open>\<^verbatim>\<open>types.Resource\<close> is an interface over messages: a value is one of these pointers.\<close>

datatype resource =
    RCluster cluster
  | RRoute route_configuration
  | REndpoint cluster_load_assignment
  | RListener listener
  | RSecret secret

text \<open>The type URLs under which a snapshot files its resources.\<close>

datatype type_url = ClusterType | RouteType | ListenerType | SecretType | EndpointType

text \<open>
  go-control-plane's snapshots (\<^verbatim>\<open>'s\<close>) and snapshot cache (state \<^verbatim>\<open>'c\<close>) are third-party
  code: the operations the program calls are parameters. \<open>GetSnapshot\<close> returns a nil interface
  as \<open>None\<close>.
\<close>

record ('s, 'c) xds =
  NewSnapshot :: "string \<Rightarrow> (type_url \<times> resource list) list \<Rightarrow> goerr + 's"
  GetVersionOf :: "'s \<Rightarrow> type_url \<Rightarrow> string"
  SetSnapshot :: "string \<Rightarrow> 's \<Rightarrow> 'c \<Rightarrow> goerr option \<times> 'c"
  GetSnapshot :: "string \<Rightarrow> 'c \<Rightarrow> 's option \<times> goerr option"
  ClearSnapshot :: "string \<Rightarrow> 'c \<Rightarrow> 'c"
  GetStatusKeys :: "'c \<Rightarrow> string list"

text \<open>
  The documented behaviour of the cache the properties rely on: a snapshot set for a node is
  the one read back (a set that reports an error leaves the old or the new one), other nodes are
  not affected, a cleared node has no snapshot, and a snapshot reports the version it was made
  with.
\<close>

definition cache_laws :: "('s, 'c) xds \<Rightarrow> bool" where
  "cache_laws X \<longleftrightarrow>
     (\<forall>n s c c'. SetSnapshot X n s c = (None, c') \<longrightarrow> GetSnapshot X n c' = (Some s, None)) \<and>
     (\<forall>n s c e c' m. SetSnapshot X n s c = (e, c') \<longrightarrow> m \<noteq> n \<longrightarrow>
        GetSnapshot X m c' = GetSnapshot X m c) \<and>
     (\<forall>n s c e c'. SetSnapshot X n s c = (e, c') \<longrightarrow>
        fst (GetSnapshot X n c') \<in> {Some s, fst (GetSnapshot X n c)}) \<and>
     (\<forall>n c. fst (GetSnapshot X n (ClearSnapshot X n c)) = None) \<and>
     (\<forall>n c m. m \<noteq> n \<longrightarrow> GetSnapshot X m (ClearSnapshot X n c) = GetSnapshot X m c)"

definition version_law :: "('s, 'c) xds \<Rightarrow> bool" where
  "version_law X \<longleftrightarrow>
     (\<forall>v rs s t. NewSnapshot X v rs = Inr s \<longrightarrow> t \<in> fst ` set rs \<longrightarrow> GetVersionOf X s t = v)"

lemma cache_lawsD:
  assumes "cache_laws X"
  shows cache_set: "SetSnapshot X n s c = (None, c') \<Longrightarrow> GetSnapshot X n c' = (Some s, None)"
    and cache_set_other:
      "SetSnapshot X n s c = (e, c') \<Longrightarrow> m \<noteq> n \<Longrightarrow> GetSnapshot X m c' = GetSnapshot X m c"
    and cache_set_any:
      "SetSnapshot X n s c = (e, c') \<Longrightarrow> fst (GetSnapshot X n c') = Some s \<or> fst (GetSnapshot X n c') = fst (GetSnapshot X n c)"
    and cache_clear: "fst (GetSnapshot X n (ClearSnapshot X n c)) = None"
    and cache_clear_other: "m \<noteq> n \<Longrightarrow> GetSnapshot X m (ClearSnapshot X n c) = GetSnapshot X m c"
  using assms unfolding cache_laws_def by (elim conjE, simp)+

lemma version_lawD:
  "version_law X \<Longrightarrow> NewSnapshot X v rs = Inr s \<Longrightarrow> t \<in> fst ` set rs \<Longrightarrow> GetVersionOf X s t = v"
  unfolding version_law_def by blast

text \<open>
  A concrete cache, used where an example has to be evaluated: a snapshot is the version with
  the resources it was made from, the cache is the map from node to snapshot.
\<close>

type_synonym map_snapshot = "string \<times> (type_url \<times> resource list) list"

definition map_xds :: "(map_snapshot, map_snapshot gomap) xds" where
  "map_xds =
     \<lparr>NewSnapshot = (\<lambda>v rs. Inr (v, rs)),
      GetVersionOf = (\<lambda>s t. if t \<in> fst ` set (snd s) then fst s else ''''),
      SetSnapshot = (\<lambda>n s c. (None, AList.update n s c)),
      GetSnapshot = (\<lambda>n c. case map_of c n of
          None \<Rightarrow> (None, Some (Err ''no snapshot found''))
        | Some s \<Rightarrow> (Some s, None)),
      ClearSnapshot = (\<lambda>n c. AList.delete n c),
      GetStatusKeys = map fst\<rparr>"

lemma map_xds_laws: "cache_laws map_xds" "version_law map_xds"
  by (auto simp: cache_laws_def version_law_def map_xds_def delete_conv' split: option.splits)

end
