(* ===== verification/Resources.thy ===== *)
theory Resources
  imports Envoy
begin

text \<open>
  \<^verbatim>\<open>pkg/resources/resources.go\<close>: turning the untyped YAML sections of a configuration into Envoy
  messages. The YAML/JSON/protobuf codecs are third-party code and are the fields of \<open>codec\<close>, with the two names
  of go-control-plane's \<^verbatim>\<open>wellknown\<close> package.
\<close>

text \<open>An \<^verbatim>\<open>interface{}\<close> decoded from YAML.\<close>

datatype yaml = YNull | YScalar string | YSeq "yaml list" | YMap "(string \<times> yaml) list"

record codec =
  HTTPConnectionManager :: string
  TransportSocketTLS :: string
  ConvertYAMLtoJSON :: "yaml \<Rightarrow> yaml"
  json_Marshal :: "yaml \<Rightarrow> goerr + string"
  json_Unmarshal :: "string \<Rightarrow> goerr + yaml list"
  GetJSONfromYAML :: "yaml \<Rightarrow> goerr + string"
  protojson_Cluster :: "string \<Rightarrow> goerr + cluster"
  protojson_Route :: "string \<Rightarrow> goerr + route_configuration"
  protojson_Endpoint :: "string \<Rightarrow> goerr + cluster_load_assignment"
  protojson_Listener :: "string \<Rightarrow> goerr + listener"
  protojson_Secret :: "string \<Rightarrow> goerr + secret"
  protojson_Validation :: "string \<Rightarrow> goerr + certificate_validation_context"
  any_to_hcm :: "any option \<Rightarrow> goerr + http_connection_manager"
  any_of_hcm :: "http_connection_manager \<Rightarrow> goerr + any"
  any_to_tls :: "any option \<Rightarrow> goerr + downstream_tls_context"
  any_of_tls :: "downstream_tls_context \<Rightarrow> goerr + any"

text \<open>
  Documented behaviour of \<^verbatim>\<open>anypb\<close>: a message packed with \<^verbatim>\<open>anypb.New\<close> is the one
  \<^verbatim>\<open>UnmarshalTo\<close> gives back.
\<close>

definition any_laws :: "codec \<Rightarrow> bool" where
  "any_laws C \<longleftrightarrow>
     (\<forall>m a. any_of_hcm C m = Inr a \<longrightarrow> any_to_hcm C (Some a) = Inr m) \<and>
     (\<forall>m a. any_of_tls C m = Inr a \<longrightarrow> any_to_tls C (Some a) = Inr m)"

lemma any_lawsD:
  assumes "any_laws C"
  shows "any_of_hcm C m = Inr a \<Longrightarrow> any_to_hcm C (Some a) = Inr m"
    and "any_of_tls C t = Inr a \<Longrightarrow> any_to_tls C (Some a) = Inr t"
  using assms unfolding any_laws_def by blast+

text \<open>The message the caller asks for, by an empty value of its type.\<close>

datatype out_type = OCluster | ORoute | OEndpoint | OListener | OSecret | OOther

definition errUnknownClass :: goerr where
  "errUnknownClass = Err ''unknown class''"

fun resource_class :: "resource \<Rightarrow> out_type" where
  "resource_class (RCluster _) = OCluster"
| "resource_class (RRoute _) = ORoute"
| "resource_class (REndpoint _) = OEndpoint"
| "resource_class (RListener _) = OListener"
| "resource_class (RSecret _) = OSecret"

text \<open>The \<^verbatim>\<open>switch\<close> on the type of the requested message.\<close>

fun decode_as :: "codec \<Rightarrow> out_type \<Rightarrow> string \<Rightarrow> goerr + resource" where
  "decode_as C OCluster js =
     wrap ''cluster.Cluster'' (map_sum id RCluster (protojson_Cluster C js))"
| "decode_as C ORoute js =
     wrap ''route.RouteConfiguration'' (map_sum id RRoute (protojson_Route C js))"
| "decode_as C OEndpoint js =
     wrap ''endpoint.ClusterLoadAssignment'' (map_sum id REndpoint (protojson_Endpoint C js))"
| "decode_as C OListener js =
     wrap ''listener.Listener'' (map_sum id RListener (protojson_Listener C js))"
| "decode_as C OSecret js = wrap ''tls.Secret'' (map_sum id RSecret (protojson_Secret C js))"
| "decode_as C OOther js = Inl errUnknownClass"

fun decode_all :: "codec \<Rightarrow> out_type \<Rightarrow> yaml list \<Rightarrow> goerr + resource list" where
  "decode_all C outType [] = Inr []"
| "decode_all C outType (v # vs) =
     (case wrap ''utils.GetJSONfromYAML(v)'' (GetJSONfromYAML C v) of
        Inl e \<Rightarrow> Inl e
      | Inr resourcesJSON \<Rightarrow>
          (case decode_as C outType resourcesJSON of
             Inl e \<Rightarrow> Inl e
           | Inr r \<Rightarrow> map_sum id ((#) r) (decode_all C outType vs)))"

definition YamlToResources :: "codec \<Rightarrow> yaml list \<Rightarrow> out_type \<Rightarrow> goerr + resource list" where
  "YamlToResources C yamlObj outType =
     (if length yamlObj = 0 then Inr []
      else case wrap ''json.Marshal(yamlObjJSON)''
                  (json_Marshal C (ConvertYAMLtoJSON C (YSeq yamlObj))) of
             Inl e \<Rightarrow> Inl e
           | Inr jsonObj \<Rightarrow>
               (case wrap ''json.Unmarshal(jsonObj, &resources)'' (json_Unmarshal C jsonObj) of
                  Inl e \<Rightarrow> Inl e
                | Inr resources \<Rightarrow> decode_all C outType resources))"

lemma map_sum_Inr_iff [simp]: "map_sum id f r = Inr y \<longleftrightarrow> (\<exists>x. r = Inr x \<and> y = f x)"
  by (cases r) auto

lemma decode_as_class: "decode_as C t js = Inr r \<Longrightarrow> resource_class r = t"
  by (cases t) auto

lemma decode_all_class: "decode_all C t vs = Inr rs \<Longrightarrow> \<forall>r \<in> set rs. resource_class r = t"
  by (induction vs arbitrary: rs) (auto split: sum.splits dest: decode_as_class)

lemma decode_all_length: "decode_all C t vs = Inr rs \<Longrightarrow> length rs = length vs"
  by (induction vs arbitrary: rs) (auto split: sum.splits)

lemma YamlToResources_class:
  "YamlToResources C ys t = Inr rs \<Longrightarrow> \<forall>r \<in> set rs. resource_class r = t"
  by (auto simp: YamlToResources_def split: if_splits sum.splits dest: decode_all_class)

lemma YamlToResources_Nil [simp]: "YamlToResources C [] t = Inr []"
  by (simp add: YamlToResources_def)

lemma decode_all_nth:
  assumes "decode_all C t vs = Inr rs" and "i < length vs"
  shows "\<exists>js. GetJSONfromYAML C (vs ! i) = Inr js \<and> decode_as C t js = Inr (rs ! i)"
  using assms
proof (induction vs arbitrary: rs i)
  case Nil
  then show ?case by simp
next
  case (Cons v vs)
  from Cons.prems(1) obtain js r rs' where
    "GetJSONfromYAML C v = Inr js" "decode_as C t js = Inr r" "decode_all C t vs = Inr rs'" "rs = r # rs'"
    by (auto split: sum.splits)
  with Cons show ?case by (cases i) auto
qed

lemma class_projections:
  assumes "\<forall>r \<in> set rs. resource_class r = t"
  shows "t = OEndpoint \<Longrightarrow> \<exists>xs. rs = map REndpoint xs"
    and "t = OListener \<Longrightarrow> \<exists>ls. rs = map RListener ls"
    and "t = ORoute \<Longrightarrow> \<exists>ss. rs = map RRoute ss"
  using assms
proof (induction rs)
  case (Cons r rs)
  {
    case 1
    with Cons obtain xs where "rs = map REndpoint xs" by auto
    with 1 show ?case by (cases r) (auto intro: exI [of _ "_ # xs"])
  next
    case 2
    with Cons obtain xs where "rs = map RListener xs" by auto
    with 2 show ?case by (cases r) (auto intro: exI [of _ "_ # xs"])
  next
    case 3
    with Cons obtain xs where "rs = map RRoute xs" by auto
    with 3 show ?case by (cases r) (auto intro: exI [of _ "_ # xs"])
  }
qed simp_all

end
