(* ===== verification/ConfigType.thy ===== *)
theory ConfigType
  imports AppConfig Resources
begin

text \<open>
  \<^verbatim>\<open>pkg/config/configType.go\<close>: the configuration of one Envoy node, the rewriting of route
  weights from annotations, the removal of client-certificate requirements, and the parsing of a
  configuration text. The template engine and the YAML decoder are parameters.
\<close>

section \<open>Data\<close>

record kubernetes_type =
  k_ClusterName :: string
  k_Namespace :: string
  k_Port :: u32
  k_HealthCheckPort :: u32
  k_Priority :: u32
  k_Selector :: "string gomap option"
  k_Service :: string

record config_type =
  ct_ID :: string
  ct_Name :: string
  UseVersionLabel :: bool
  VersionLabelKey :: string
  VersionLabel :: string
  ConfigMapName :: string
  ConfigMapNamespace :: string
  ConfigMapAnnotations :: "string gomap option"
  Kubernetes :: "kubernetes_type list"
  ct_Endpoints :: "yaml list"
  ct_Routes :: "yaml list"
  ct_Clusters :: "yaml list"
  ct_Listeners :: "yaml list"
  ct_Secrets :: "yaml list"
  Validation :: "yaml option"
  r_clusters :: "resource list"
  r_routes :: "resource list"
  r_listeners :: "resource list"
  r_secrets :: "resource list"

text \<open>\<^verbatim>\<open>ConfigType{}\<close>, with every field at its zero value.\<close>

definition empty_config :: config_type where
  "empty_config =
     \<lparr>ct_ID = '''', ct_Name = '''', UseVersionLabel = False, VersionLabelKey = '''',
      VersionLabel = '''', ConfigMapName = '''', ConfigMapNamespace = '''',
      ConfigMapAnnotations = None, Kubernetes = [], ct_Endpoints = [], ct_Routes = [],
      ct_Clusters = [], ct_Listeners = [], ct_Secrets = [], Validation = None,
      r_clusters = [], r_routes = [], r_listeners = [], r_secrets = []\<rparr>"

definition HasClusterWeights :: "config_type \<Rightarrow> bool" where
  "HasClusterWeights c \<longleftrightarrow>
     (\<exists>k \<in> set (map fst (nilmap (ConfigMapAnnotations c))). HasPrefix k annotationRouteClusterWeight)"

definition GetClusters :: "config_type \<Rightarrow> resource list" where "GetClusters c = r_clusters c"
definition GetRoutes :: "config_type \<Rightarrow> resource list" where "GetRoutes c = r_routes c"
definition GetListeners :: "config_type \<Rightarrow> resource list" where "GetListeners c = r_listeners c"
definition GetSecrets :: "config_type \<Rightarrow> resource list" where "GetSecrets c = r_secrets c"

text \<open>
  \<open>GetClusterWeight\<close>: the 64-bit pattern of \<^verbatim>\<open>int64(i)\<close>, nil for a missing annotation.
\<close>

definition GetClusterWeight :: "config_type \<Rightarrow> string \<Rightarrow> goerr + u64 option" where
  "GetClusterWeight c name =
     (case map_of (nilmap (ConfigMapAnnotations c)) (annotationRouteClusterWeight @ name) of
        None \<Rightarrow> Inr None
      | Some w \<Rightarrow> map_sum id Some (wrap ''strconv.ParseUint'' (ParseUint w)))"

section \<open>Weighted routes\<close>

text \<open>The body of the innermost loop; \<^verbatim>\<open>uint32(weight.Value)\<close> keeps the low 32 bits.\<close>

definition mutate_weight ::
  "config_type \<Rightarrow> cluster_weight_entry \<Rightarrow> cluster_weight_entry \<times> goerr option" where
  "mutate_weight cfg c =
     (case GetClusterWeight cfg (cw_Name c) of
        Inl err \<Rightarrow> (c, Some err)
      | Inr None \<Rightarrow> (c, None)
      | Inr (Some weight) \<Rightarrow>
          if cw_value c \<noteq> ucast weight
          then (c\<lparr>cw_Weight := Some (ucast weight)\<rparr>, None)
          else (c, None))"

definition mutate_route :: "config_type \<Rightarrow> route \<Rightarrow> route \<times> goerr option" where
  "mutate_route cfg vr =
     (case rt_Action vr of
        Some (RouteAction ra) \<Rightarrow>
          (case ClusterSpecifier ra of
             Some (WeightedClusters wc) \<Rightarrow>
               (case go_each (mutate_weight cfg) (wc_Clusters wc) of
                  (cs, e) \<Rightarrow>
                    (vr\<lparr>rt_Action := Some (RouteAction
                          (ra\<lparr>ClusterSpecifier := Some (WeightedClusters (wc\<lparr>wc_Clusters := cs\<rparr>))\<rparr>))\<rparr>, e))
           | _ \<Rightarrow> (vr, None))
      | _ \<Rightarrow> (vr, None))"

definition mutate_virtual_host :: "config_type \<Rightarrow> virtual_host \<Rightarrow> virtual_host \<times> goerr option" where
  "mutate_virtual_host cfg v =
     (case go_each (mutate_route cfg) (vh_Routes v) of (rs, e) \<Rightarrow> (v\<lparr>vh_Routes := rs\<rparr>, e))"

fun mutateWeightedRouteConfiguration ::
  "config_type \<Rightarrow> route_configuration option \<Rightarrow> route_configuration option \<times> goerr option" where
  "mutateWeightedRouteConfiguration cfg None = (None, None)"
| "mutateWeightedRouteConfiguration cfg (Some r) =
     (case go_each (mutate_virtual_host cfg) (rc_VirtualHosts r) of
        (vs, e) \<Rightarrow> (Some (r\<lparr>rc_VirtualHosts := vs\<rparr>), e))"

fun mutate_route_resource :: "config_type \<Rightarrow> resource \<Rightarrow> resource \<times> goerr option" where
  "mutate_route_resource cfg (RRoute r) =
     (case mutateWeightedRouteConfiguration cfg (Some r) of
        (r', e) \<Rightarrow> (RRoute (case r' of None \<Rightarrow> r | Some x \<Rightarrow> x),
                    map_option (Wrap ''error mutateWeightedRouteConfiguration'') e))"
| "mutate_route_resource cfg item = (item, Some errUnknownClass)"

definition mutateWeightedRoutes ::
  "config_type \<Rightarrow> resource list \<Rightarrow> resource list \<times> goerr option" where
  "mutateWeightedRoutes cfg routes = go_each (mutate_route_resource cfg) routes"

definition mutate_filter ::
  "codec \<Rightarrow> config_type \<Rightarrow> listener_filter \<Rightarrow> listener_filter \<times> goerr option" where
  "mutate_filter C cfg f =
     (if f_Name f \<noteq> HTTPConnectionManager C then (f, None)
      else case any_to_hcm C (f_TypedConfig f) of
             Inl e \<Rightarrow> (f, Some (Wrap ''error unmarshal to HttpConnectionManager'' e))
           | Inr m \<Rightarrow>
               (case mutateWeightedRouteConfiguration cfg (hcm_RouteConfig m) of
                  (rc, Some e) \<Rightarrow> (f, Some (Wrap ''error mutateWeightedRouteConfiguration'' e))
                | (rc, None) \<Rightarrow>
                    (case any_of_hcm C (m\<lparr>hcm_RouteConfig := rc\<rparr>) of
                       Inl e \<Rightarrow> (f, Some (Wrap ''error anypb.New'' e))
                     | Inr pbst \<Rightarrow> (f\<lparr>f_TypedConfig := Some pbst\<rparr>, None))))"

definition mutate_filter_chain ::
  "codec \<Rightarrow> config_type \<Rightarrow> filter_chain \<Rightarrow> filter_chain \<times> goerr option" where
  "mutate_filter_chain C cfg fc =
     (case go_each (mutate_filter C cfg) (fc_Filters fc) of (fs, e) \<Rightarrow> (fc\<lparr>fc_Filters := fs\<rparr>, e))"

fun mutate_listener_resource :: "codec \<Rightarrow> config_type \<Rightarrow> resource \<Rightarrow> resource \<times> goerr option" where
  "mutate_listener_resource C cfg (RListener l) =
     (case go_each (mutate_filter_chain C cfg) (l_FilterChains l) of
        (fcs, e) \<Rightarrow> (RListener (l\<lparr>l_FilterChains := fcs\<rparr>), e))"
| "mutate_listener_resource C cfg listiner = (listiner, Some errUnknownClass)"

definition mutateWeightedRoutesInListeners ::
  "codec \<Rightarrow> config_type \<Rightarrow> resource list \<Rightarrow> resource list \<times> goerr option" where
  "mutateWeightedRoutesInListeners C cfg listiners = go_each (mutate_listener_resource C cfg) listiners"

section \<open>Client certificates\<close>

definition filter_chain_certificates :: "codec \<Rightarrow> filter_chain \<Rightarrow> filter_chain \<times> goerr option" where
  "filter_chain_certificates C filterChain =
     (case fc_TransportSocket filterChain of
        None \<Rightarrow> (filterChain, None)
      | Some s \<Rightarrow>
          if ts_Name s = TransportSocketTLS C then
            (case any_to_tls C (ts_TypedConfig s) of
               Inl err \<Rightarrow> (filterChain, Some err)
             | Inr r \<Rightarrow>
                 (let r' = (if RequireClientCertificate r \<noteq> None
                            then r\<lparr>RequireClientCertificate := Some False\<rparr> else r)
                  in case any_of_tls C r' of
                       Inl err \<Rightarrow> (filterChain, Some err)
                     | Inr pbst \<Rightarrow>
                         (filterChain\<lparr>fc_TransportSocket := Some (s\<lparr>ts_TypedConfig := Some pbst\<rparr>)\<rparr>, None)))
          else (filterChain, None))"

fun filter_listener_certificates :: "codec \<Rightarrow> resource \<Rightarrow> resource \<times> goerr option" where
  "filter_listener_certificates C (RListener c) =
     (case go_each (filter_chain_certificates C) (l_FilterChains c) of
        (fcs, e) \<Rightarrow> (RListener (c\<lparr>l_FilterChains := fcs\<rparr>), e))"
| "filter_listener_certificates C listiner = (listiner, Some errUnknownClass)"

definition filterCertificates :: "codec \<Rightarrow> resource list \<Rightarrow> resource list \<times> goerr option" where
  "filterCertificates C listiners = go_each (filter_listener_certificates C) listiners"

section \<open>Saving and parsing\<close>

definition parse_sections :: "codec \<Rightarrow> config_type \<Rightarrow> goerr + config_type" where
  "parse_sections C c =
     (case wrap ''error parsing clusters'' (YamlToResources C (ct_Clusters c) OCluster) of
        Inl e \<Rightarrow> Inl e
      | Inr clusters \<Rightarrow>
     (case wrap ''error parsing routes'' (YamlToResources C (ct_Routes c) ORoute) of
        Inl e \<Rightarrow> Inl e
      | Inr routes \<Rightarrow>
     (case wrap ''error parsing listeners'' (YamlToResources C (ct_Listeners c) OListener) of
        Inl e \<Rightarrow> Inl e
      | Inr listeners \<Rightarrow>
     (case wrap ''error parsing secrets'' (YamlToResources C (ct_Secrets c) OSecret) of
        Inl e \<Rightarrow> Inl e
      | Inr secrets \<Rightarrow>
          Inr (c\<lparr>r_clusters := clusters, r_routes := routes,
                 r_listeners := listeners, r_secrets := secrets\<rparr>)))))"

definition update_weights :: "codec \<Rightarrow> config_type \<Rightarrow> config_type \<times> goerr option" where
  "update_weights C c =
     (if HasClusterWeights c then
        (case mutateWeightedRoutesInListeners C c (r_listeners c) of
           (ls, Some e) \<Rightarrow>
             (c\<lparr>r_listeners := ls\<rparr>, Some (Wrap ''errors in mutateWeightedRoutesInListeners'' e))
         | (ls, None) \<Rightarrow>
             (case mutateWeightedRoutes c (r_routes c) of
                (rs, e) \<Rightarrow> (c\<lparr>r_listeners := ls, r_routes := rs\<rparr>,
                            map_option (Wrap ''errors in mutateWeightedRoutes'') e)))
      else (c, None))"

definition SaveResources ::
  "codec \<Rightarrow> app_config \<Rightarrow> config_type \<Rightarrow> config_type \<times> goerr option" where
  "SaveResources C app c =
     (case parse_sections C c of
        Inl e \<Rightarrow> (c, Some e)
      | Inr c1 \<Rightarrow>
          (case update_weights C c1 of
             (c2, Some e) \<Rightarrow> (c2, Some e)
           | (c2, None) \<Rightarrow>
               if SSLDoNotUseValidation app then
                 (case filterCertificates C (r_listeners c2) of
                    (ls, e) \<Rightarrow> (c2\<lparr>r_listeners := ls\<rparr>,
                                map_option (Wrap ''errors in filterCertificates'') e))
               else (c2, None)))"

text \<open>
  The libraries a configuration text goes through: a template is parsed under a name, the
  template of another name is executed, and the YAML decoder fills a given \<^verbatim>\<open>ConfigType\<close>.
\<close>

record loader =
  ld_codec :: codec
  template_Parse :: "string \<Rightarrow> string \<Rightarrow> goerr + opaque"
  ExecuteTemplate :: "opaque \<Rightarrow> string \<Rightarrow> goerr + string"
  yaml_Unmarshal :: "string \<Rightarrow> config_type \<Rightarrow> goerr + config_type"

definition ParseConfigYaml :: "loader \<Rightarrow> string \<Rightarrow> string \<Rightarrow> (goerr + config_type) outcome" where
  "ParseConfigYaml D nodeID text =
     (case template_Parse D nodeID text of
        Inl err \<Rightarrow> Panic (Error err)
      | Inr templates \<Rightarrow>
          Ret (case wrap ''templates.ExecuteTemplate'' (ExecuteTemplate D templates (path_Base nodeID)) of
                 Inl e \<Rightarrow> Inl e
               | Inr tpl \<Rightarrow>
                   wrap ''yaml.Unmarshal''
                     (yaml_Unmarshal D tpl (empty_config\<lparr>VersionLabelKey := ''version''\<rparr>))))"

definition ValidateConfig ::
  "(string \<Rightarrow> goerr + string) \<Rightarrow> loader \<Rightarrow> app_config \<Rightarrow> string \<Rightarrow> unit outcome" where
  "ValidateConfig readFile D app path =
     (case readFile path of
        Inl err \<Rightarrow> Exit err
      | Inr configBytes \<Rightarrow>
          (case yaml_Unmarshal D configBytes empty_config of
             Inl err \<Rightarrow> Exit err
           | Inr config \<Rightarrow>
               (case SaveResources (ld_codec D) app config of
                  (_, Some err) \<Rightarrow> Exit err
                | (_, None) \<Rightarrow> Ret ())))"

text \<open>Saving changes only the parsed resources.\<close>

definition erase_resources :: "config_type \<Rightarrow> config_type" where
  "erase_resources c = c\<lparr>r_clusters := [], r_routes := [], r_listeners := [], r_secrets := []\<rparr>"

lemma update_weights_frame: "erase_resources (fst (update_weights C c)) = erase_resources c"
  by (auto simp: update_weights_def erase_resources_def split: prod.split option.split)

lemma parse_sections_frame: "parse_sections C c = Inr c' \<Longrightarrow> erase_resources c' = erase_resources c"
  by (auto simp: parse_sections_def erase_resources_def split: sum.splits)

lemma SaveResources_frame: "erase_resources (fst (SaveResources C app c)) = erase_resources c"
proof (cases "parse_sections C c")
  case (Inl e)
  then show ?thesis by (simp add: SaveResources_def)
next
  case (Inr c1)
  have e: "erase_resources (c2\<lparr>r_listeners := ls\<rparr>) = erase_resources c2" for c2 ls
    by (simp add: erase_resources_def)
  obtain c2 r where u: "update_weights C c1 = (c2, r)" by force
  with update_weights_frame [of C c1] parse_sections_frame [OF Inr]
  have "erase_resources c2 = erase_resources c" by simp
  with u Inr e show ?thesis
    by (auto simp: SaveResources_def split: option.split prod.split)
qed

lemma SaveResources_keeps:
  assumes "SaveResources C app c = (c', e)"
  shows "ct_ID c' = ct_ID c" "ConfigMapName c' = ConfigMapName c"
    "ConfigMapNamespace c' = ConfigMapNamespace c" "Kubernetes c' = Kubernetes c"
    "ct_Name c' = ct_Name c"
  using SaveResources_frame [of C app c] assms
  by (auto simp: erase_resources_def dest: arg_cong [where f = ct_ID] arg_cong [where f = ConfigMapName]
      arg_cong [where f = ConfigMapNamespace] arg_cong [where f = Kubernetes] arg_cong [where f = ct_Name])

section \<open>What the weight rewriting does\<close>

text \<open>
  The weighted cluster entries of a route configuration in order, their (name, weight) view, and
  the message with every weight erased, which is everything the rewriting must not touch.
\<close>

definition route_entries :: "route \<Rightarrow> cluster_weight_entry list" where
  "route_entries vr =
     (case rt_Action vr of
        Some (RouteAction ra) \<Rightarrow>
          (case ClusterSpecifier ra of Some (WeightedClusters wc) \<Rightarrow> wc_Clusters wc | _ \<Rightarrow> [])
      | _ \<Rightarrow> [])"

definition rc_entries :: "route_configuration \<Rightarrow> cluster_weight_entry list" where
  "rc_entries r = concat (map (\<lambda>v. concat (map route_entries (vh_Routes v))) (rc_VirtualHosts r))"

definition weights_of :: "route_configuration \<Rightarrow> (string \<times> u32) list" where
  "weights_of r = map (\<lambda>c. (cw_Name c, cw_value c)) (rc_entries r)"

definition annotated_weight :: "config_type \<Rightarrow> string \<Rightarrow> u32 option" where
  "annotated_weight cfg name =
     (case GetClusterWeight cfg name of Inr (Some w) \<Rightarrow> Some (ucast w) | _ \<Rightarrow> None)"

definition new_weight :: "config_type \<Rightarrow> string \<times> u32 \<Rightarrow> string \<times> u32" where
  "new_weight cfg p = (fst p, case annotated_weight cfg (fst p) of None \<Rightarrow> snd p | Some w \<Rightarrow> w)"

definition erase_weight :: "cluster_weight_entry \<Rightarrow> cluster_weight_entry" where
  "erase_weight c = c\<lparr>cw_Weight := None\<rparr>"

definition put_entries :: "cluster_weight_entry list \<Rightarrow> route \<Rightarrow> route" where
  "put_entries cs vr =
     (case rt_Action vr of
        Some (RouteAction ra) \<Rightarrow>
          (case ClusterSpecifier ra of
             Some (WeightedClusters wc) \<Rightarrow>
               vr\<lparr>rt_Action := Some (RouteAction
                     (ra\<lparr>ClusterSpecifier := Some (WeightedClusters (wc\<lparr>wc_Clusters := cs\<rparr>))\<rparr>))\<rparr>
           | _ \<Rightarrow> vr)
      | _ \<Rightarrow> vr)"

definition erase_route :: "route \<Rightarrow> route" where
  "erase_route vr = put_entries (map erase_weight (route_entries vr)) vr"

definition erase_virtual_host :: "virtual_host \<Rightarrow> virtual_host" where
  "erase_virtual_host v = v\<lparr>vh_Routes := map erase_route (vh_Routes v)\<rparr>"

definition erase_rc :: "route_configuration \<Rightarrow> route_configuration" where
  "erase_rc r = r\<lparr>rc_VirtualHosts := map erase_virtual_host (rc_VirtualHosts r)\<rparr>"

definition weight_settled :: "config_type \<Rightarrow> cluster_weight_entry \<Rightarrow> bool" where
  "weight_settled cfg c \<longleftrightarrow>
     (case GetClusterWeight cfg (cw_Name c) of
        Inl e \<Rightarrow> False | Inr None \<Rightarrow> True | Inr (Some w) \<Rightarrow> cw_value c = ucast w)"

lemma mutate_weight_cases:
  "mutate_weight cfg c = (d, e) \<Longrightarrow>
     cw_Name d = cw_Name c \<and> erase_weight d = erase_weight c \<and>
     (e = None \<longrightarrow> weight_settled cfg d \<and> (cw_Name d, cw_value d) = new_weight cfg (cw_Name c, cw_value c))"
  by (auto simp: mutate_weight_def erase_weight_def weight_settled_def new_weight_def cw_value_def
      annotated_weight_def split: sum.splits option.splits if_splits)

lemma weight_visitor:
  "visitor (mutate_weight cfg) (\<lambda>x y. erase_weight x = erase_weight y) (weight_settled cfg)"
proof
  fix x
  show "erase_weight x = erase_weight (fst (mutate_weight cfg x))"
    using mutate_weight_cases [OF surjective_pairing [of "mutate_weight cfg x"]] by simp
  show "snd (mutate_weight cfg x) = None \<Longrightarrow> weight_settled cfg (fst (mutate_weight cfg x))"
    using mutate_weight_cases [OF surjective_pairing [of "mutate_weight cfg x"]] by simp
  show "weight_settled cfg x \<Longrightarrow> mutate_weight cfg x = (x, None)"
    by (auto simp: weight_settled_def mutate_weight_def split: sum.splits option.splits)
qed simp

interpretation wv: visitor "mutate_weight cfg" "\<lambda>x y. erase_weight x = erase_weight y" "weight_settled cfg"
  for cfg by (rule weight_visitor)

lemma mutate_route_eq:
  "mutate_route cfg vr =
     (case go_each (mutate_weight cfg) (route_entries vr) of (cs, e) \<Rightarrow> (put_entries cs vr, e))"
  by (auto simp: mutate_route_def route_entries_def put_entries_def
      split: option.splits route_kind.splits cluster_specifier.splits prod.splits)

lemma route_entries_put:
  "length cs = length (route_entries vr) \<Longrightarrow> route_entries (put_entries cs vr) = cs"
  by (auto simp: route_entries_def put_entries_def
      split: option.splits route_kind.splits cluster_specifier.splits)

lemma put_entries_put [simp]: "put_entries cs (put_entries ds vr) = put_entries cs vr"
  by (auto simp: put_entries_def split: option.splits route_kind.splits cluster_specifier.splits)

lemma put_entries_id [simp]: "put_entries (route_entries vr) vr = vr"
  by (auto simp: put_entries_def route_entries_def
      split: option.splits route_kind.splits cluster_specifier.splits)

lemma route_visitor:
  "visitor (mutate_route cfg) (\<lambda>x y. erase_route x = erase_route y)
     (\<lambda>vr. list_all (weight_settled cfg) (route_entries vr))"
proof
  fix x
  let ?cs = "fst (go_each (mutate_weight cfg) (route_entries x))"
  have m: "fst (mutate_route cfg x) = put_entries ?cs x"
      "snd (mutate_route cfg x) = snd (go_each (mutate_weight cfg) (route_entries x))"
    by (simp_all add: mutate_route_eq split: prod.splits)
  have e: "route_entries (put_entries ?cs x) = ?cs" by (simp add: route_entries_put)
  have "map erase_weight (route_entries x) = map erase_weight ?cs"
    using wv.each_rel by (simp add: list_all2_erase)
  then show "erase_route x = erase_route (fst (mutate_route cfg x))"
    by (simp add: m erase_route_def e)
  show "list_all (weight_settled cfg) (route_entries (fst (mutate_route cfg x)))"
    if "snd (mutate_route cfg x) = None"
    using that wv.each_post by (simp add: m e)
  show "mutate_route cfg x = (x, None)" if "list_all (weight_settled cfg) (route_entries x)"
    using wv.each_fix [OF that] by (simp add: mutate_route_eq)
qed simp

abbreviation route_settled :: "config_type \<Rightarrow> route \<Rightarrow> bool" where
  "route_settled cfg vr \<equiv> list_all (weight_settled cfg) (route_entries vr)"

abbreviation vhost_settled :: "config_type \<Rightarrow> virtual_host \<Rightarrow> bool" where
  "vhost_settled cfg v \<equiv> list_all (route_settled cfg) (vh_Routes v)"

interpretation rv: visitor "mutate_route cfg" "\<lambda>x y. erase_route x = erase_route y" "route_settled cfg"
  for cfg by (rule route_visitor)

interpretation vv: visitor "mutate_virtual_host cfg" "\<lambda>x y. erase_virtual_host x = erase_virtual_host y"
    "vhost_settled cfg" for cfg
  using visitor_field [OF visitor_erase_list [OF route_visitor [of cfg]],
      of vh_Routes "\<lambda>rs v. v\<lparr>vh_Routes := rs\<rparr>"]
  by (simp add: mutate_virtual_host_def [abs_def] erase_virtual_host_def [abs_def])

text \<open>On success every entry carries its annotated weight, the others keep theirs.\<close>

definition rc_settled :: "config_type \<Rightarrow> route_configuration \<Rightarrow> bool" where
  "rc_settled cfg r \<longleftrightarrow> list_all (vhost_settled cfg) (rc_VirtualHosts r)"

lemma rc_settled_iff: "rc_settled cfg r \<longleftrightarrow> (\<forall>c \<in> set (rc_entries r). weight_settled cfg c)"
  by (simp add: rc_settled_def rc_entries_def list_all_iff)

lemma mutate_rc_Some:
  "mutateWeightedRouteConfiguration cfg (Some r) = (r', e) \<Longrightarrow>
     \<exists>x. r' = Some x \<and> erase_rc x = erase_rc r \<and> (e = None \<longrightarrow> rc_settled cfg x)"
  using vv.each_rel [where xs = "rc_VirtualHosts r" and cfg = cfg]
    vv.each_post [where xs = "rc_VirtualHosts r" and cfg = cfg]
  by (auto simp: erase_rc_def rc_settled_def list_all2_erase split: prod.splits)

lemma mutate_rc_settled:
  "rc_settled cfg r \<Longrightarrow> mutateWeightedRouteConfiguration cfg (Some r) = (Some r, None)"
  by (simp add: rc_settled_def vv.each_fix)

lemma entries_map:
  assumes "\<forall>x \<in> set xs. snd (f x) = None" and "\<forall>x \<in> set xs. snd (f x) = None \<longrightarrow> E (fst (f x)) = map g (E x)"
  shows "concat (map E (map (fst \<circ> f) xs)) = map g (concat (map E xs))"
  using assms by (induction xs) auto

lemma route_weights:
  assumes "snd (mutate_route cfg vr) = None"
  shows "map (\<lambda>c. (cw_Name c, cw_value c)) (route_entries (fst (mutate_route cfg vr))) =
    map (new_weight cfg) (map (\<lambda>c. (cw_Name c, cw_value c)) (route_entries vr))"
proof -
  let ?g = "go_each (mutate_weight cfg) (route_entries vr)"
  have ok: "snd ?g = None" using assms by (simp add: mutate_route_eq split: prod.splits)
  then have all: "\<forall>c \<in> set (route_entries vr). snd (mutate_weight cfg c) = None"
    by (simp add: go_each_ok_iff)
  from go_each_ok [OF all] have g: "fst ?g = map (fst \<circ> mutate_weight cfg) (route_entries vr)" by simp
  have "route_entries (fst (mutate_route cfg vr)) = fst ?g"
    by (simp add: mutate_route_eq route_entries_put case_prod_beta)
  moreover have "(cw_Name (fst (mutate_weight cfg c)), cw_value (fst (mutate_weight cfg c))) =
      new_weight cfg (cw_Name c, cw_value c)" if "c \<in> set (route_entries vr)" for c
    using mutate_weight_cases [OF surjective_pairing [of "mutate_weight cfg c"]] all that by auto
  ultimately show ?thesis by (simp add: g)
qed

lemma vhost_weights:
  assumes "snd (mutate_virtual_host cfg v) = None"
  shows "concat (map (\<lambda>vr. map (\<lambda>c. (cw_Name c, cw_value c)) (route_entries vr))
      (vh_Routes (fst (mutate_virtual_host cfg v)))) =
    map (new_weight cfg) (concat (map (\<lambda>vr. map (\<lambda>c. (cw_Name c, cw_value c)) (route_entries vr)) (vh_Routes v)))"
proof -
  have "snd (go_each (mutate_route cfg) (vh_Routes v)) = None"
    using assms by (simp add: mutate_virtual_host_def split: prod.splits)
  then have all: "\<forall>x \<in> set (vh_Routes v). snd (mutate_route cfg x) = None"
    by (simp add: go_each_ok_iff)
  have "vh_Routes (fst (mutate_virtual_host cfg v)) = map (fst \<circ> mutate_route cfg) (vh_Routes v)"
    by (simp add: mutate_virtual_host_def go_each_ok [OF all])
  with entries_map [OF all, of "\<lambda>vr. map (\<lambda>c. (cw_Name c, cw_value c)) (route_entries vr)" "new_weight cfg"]
  show ?thesis by (simp add: route_weights)
qed

lemma rc_weights:
  assumes "mutateWeightedRouteConfiguration cfg (Some r) = (Some r', None)"
  shows "weights_of r' = map (new_weight cfg) (weights_of r)"
proof -
  let ?E = "\<lambda>v. concat (map (\<lambda>vr. map (\<lambda>c. (cw_Name c, cw_value c)) (route_entries vr)) (vh_Routes v))"
  have ok: "snd (go_each (mutate_virtual_host cfg) (rc_VirtualHosts r)) = None"
    and r': "rc_VirtualHosts r' = fst (go_each (mutate_virtual_host cfg) (rc_VirtualHosts r))"
    using assms by (auto split: prod.splits)
  from ok have all: "\<forall>v \<in> set (rc_VirtualHosts r). snd (mutate_virtual_host cfg v) = None"
    by (simp add: go_each_ok_iff)
  have w: "weights_of x = concat (map ?E (rc_VirtualHosts x))" for x
    by (simp add: weights_of_def rc_entries_def map_concat comp_def)
  show ?thesis
    using entries_map [OF all, of ?E "new_weight cfg"]
    unfolding w r' go_each_ok [OF all] by (simp add: vhost_weights)
qed

lemma weight_error_iff:
  "snd (mutate_weight cfg c) = None \<longleftrightarrow> (\<forall>e. GetClusterWeight cfg (cw_Name c) \<noteq> Inl e)"
  by (auto simp: mutate_weight_def split: sum.splits option.splits)

lemma rc_error_iff:
  "snd (mutateWeightedRouteConfiguration cfg (Some r)) = None \<longleftrightarrow>
     (\<forall>c \<in> set (rc_entries r). \<forall>e. GetClusterWeight cfg (cw_Name c) \<noteq> Inl e)"
proof -
  have route: "snd (mutate_route cfg vr) = None \<longleftrightarrow>
      (\<forall>c \<in> set (route_entries vr). \<forall>e. GetClusterWeight cfg (cw_Name c) \<noteq> Inl e)" for vr
    by (simp add: mutate_route_eq case_prod_beta go_each_ok_iff weight_error_iff)
  have vhost: "snd (mutate_virtual_host cfg v) = None \<longleftrightarrow>
      (\<forall>vr \<in> set (vh_Routes v). snd (mutate_route cfg vr) = None)" for v
    by (simp add: mutate_virtual_host_def case_prod_beta go_each_ok_iff)
  show ?thesis by (simp add: case_prod_beta go_each_ok_iff vhost route rc_entries_def)
qed

lemma GetClusterWeight_Some:
  "GetClusterWeight cfg name = Inr (Some w) \<longleftrightarrow>
     (\<exists>s. map_of (nilmap (ConfigMapAnnotations cfg)) (annotationRouteClusterWeight @ name) = Some s
        \<and> s \<noteq> [] \<and> all_digits s \<and> dec_value 0 s < 2 ^ 64 \<and> unat w = dec_value 0 s)"
  by (auto simp: GetClusterWeight_def ParseUint_correct split: option.splits)

section \<open>Filters and filter chains\<close>

definition filter_settled :: "codec \<Rightarrow> config_type \<Rightarrow> listener_filter \<Rightarrow> bool" where
  "filter_settled C cfg f \<longleftrightarrow>
     f_Name f \<noteq> HTTPConnectionManager C \<or>
     (\<exists>a m. f_TypedConfig f = Some a \<and> any_to_hcm C (Some a) = Inr m \<and> any_of_hcm C m = Inr a
        \<and> (\<forall>rc. hcm_RouteConfig m = Some rc \<longrightarrow> rc_settled cfg rc))"

definition filter_related :: "codec \<Rightarrow> listener_filter \<Rightarrow> listener_filter \<Rightarrow> bool" where
  "filter_related C f g \<longleftrightarrow>
     g = f \<or>
     f_Name g = f_Name f \<and>
     (\<exists>m n. any_to_hcm C (f_TypedConfig f) = Inr m \<and> any_to_hcm C (f_TypedConfig g) = Inr n
        \<and> hcm_rest n = hcm_rest m
        \<and> map_option erase_rc (hcm_RouteConfig n) = map_option erase_rc (hcm_RouteConfig m))"

lemma mutate_rc_option:
  assumes "mutateWeightedRouteConfiguration cfg ro = (ro', e)"
  shows "map_option erase_rc ro' = map_option erase_rc ro"
    and "e = None \<Longrightarrow> ro' = Some rc \<Longrightarrow> rc_settled cfg rc"
  using assms mutate_rc_Some [of cfg _ ro' e] by (cases ro; fastforce)+

lemma filter_visitor:
  assumes "any_laws C"
  shows "visitor (mutate_filter C cfg) (filter_related C) (filter_settled C cfg)"
proof
  fix f
  show "filter_related C f (fst (mutate_filter C cfg f))"
    by (auto simp: mutate_filter_def filter_related_def any_lawsD [OF assms] mutate_rc_option(1)
        split: sum.splits prod.splits option.splits)
  show "filter_settled C cfg (fst (mutate_filter C cfg f))" if "snd (mutate_filter C cfg f) = None"
    using that mutate_rc_option(2)
    by (fastforce simp: mutate_filter_def filter_settled_def any_lawsD [OF assms]
        split: sum.splits prod.splits option.splits if_splits)
  show "mutate_filter C cfg f = (f, None)" if "filter_settled C cfg f"
  proof (cases "f_Name f = HTTPConnectionManager C")
    case True
    with that obtain a m where f: "f_TypedConfig f = Some a" "any_to_hcm C (Some a) = Inr m"
      "any_of_hcm C m = Inr a" "\<forall>rc. hcm_RouteConfig m = Some rc \<longrightarrow> rc_settled cfg rc"
      by (auto simp: filter_settled_def)
    have "mutateWeightedRouteConfiguration cfg (hcm_RouteConfig m) = (hcm_RouteConfig m, None)"
      using f(4) mutate_rc_settled by (cases "hcm_RouteConfig m") auto
    with True f show ?thesis by (simp add: mutate_filter_def)
  qed (simp add: mutate_filter_def)
qed (simp add: filter_related_def)

definition client_cert_free :: "codec \<Rightarrow> filter_chain \<Rightarrow> bool" where
  "client_cert_free C fc \<longleftrightarrow>
     (\<forall>s. fc_TransportSocket fc = Some s \<longrightarrow> ts_Name s = TransportSocketTLS C \<longrightarrow>
        (\<exists>a t. ts_TypedConfig s = Some a \<and> any_to_tls C (Some a) = Inr t \<and> any_of_tls C t = Inr a
           \<and> RequireClientCertificate t \<noteq> Some True))"

definition socket_related :: "codec \<Rightarrow> filter_chain \<Rightarrow> filter_chain \<Rightarrow> bool" where
  "socket_related C x y \<longleftrightarrow>
     y = x \<or>
     fc_Filters y = fc_Filters x \<and> fc_rest y = fc_rest x \<and>
     (\<exists>s u t v. fc_TransportSocket x = Some s \<and> fc_TransportSocket y = Some u \<and> ts_Name u = ts_Name s
        \<and> any_to_tls C (ts_TypedConfig s) = Inr t \<and> any_to_tls C (ts_TypedConfig u) = Inr v
        \<and> dtc_rest v = dtc_rest t)"

lemma certificates_visitor:
  assumes "any_laws C"
  shows "visitor (filter_chain_certificates C) (socket_related C) (client_cert_free C)"
proof
  fix fc
  show "socket_related C fc (fst (filter_chain_certificates C fc))"
    by (auto simp: filter_chain_certificates_def socket_related_def any_lawsD [OF assms] Let_def
        split: option.splits sum.splits)
  show "client_cert_free C (fst (filter_chain_certificates C fc))"
    if "snd (filter_chain_certificates C fc) = None"
    using that
    by (auto simp: filter_chain_certificates_def client_cert_free_def any_lawsD [OF assms] Let_def
        split: option.splits sum.splits if_splits)
  show "filter_chain_certificates C fc = (fc, None)" if fr: "client_cert_free C fc"
  proof (cases "\<exists>s. fc_TransportSocket fc = Some s \<and> ts_Name s = TransportSocketTLS C")
    case True
    then obtain s where s: "fc_TransportSocket fc = Some s" "ts_Name s = TransportSocketTLS C" by blast
    with fr obtain a t where t: "ts_TypedConfig s = Some a" "any_to_tls C (Some a) = Inr t"
      "any_of_tls C t = Inr a" "RequireClientCertificate t \<noteq> Some True"
      by (auto simp: client_cert_free_def)
    then have "(if RequireClientCertificate t \<noteq> None then t\<lparr>RequireClientCertificate := Some False\<rparr> else t) = t"
      by (cases t) auto
    with s t show ?thesis by (simp add: filter_chain_certificates_def Let_def)
  qed (auto simp: filter_chain_certificates_def split: option.splits)
qed (simp add: socket_related_def)

section \<open>Listeners and the whole configuration\<close>

lemma chain_visitor:
  assumes "any_laws C"
  shows "visitor (mutate_filter_chain C cfg)
    (\<lambda>x y. list_all2 (filter_related C) (fc_Filters x) (fc_Filters y) \<and> y\<lparr>fc_Filters := fc_Filters x\<rparr> = x)
    (\<lambda>fc. list_all (filter_settled C cfg) (fc_Filters fc))"
  using visitor_frame [OF visitor_list [OF filter_visitor [OF assms, of cfg]],
      of fc_Filters "\<lambda>v x. x\<lparr>fc_Filters := v\<rparr>"]
  by (simp add: mutate_filter_chain_def [abs_def])

definition mutate_chains :: "codec \<Rightarrow> config_type \<Rightarrow> listener \<Rightarrow> listener \<times> goerr option" where
  "mutate_chains C cfg l =
     (case go_each (mutate_filter_chain C cfg) (l_FilterChains l) of (v, e) \<Rightarrow> (l\<lparr>l_FilterChains := v\<rparr>, e))"

definition cert_chains :: "codec \<Rightarrow> listener \<Rightarrow> listener \<times> goerr option" where
  "cert_chains C l =
     (case go_each (filter_chain_certificates C) (l_FilterChains l) of (v, e) \<Rightarrow> (l\<lparr>l_FilterChains := v\<rparr>, e))"

definition listener_settled :: "codec \<Rightarrow> config_type \<Rightarrow> listener \<Rightarrow> bool" where
  "listener_settled C cfg l \<longleftrightarrow>
     list_all (\<lambda>fc. list_all (filter_settled C cfg) (fc_Filters fc)) (l_FilterChains l)"

definition listener_cert_free :: "codec \<Rightarrow> listener \<Rightarrow> bool" where
  "listener_cert_free C l \<longleftrightarrow> list_all (client_cert_free C) (l_FilterChains l)"

lemma chains_visitor:
  assumes "any_laws C"
  shows "visitor (mutate_chains C cfg)
    (\<lambda>x y. list_all2 (\<lambda>x y. list_all2 (filter_related C) (fc_Filters x) (fc_Filters y) \<and> y\<lparr>fc_Filters := fc_Filters x\<rparr> = x)
        (l_FilterChains x) (l_FilterChains y) \<and> y\<lparr>l_FilterChains := l_FilterChains x\<rparr> = x)
    (listener_settled C cfg)"
  using visitor_frame [OF visitor_list [OF chain_visitor [OF assms, of cfg]],
      of l_FilterChains "\<lambda>v x. x\<lparr>l_FilterChains := v\<rparr>"]
  by (simp add: mutate_chains_def [abs_def] listener_settled_def [abs_def])

lemma cert_chains_visitor:
  assumes "any_laws C"
  shows "visitor (cert_chains C)
    (\<lambda>x y. list_all2 (socket_related C) (l_FilterChains x) (l_FilterChains y) \<and> y\<lparr>l_FilterChains := l_FilterChains x\<rparr> = x)
    (listener_cert_free C)"
  using visitor_frame [OF visitor_list [OF certificates_visitor [OF assms]],
      of l_FilterChains "\<lambda>v x. x\<lparr>l_FilterChains := v\<rparr>"]
  by (simp add: cert_chains_def [abs_def] listener_cert_free_def [abs_def])

lemma listeners_as_chains:
  "mutateWeightedRoutesInListeners C cfg (map RListener ls) =
     (map RListener (fst (go_each (mutate_chains C cfg) ls)), snd (go_each (mutate_chains C cfg) ls))"
  "filterCertificates C (map RListener ls) =
     (map RListener (fst (go_each (cert_chains C) ls)), snd (go_each (cert_chains C) ls))"
  unfolding mutateWeightedRoutesInListeners_def filterCertificates_def
  by (rule go_each_map, simp add: mutate_chains_def cert_chains_def case_prod_beta)+

lemma routes_as_configurations:
  "mutateWeightedRoutes cfg (map RRoute rs) = (rs', None) \<Longrightarrow>
     \<exists>xs. rs' = map RRoute xs \<and> list_all2 (\<lambda>r x. mutateWeightedRouteConfiguration cfg (Some r) = (Some x, None)) rs xs"
proof (induction rs arbitrary: rs')
  case Nil
  then show ?case by (simp add: mutateWeightedRoutes_def)
next
  case (Cons r rs)
  obtain ro e where m: "mutateWeightedRouteConfiguration cfg (Some r) = (ro, e)" by fastforce
  then obtain x where x: "ro = Some x" using mutate_rc_Some by blast
  with Cons.prems m obtain ys where "e = None" "rs' = RRoute x # ys" "mutateWeightedRoutes cfg (map RRoute rs) = (ys, None)"
    by (auto simp: mutateWeightedRoutes_def split: prod.splits option.splits)
  moreover from this(3) obtain xs where "ys = map RRoute xs"
    "list_all2 (\<lambda>r x. mutateWeightedRouteConfiguration cfg (Some r) = (Some x, None)) rs xs"
    using Cons.IH by blast
  ultimately show ?case using m x by (intro exI [of _ "x # xs"]) simp
qed

lemma settled_after_certs:
  assumes "any_laws C" and "listener_settled C cfg l"
  shows "listener_settled C cfg (fst (cert_chains C l))"
proof -
  have "list_all2 (socket_related C) (l_FilterChains l) (l_FilterChains (fst (cert_chains C l)))"
    using visitor.visit_rel [OF cert_chains_visitor [OF assms(1)]] by blast
  then have "list_all2 (\<lambda>x y. fc_Filters x = fc_Filters y) (l_FilterChains l) (l_FilterChains (fst (cert_chains C l)))"
    by (rule list_all2_mono) (auto simp: socket_related_def)
  then have "map fc_Filters (l_FilterChains l) = map fc_Filters (l_FilterChains (fst (cert_chains C l)))"
    by (simp add: list_all2_erase)
  moreover have "listener_settled C cfg x \<longleftrightarrow> list_all (list_all (filter_settled C cfg)) (map fc_Filters (l_FilterChains x))" for x
    by (simp add: listener_settled_def list.pred_map comp_def)
  ultimately show ?thesis using assms(2) by metis
qed

lemma parse_sections_Inr:
  assumes "parse_sections C c = Inr c1"
  shows "\<exists>rs ls cs ss. c1 = c\<lparr>r_clusters := cs, r_routes := map RRoute rs, r_listeners := map RListener ls, r_secrets := ss\<rparr>
     \<and> YamlToResources C (ct_Routes c) ORoute = Inr (map RRoute rs)
     \<and> YamlToResources C (ct_Listeners c) OListener = Inr (map RListener ls)
     \<and> YamlToResources C (ct_Clusters c) OCluster = Inr cs
     \<and> YamlToResources C (ct_Secrets c) OSecret = Inr ss"
proof -
  from assms obtain cs rr lr ss where
    *: "YamlToResources C (ct_Clusters c) OCluster = Inr cs" "YamlToResources C (ct_Routes c) ORoute = Inr rr"
      "YamlToResources C (ct_Listeners c) OListener = Inr lr" "YamlToResources C (ct_Secrets c) OSecret = Inr ss"
      "c1 = c\<lparr>r_clusters := cs, r_routes := rr, r_listeners := lr, r_secrets := ss\<rparr>"
    by (auto simp: parse_sections_def split: sum.splits)
  with class_projections(2) [OF YamlToResources_class [OF *(3)] refl]
    class_projections(3) [OF YamlToResources_class [OF *(2)] refl]
  show ?thesis by auto
qed

lemma GetClusterWeight_cong:
  "ConfigMapAnnotations c = ConfigMapAnnotations d \<Longrightarrow> GetClusterWeight c = GetClusterWeight d"
  by (simp add: GetClusterWeight_def fun_eq_iff)

lemma settled_cong:
  assumes "ConfigMapAnnotations c = ConfigMapAnnotations d"
  shows "rc_settled c = rc_settled d" and "listener_settled C c = listener_settled C d"
proof -
  show rc: "rc_settled c = rc_settled d"
    by (simp add: rc_settled_def [abs_def] weight_settled_def [abs_def] GetClusterWeight_cong [OF assms])
  show "listener_settled C c = listener_settled C d"
    by (simp add: listener_settled_def [abs_def] filter_settled_def [abs_def] rc)
qed

lemma update_weights_ok:
  assumes C: "any_laws C" and u: "update_weights C c1 = (c2, None)"
    and c1: "r_routes c1 = map RRoute rs" "r_listeners c1 = map RListener ls"
  shows "\<exists>rs' ls'. c2 = c1\<lparr>r_routes := map RRoute rs', r_listeners := map RListener ls'\<rparr> \<and>
     map erase_rc rs' = map erase_rc rs \<and>
     (HasClusterWeights c1 \<longrightarrow> list_all (rc_settled c1) rs' \<and> list_all (listener_settled C c1) ls')"
proof (cases "HasClusterWeights c1")
  case True
  let ?g = "go_each (mutate_chains C c1) ls"
  from u True c1 obtain rs1 where g: "snd ?g = None" and r: "mutateWeightedRoutes c1 (map RRoute rs) = (rs1, None)"
    and c2: "c2 = c1\<lparr>r_listeners := map RListener (fst ?g), r_routes := rs1\<rparr>"
    by (auto simp: update_weights_def listeners_as_chains split: prod.splits option.splits)
  from routes_as_configurations [OF r] obtain xs where rs1: "rs1 = map RRoute xs"
    and xs: "list_all2 (\<lambda>r x. mutateWeightedRouteConfiguration c1 (Some r) = (Some x, None)) rs xs" by blast
  from xs have "list_all2 (\<lambda>r x. erase_rc r = erase_rc x \<and> rc_settled c1 x) rs xs"
    by (rule list_all2_mono) (use mutate_rc_Some in fastforce)
  then have "map erase_rc rs = map erase_rc xs" "list_all (rc_settled c1) xs"
    by (auto simp: list_all2_conv_all_nth list_all_length list_eq_iff_nth_eq)
  moreover have "list_all (listener_settled C c1) (fst ?g)"
    using visitor.each_post [OF chains_visitor [OF C] g] .
  ultimately show ?thesis using c2 rs1 by (intro exI [of _ xs] exI [of _ "fst ?g"]) simp
next
  case False
  with u have "c2 = c1" by (simp add: update_weights_def)
  with False c1 show ?thesis by (intro exI [of _ rs] exI [of _ ls]) (cases c1, simp)
qed

section \<open>Properties\<close>

text \<open>
  Property (C22). When the rewriting of a route configuration succeeds, every weighted cluster
  entry whose name has a weight annotation carries exactly the annotated value, every other entry
  keeps its weight, the entries keep their order, nothing else of the message changes, and a second
  rewriting changes nothing.
\<close>

theorem route_weights_rewritten:
  assumes "mutateWeightedRouteConfiguration cfg (Some r) = (Some r', None)"
  shows "weights_of r' = map (new_weight cfg) (weights_of r) \<and> erase_rc r' = erase_rc r
    \<and> mutateWeightedRouteConfiguration cfg (Some r') = (Some r', None)"
  using rc_weights [OF assms] mutate_rc_Some [OF assms] mutate_rc_settled by auto

definition example_entry :: "string \<Rightarrow> u32 option \<Rightarrow> cluster_weight_entry" where
  "example_entry n w = \<lparr>cw_Name = n, cw_Weight = w, cw_rest = ''''\<rparr>"

definition example_rc :: "cluster_weight_entry list \<Rightarrow> route_configuration" where
  "example_rc cs =
     \<lparr>rc_Name = ''rc'',
      rc_VirtualHosts =
        [\<lparr>vh_Routes =
            [\<lparr>rt_Action = Some (RouteAction
                \<lparr>ClusterSpecifier = Some (WeightedClusters \<lparr>wc_Clusters = cs, wc_rest = ''''\<rparr>),
                 ra_rest = ''timeout''\<rparr>),
              rt_rest = ''match''\<rparr>,
             \<lparr>rt_Action = Some (OtherAction ''redirect''), rt_rest = ''''\<rparr>],
          vh_rest = ''domains''\<rparr>],
      rc_rest = ''''\<rparr>"

definition example_weights :: config_type where
  "example_weights = empty_config\<lparr>ConfigMapAnnotations :=
     Some [(annotationRouteClusterWeight @ ''a'', ''70''), (annotationRouteClusterWeight @ ''b'', ''30'')]\<rparr>"

lemma example_mutation:
  "mutateWeightedRouteConfiguration example_weights
     (Some (example_rc [example_entry ''a'' (Some 1), example_entry ''b'' None, example_entry ''c'' (Some 5)])) =
   (Some (example_rc [example_entry ''a'' (Some 70), example_entry ''b'' (Some 30), example_entry ''c'' (Some 5)]), None)"
  by code_simp

theorem route_weights_rewritten_witness:
  "weights_of (example_rc [example_entry ''a'' (Some 70), example_entry ''b'' (Some 30), example_entry ''c'' (Some 5)]) =
     map (new_weight example_weights)
       (weights_of (example_rc [example_entry ''a'' (Some 1), example_entry ''b'' None, example_entry ''c'' (Some 5)]))"
  using route_weights_rewritten [OF example_mutation] by blast

text \<open>
  Property (C36). The weight of an entry is rewritten exactly when its name is annotated with a non-empty string
  of decimal digits below $2^{64}$, and what is written is that number modulo $2^{32}$, because the value is narrowed
  to 32 bits without a range check; any other annotation is an error that leaves the entry as it
  is, and an entry that is not annotated is not touched.
\<close>

theorem annotated_weight_value:
  "case map_of (nilmap (ConfigMapAnnotations cfg)) (annotationRouteClusterWeight @ cw_Name c) of
     None \<Rightarrow> mutate_weight cfg c = (c, None)
   | Some s \<Rightarrow>
       if s \<noteq> [] \<and> all_digits s \<and> dec_value 0 s < 2 ^ 64
       then snd (mutate_weight cfg c) = None \<and> erase_weight (fst (mutate_weight cfg c)) = erase_weight c \<and>
         unat (cw_value (fst (mutate_weight cfg c))) = dec_value 0 s mod 2 ^ 32
       else fst (mutate_weight cfg c) = c \<and> snd (mutate_weight cfg c) \<noteq> None"
proof (cases "map_of (nilmap (ConfigMapAnnotations cfg)) (annotationRouteClusterWeight @ cw_Name c)")
  case None
  then show ?thesis by (simp add: mutate_weight_def GetClusterWeight_def)
next
  case (Some s)
  have u: "unat (ucast w :: u32) = unat w mod 2 ^ 32" for w :: u64
    by (simp add: unsigned_ucast_eq take_bit_eq_mod)
  show ?thesis
  proof (cases "s \<noteq> [] \<and> all_digits s \<and> dec_value 0 s < 2 ^ 64")
    case True
    let ?w = "of_nat (dec_value 0 s) :: u64"
    have w: "unat ?w = dec_value 0 s" using True by (simp add: unat_of_nat)
    with Some True have g: "GetClusterWeight cfg (cw_Name c) = Inr (Some ?w)" by (auto simp: GetClusterWeight_Some)
    have "cw_value (fst (mutate_weight cfg c)) = ucast ?w" "snd (mutate_weight cfg c) = None"
      "erase_weight (fst (mutate_weight cfg c)) = erase_weight c"
      by (auto simp: mutate_weight_def g cw_value_def erase_weight_def)
    then show ?thesis using Some True w u [of ?w] by simp
  next
    case False
    have "GetClusterWeight cfg (cw_Name c) \<noteq> Inr (Some x)" for x using Some False by (auto simp: GetClusterWeight_Some)
    moreover have "GetClusterWeight cfg (cw_Name c) \<noteq> Inr None" using Some by (auto simp: GetClusterWeight_def wrap_def split: sum.split)
    ultimately obtain err where "GetClusterWeight cfg (cw_Name c) = Inl err"
      by (metis option.exhaust sum.exhaust)
    then show ?thesis using Some False by (auto simp: mutate_weight_def)
  qed
qed

lemma HasClusterWeights_cong:
  "ConfigMapAnnotations c = ConfigMapAnnotations d \<Longrightarrow> HasClusterWeights c = HasClusterWeights d"
  by (simp add: HasClusterWeights_def)

lemma drop_certs_ok:
  assumes C: "any_laws C" and "filterCertificates C (map RListener ls) = (lr, None)"
  shows "\<exists>ls'. lr = map RListener ls' \<and> list_all (listener_cert_free C) ls' \<and>
    (\<forall>cfg. list_all (listener_settled C cfg) ls \<longrightarrow> list_all (listener_settled C cfg) ls')"
proof -
  let ?g = "go_each (cert_chains C) ls"
  from assms(2) have lr: "lr = map RListener (fst ?g)" and ok: "snd ?g = None"
    by (auto simp: listeners_as_chains)
  then have "fst ?g = map (fst \<circ> cert_chains C) ls" using go_each_ok [of ls "cert_chains C"] by (simp add: go_each_ok_iff)
  then have "list_all (listener_settled C cfg) ls \<longrightarrow> list_all (listener_settled C cfg) (fst ?g)" for cfg
    using settled_after_certs [OF C] by (auto simp: list_all_iff)
  moreover have "list_all (listener_cert_free C) (fst ?g)"
    using visitor.each_post [OF cert_chains_visitor [OF C] ok] .
  ultimately show ?thesis using lr by blast
qed

text \<open>
  Property (C21). After a successful \<^verbatim>\<open>SaveResources\<close> the stored routes and listeners have the classes
  later type assertions expect; with weight annotations every route configuration, stand-alone or
  inside an HTTP connection manager, carries the annotated weights; with \<^verbatim>\<open>-ssl.no-validation\<close> no TLS
  filter chain still requires a client certificate; and no other field of the configuration changes.
\<close>

theorem save_resources_settled:
  assumes C: "any_laws C" and "SaveResources C app c = (c', None)"
  shows "\<exists>rs ls. r_routes c' = map RRoute rs \<and> r_listeners c' = map RListener ls
    \<and> (HasClusterWeights c \<longrightarrow> list_all (rc_settled c) rs \<and> list_all (listener_settled C c) ls)
    \<and> (SSLDoNotUseValidation app \<longrightarrow> list_all (listener_cert_free C) ls)
    \<and> c'\<lparr>r_clusters := r_clusters c, r_routes := r_routes c, r_listeners := r_listeners c, r_secrets := r_secrets c\<rparr> = c"
proof -
  from assms(2) obtain c1 c2 where p: "parse_sections C c = Inr c1" and u: "update_weights C c1 = (c2, None)"
    and f: "if SSLDoNotUseValidation app
      then \<exists>lr. filterCertificates C (r_listeners c2) = (lr, None) \<and> c' = c2\<lparr>r_listeners := lr\<rparr> else c' = c2"
    by (auto simp: SaveResources_def split: sum.splits prod.splits option.splits if_splits)
  from parse_sections_Inr [OF p] obtain rs ls cs ss where c1:
    "c1 = c\<lparr>r_clusters := cs, r_routes := map RRoute rs, r_listeners := map RListener ls, r_secrets := ss\<rparr>"
    by blast
  then have ann: "ConfigMapAnnotations c1 = ConfigMapAnnotations c" by simp
  have "r_routes c1 = map RRoute rs" "r_listeners c1 = map RListener ls" by (simp_all add: c1)
  from update_weights_ok [OF C u this] obtain rs' ls' where
    c2: "c2 = c1\<lparr>r_routes := map RRoute rs', r_listeners := map RListener ls'\<rparr>"
    and set: "HasClusterWeights c \<longrightarrow> list_all (rc_settled c) rs' \<and> list_all (listener_settled C c) ls'"
    by (auto simp: settled_cong [OF ann] HasClusterWeights_cong [OF ann])
  show ?thesis
  proof (cases "SSLDoNotUseValidation app")
    case True
    with f c2 obtain lr where lr: "filterCertificates C (map RListener ls') = (lr, None)"
      and c': "c' = c2\<lparr>r_listeners := lr\<rparr>" by auto
    from drop_certs_ok [OF C lr] obtain ls'' where "lr = map RListener ls''" "list_all (listener_cert_free C) ls''"
      "\<forall>cfg. list_all (listener_settled C cfg) ls' \<longrightarrow> list_all (listener_settled C cfg) ls''" by blast
    with True set c' c2 c1 show ?thesis by (intro exI [of _ rs'] exI [of _ ls'']) auto
  next
    case False
    with f set c2 c1 show ?thesis by (intro exI [of _ rs'] exI [of _ ls']) auto
  qed
qed

text \<open>
  A concrete codec for evaluated examples: a section is a list of scalars, each the name of the
  message it stands for; a listener has one TLS filter chain that requires a client certificate.
\<close>

fun demo_scalar :: "yaml \<Rightarrow> string" where
  "demo_scalar (YScalar s) = s"
| "demo_scalar _ = ''''"

fun demo_join :: "string list \<Rightarrow> string" where
  "demo_join [] = ''''"
| "demo_join [x] = x"
| "demo_join (x # y # zs) = x @ '','' @ demo_join (y # zs)"

definition demo_tls_any :: "downstream_tls_context \<Rightarrow> any" where
  "demo_tls_any t =
     \<lparr>TypeUrl = ''tls'',
      AnyValue = (case RequireClientCertificate t of
         None \<Rightarrow> ''n'' | Some b \<Rightarrow> if b then ''t'' else ''f'') @ dtc_rest t\<rparr>"

definition demo_any_tls :: "any \<Rightarrow> goerr + downstream_tls_context" where
  "demo_any_tls a =
     (case AnyValue a of
        [] \<Rightarrow> Inl (Err ''empty'')
      | c # r \<Rightarrow> Inr \<lparr>RequireClientCertificate =
            (if c = CHR ''t'' then Some True else if c = CHR ''f'' then Some False else None), dtc_rest = r\<rparr>)"

definition demo_listener :: "string \<Rightarrow> listener" where
  "demo_listener n =
     \<lparr>l_Name = n,
      l_FilterChains =
        [\<lparr>fc_Filters = [\<lparr>f_Name = ''envoy.filters.network.tcp_proxy'', f_TypedConfig = None\<rparr>],
          fc_TransportSocket = Some \<lparr>ts_Name = ''envoy.transport_sockets.tls'',
             ts_TypedConfig = Some \<lparr>TypeUrl = ''tls'', AnyValue = ''t''\<rparr>\<rparr>,
          fc_rest = ''''\<rparr>],
      l_rest = ''''\<rparr>"

definition demo_codec :: codec where
  "demo_codec =
     \<lparr>HTTPConnectionManager = ''envoy.filters.network.http_connection_manager'',
      TransportSocketTLS = ''envoy.transport_sockets.tls'',
      ConvertYAMLtoJSON = (\<lambda>y. y),
      json_Marshal = (\<lambda>y. case y of YSeq ys \<Rightarrow> Inr (demo_join (map demo_scalar ys)) | _ \<Rightarrow> Inr (demo_scalar y)),
      json_Unmarshal = (\<lambda>s. Inr (map YScalar (Split (CHR '','') s))),
      GetJSONfromYAML = (\<lambda>y. case y of YScalar s \<Rightarrow> Inr s | _ \<Rightarrow> Inl (Err ''not a scalar'')),
      protojson_Cluster = (\<lambda>s. Inr \<lparr>c_Name = s, c_rest = ''''\<rparr>),
      protojson_Route = (\<lambda>s. Inr (example_rc [example_entry s (Some 1)])),
      protojson_Endpoint = (\<lambda>s. Inr \<lparr>cla_ClusterName = s, cla_Endpoints = [], cla_rest = ''''\<rparr>),
      protojson_Listener = (\<lambda>s. if s = ''bad'' then Inl (Err ''bad listener'') else Inr (demo_listener s)),
      protojson_Secret = (\<lambda>s. Inr \<lparr>s_Name = s, s_Type = OtherSecret ''''\<rparr>),
      protojson_Validation = (\<lambda>s. Inr \<lparr>TrustedCa = None, cvc_rest = s\<rparr>),
      any_to_hcm = (\<lambda>a. case a of None \<Rightarrow> Inl (Err ''nil'')
         | Some x \<Rightarrow> Inr \<lparr>hcm_RouteConfig = None, hcm_rest = AnyValue x\<rparr>),
      any_of_hcm = (\<lambda>m. if hcm_RouteConfig m = None then Inr \<lparr>TypeUrl = ''hcm'', AnyValue = hcm_rest m\<rparr>
         else Inl (Err ''unsupported'')),
      any_to_tls = (\<lambda>a. case a of None \<Rightarrow> Inl (Err ''nil'') | Some x \<Rightarrow> demo_any_tls x),
      any_of_tls = (\<lambda>t. Inr (demo_tls_any t))\<rparr>"

lemma demo_any_tls_any: "demo_any_tls (demo_tls_any t) = Inr t"
  by (cases t) (auto simp: demo_any_tls_def demo_tls_any_def split: option.splits)

lemma demo_codec_laws: "any_laws demo_codec"
  by (auto simp: any_laws_def demo_codec_def demo_any_tls_any)

definition demo_config :: config_type where
  "demo_config = example_weights\<lparr>ct_ID := ''node'', ct_Routes := [YScalar ''a''], ct_Listeners := [YScalar ''l'']\<rparr>"

abbreviation demo_app :: app_config where
  "demo_app \<equiv> (default_config (\<lambda>_. '''') ''dev'')\<lparr>SSLDoNotUseValidation := True\<rparr>"

lemma demo_save: "snd (SaveResources demo_codec demo_app demo_config) = None"
  by code_simp

theorem save_resources_settled_witness:
  "any_laws demo_codec \<and> HasClusterWeights demo_config \<and>
   (\<exists>c' rs ls. SaveResources demo_codec demo_app demo_config = (c', None)
      \<and> r_routes c' = map RRoute rs \<and> list_all (rc_settled demo_config) rs
      \<and> r_listeners c' = map RListener ls \<and> list_all (listener_cert_free demo_codec) ls)"
proof -
  have w: "HasClusterWeights demo_config" by code_simp
  obtain c' where s: "SaveResources demo_codec demo_app demo_config = (c', None)"
    using demo_save by (metis prod.exhaust_sel)
  from save_resources_settled [OF demo_codec_laws s] w demo_codec_laws s show ?thesis by auto
qed

end
