(* ===== verification/Endpoints.thy ===== *)
theory Endpoints
  imports Api ConfigType
begin

text \<open>
  \<^verbatim>\<open>pkg/configstore/configStore.go\<close>, the part that computes: how pods and services of the
  cluster become Envoy endpoints, and the change key of an endpoint set. Nothing here changes
  state; \<open>ConfigStore\<close> holds the operations that do.
\<close>

type_synonym lb_map = "locality_lb_endpoints list gomap"

definition defaultZone :: string where "defaultZone = ''unknown''"
definition envoyMetaPodName :: string where "envoyMetaPodName = ''k8s.pod.name''"
definition envoyMetaPodLabels :: string where "envoyMetaPodLabels = ''k8s.pod.labels.''"
definition envoyMetaEndpointIP :: string where "envoyMetaEndpointIP = ''k8s.endpoint.ip''"
definition envoyMetaNodeName :: string where "envoyMetaNodeName = ''k8s.node.name''"
definition podLabelIgnore :: string where "podLabelIgnore = ''pod-template-hash''"

section \<open>Fixed endpoints of a configuration\<close>

fun collect_assignments :: "resource list \<Rightarrow> lb_map \<Rightarrow> lb_map outcome" where
  "collect_assignments [] m = Ret m"
| "collect_assignments (REndpoint fixed # eps) m =
     collect_assignments eps (mapappend (cla_ClusterName fixed) (cla_Endpoints fixed) m)"
| "collect_assignments (ep # eps) m = Exit errAssertion"

definition getConfigEndpoints :: "codec \<Rightarrow> config_type \<Rightarrow> (goerr + lb_map) outcome" where
  "getConfigEndpoints C config =
     (case YamlToResources C (ct_Endpoints config) OEndpoint of
        Inl err \<Rightarrow> Ret (Inl err)
      | Inr endpoints \<Rightarrow> bind_outcome (collect_assignments endpoints []) (\<lambda>m. Ret (Inr m)))"

section \<open>One endpoint\<close>

definition getEndpointLocality :: "listers \<Rightarrow> app_config \<Rightarrow> string \<Rightarrow> locality" where
  "getEndpointLocality L app node =
     (case GetNode L node of
        Inl err \<Rightarrow> \<lparr>Zone = defaultZone, locality_rest = ''''\<rparr>
      | Inr nodeInfo \<Rightarrow>
          (let zone = mapget (node_Labels nodeInfo) (NodeZoneLabel app)
           in \<lparr>Zone = (if length zone = 0 then defaultZone else zone), locality_rest = ''''\<rparr>))"

record envoy_endpoint =
  IsCanary :: bool
  ee_Node :: string
  ee_Address :: string
  ee_Item :: kubernetes_type
  ee_Metadata :: "string gomap"

definition SetNode :: "endpoint_address \<Rightarrow> envoy_endpoint \<Rightarrow> envoy_endpoint" where
  "SetNode a e = (case ea_NodeName a of None \<Rightarrow> e | Some n \<Rightarrow> e\<lparr>ee_Node := n\<rparr>)"

text \<open>The \<^verbatim>\<open>envoy.lb\<close> metadata: the two fixed entries, then every entry of the endpoint's own.\<close>

definition metadata_fields :: "envoy_endpoint \<Rightarrow> pb_value gomap" where
  "metadata_fields e =
     fold (\<lambda>(k, v) m. AList.update k (StringValue v) m) (ee_Metadata e)
       [(''canary'', BoolValue (IsCanary e)),
        (''stage'', StringValue (if IsCanary e then ''canary'' else ''main''))]"

definition getEnvoyLocalityLbEndpoint ::
  "listers \<Rightarrow> app_config \<Rightarrow> envoy_endpoint \<Rightarrow> locality_lb_endpoints" where
  "getEnvoyLocalityLbEndpoint L app e =
     (let priority = (if k_Priority (ee_Item e) > 0 then k_Priority (ee_Item e) else 0);
          healthCheckPort = (if k_HealthCheckPort (ee_Item e) > 0 then k_HealthCheckPort (ee_Item e) else 0)
      in \<lparr>lle_Locality = Some (getEndpointLocality L app (ee_Node e)),
          lle_Priority = priority,
          LbEndpoints =
            [\<lparr>lbe_Metadata = Some [(''envoy.lb'', metadata_fields e)],
              HostIdentifier = Some (HostEndpoint
                \<lparr>HealthCheckPort = Some healthCheckPort,
                 ep_Address = Some (SocketAddress
                   \<lparr>sa_Address = ee_Address e, sa_PortValue = k_Port (ee_Item e), sa_rest = ''''\<rparr>),
                 ep_rest = ''''\<rparr>),
              lbe_rest = ''''\<rparr>],
          lle_rest = ''''\<rparr>)"

definition isPodReady :: "pod \<Rightarrow> bool" where
  "isPodReady p \<longleftrightarrow>
     pod_Phase p = ''Running'' \<and>
     list_ex (\<lambda>c. pc_Type c = ''Ready'' \<and> pc_Status c = ''True'') (pod_Conditions p)"

definition label_metadata :: "string gomap option \<Rightarrow> string gomap \<Rightarrow> string gomap" where
  "label_metadata labels m =
     fold (\<lambda>(k, v) m. if k \<noteq> podLabelIgnore then AList.update (envoyMetaPodLabels @ k) v m else m)
       (nilmap labels) m"

definition getEnvoyMetaFromPod :: "pod \<Rightarrow> string gomap" where
  "getEnvoyMetaFromPod p =
     (let labels = label_metadata (pod_Labels p) [];
          labels = AList.update envoyMetaPodName (pod_Name p) labels;
          labels = AList.update envoyMetaEndpointIP (pod_PodIP p) labels
      in AList.update envoyMetaNodeName (pod_NodeName p) labels)"

definition getEnvoyMetaFromEndpoint :: "listers \<Rightarrow> endpoint_address \<Rightarrow> string gomap" where
  "getEnvoyMetaFromEndpoint L a =
     (let labels =
            (case ea_TargetRef a of
               Some r \<Rightarrow>
                 if ref_Kind r = ''Pod'' then
                   AList.update envoyMetaPodName (ref_Name r)
                     (case GetPod L (ref_Namespace r) (ref_Name r) of
                        Inl err \<Rightarrow> []
                      | Inr p \<Rightarrow> label_metadata (pod_Labels p) [])
                 else []
             | None \<Rightarrow> []);
          labels =
            (case ea_NodeName a of None \<Rightarrow> labels | Some n \<Rightarrow> AList.update envoyMetaNodeName n labels)
      in AList.update envoyMetaEndpointIP (ea_IP a) labels)"

section \<open>The endpoints of a configuration\<close>

definition pod_endpoint :: "listers \<Rightarrow> app_config \<Rightarrow> kubernetes_type \<Rightarrow> pod \<Rightarrow> locality_lb_endpoints" where
  "pod_endpoint L app kubernetes p =
     getEnvoyLocalityLbEndpoint L app
       \<lparr>IsCanary = False, ee_Node = pod_NodeName p, ee_Address = pod_PodIP p, ee_Item = kubernetes,
        ee_Metadata = getEnvoyMetaFromPod p\<rparr>"

definition add_pod :: "listers \<Rightarrow> app_config \<Rightarrow> kubernetes_type \<Rightarrow> pod \<Rightarrow> lb_map \<Rightarrow> lb_map" where
  "add_pod L app kubernetes p m =
     (if length (pod_PodIP p) = 0 \<or> length (pod_NodeName p) = 0 then m
      else if pod_DeletionTimestamp p \<noteq> None then m
      else if \<not> isPodReady p then m
      else mapappend (k_ClusterName kubernetes) [pod_endpoint L app kubernetes p] m)"

fun from_selectors :: "listers \<Rightarrow> app_config \<Rightarrow> kubernetes_type list \<Rightarrow> lb_map \<Rightarrow> goerr + lb_map" where
  "from_selectors L app [] m = Inr m"
| "from_selectors L app (kubernetes # ks) m =
     (case k_Selector kubernetes of
        None \<Rightarrow> from_selectors L app ks m
      | Some sel \<Rightarrow>
          (case wrap ''error getting pods'' (ListPods L sel) of
             Inl e \<Rightarrow> Inl e
           | Inr pods \<Rightarrow> from_selectors L app ks (fold (add_pod L app kubernetes) pods m)))"

definition address_endpoint ::
  "listers \<Rightarrow> app_config \<Rightarrow> bool \<Rightarrow> kubernetes_type \<Rightarrow> endpoint_address \<Rightarrow> locality_lb_endpoints" where
  "address_endpoint L app canary kubernetes a =
     getEnvoyLocalityLbEndpoint L app
       (SetNode a
         \<lparr>IsCanary = canary, ee_Node = '''', ee_Address = ea_IP a, ee_Item = kubernetes,
          ee_Metadata = getEnvoyMetaFromEndpoint L a\<rparr>)"

text \<open>The two nested loops over the subsets of an \<^verbatim>\<open>Endpoints\<close> object and their addresses.\<close>

definition add_subsets ::
  "listers \<Rightarrow> app_config \<Rightarrow> bool \<Rightarrow> kubernetes_type \<Rightarrow> endpoints \<Rightarrow> lb_map \<Rightarrow> lb_map" where
  "add_subsets L app canary kubernetes eps m =
     fold (fold (\<lambda>a. mapappend (k_ClusterName kubernetes) [address_endpoint L app canary kubernetes a]))
       (eps_Subsets eps) m"

fun from_services :: "listers \<Rightarrow> app_config \<Rightarrow> kubernetes_type list \<Rightarrow> lb_map \<Rightarrow> goerr + lb_map" where
  "from_services L app [] m = Inr m"
| "from_services L app (kubernetes # ks) m =
     (if length (k_Service kubernetes) = 0 then from_services L app ks m
      else case wrap ''error getting endpoints'' (GetEndpoint L (k_Service kubernetes)) of
             Inl e \<Rightarrow> Inl e
           | Inr None \<Rightarrow> from_services L app ks m
           | Inr (Some eps) \<Rightarrow>
               (let m = add_subsets L app False kubernetes eps m
                in case wrap ''error getting endpoints''
                          (GetEndpoint L (k_Service kubernetes @ CanarySuffix)) of
                     Inl e \<Rightarrow> Inl e
                   | Inr None \<Rightarrow> from_services L app ks m
                   | Inr (Some epsCanary) \<Rightarrow>
                       from_services L app ks (add_subsets L app True kubernetes epsCanary m)))"

definition getLocalityLbEndpoints :: "listers \<Rightarrow> app_config \<Rightarrow> config_type \<Rightarrow> goerr + lb_map" where
  "getLocalityLbEndpoints L app config =
     (case from_selectors L app (Kubernetes config) [] of
        Inl e \<Rightarrow> Inl e
      | Inr m \<Rightarrow> from_services L app (Kubernetes config) m)"

section \<open>What is published\<close>

text \<open>
  The body of \<^verbatim>\<open>saveLastEndpoints\<close> before the lock is taken. \<open>merge_endpoints\<close> copies the fixed
  endpoints and appends the computed ones; \<open>order\<close> is the iteration order of the merged map.
\<close>

definition merge_endpoints :: "lb_map option \<Rightarrow> lb_map \<Rightarrow> lb_map" where
  "merge_endpoints configEndpoints eps = fold (\<lambda>(k, v) m. mapappend k v m) eps (nilmap configEndpoints)"

definition endpoint_key :: "string \<Rightarrow> locality_lb_endpoints \<Rightarrow> lb_endpoint \<Rightarrow> string" where
  "endpoint_key clusterName v1 v2 =
     clusterName @ ''|'' @ GetZone v1 @ ''|'' @ dec32 (lle_Priority v1) @ ''|'' @ GetAddress v2
       @ ''|'' @ dec32 (GetPortValue v2) @ ''|'' @ dec32 (GetHealthCheckPort v2)"

definition cluster_members :: "lb_map \<Rightarrow> (string \<times> locality_lb_endpoints \<times> lb_endpoint) list" where
  "cluster_members m =
     concat (map (\<lambda>(clusterName, ep). concat (map (\<lambda>v1. map (\<lambda>v2. (clusterName, v1, v2)) (LbEndpoints v1)) ep)) m)"

definition publishEpArray :: "lb_map \<Rightarrow> string list" where
  "publishEpArray m = map (\<lambda>(c, v1, v2). endpoint_key c v1 v2) (cluster_members m)"

definition isInvalidIP :: "lb_map \<Rightarrow> bool" where
  "isInvalidIP m = list_ex (\<lambda>(c, v1, v2). \<not> ParseIP (GetAddress v2)) (cluster_members m)"

definition publishEp :: "lb_map \<Rightarrow> resource list" where
  "publishEp m =
     map (\<lambda>(clusterName, ep). REndpoint \<lparr>cla_ClusterName = clusterName, cla_Endpoints = ep, cla_rest = ''''\<rparr>) m"

definition prepare_endpoints ::
  "(lb_map \<Rightarrow> lb_map) \<Rightarrow> listers \<Rightarrow> app_config \<Rightarrow> config_type \<Rightarrow> lb_map option \<Rightarrow> (resource list \<times> string list) option" where
  "prepare_endpoints order L app config configEndpoints =
     (case getLocalityLbEndpoints L app config of
        Inl err \<Rightarrow> None
      | Inr eps \<Rightarrow>
          (let lbEndpoints = order (merge_endpoints configEndpoints eps)
           in if isInvalidIP lbEndpoints then None
              else Some (publishEp lbEndpoints, sort (publishEpArray lbEndpoints))))"

section \<open>Specification of the computed endpoints\<close>

definition eligible :: "pod \<Rightarrow> bool" where
  "eligible p \<longleftrightarrow>
     pod_PodIP p \<noteq> '''' \<and> pod_NodeName p \<noteq> '''' \<and> pod_DeletionTimestamp p = None \<and> isPodReady p"

definition pod_endpoints :: "listers \<Rightarrow> app_config \<Rightarrow> kubernetes_type \<Rightarrow> locality_lb_endpoints list" where
  "pod_endpoints L app k =
     (case k_Selector k of
        None \<Rightarrow> []
      | Some sel \<Rightarrow>
          (case ListPods L sel of Inl e \<Rightarrow> [] | Inr pods \<Rightarrow> map (pod_endpoint L app k) (filter eligible pods)))"

definition found :: "listers \<Rightarrow> string \<Rightarrow> endpoint_address list" where
  "found L name =
     (case GetEndpoint L name of Inr (Some eps) \<Rightarrow> concat (eps_Subsets eps) | _ \<Rightarrow> [])"

definition main_missing :: "listers \<Rightarrow> string \<Rightarrow> bool" where
  "main_missing L name \<longleftrightarrow> (case GetEndpoint L name of Inr (Some eps) \<Rightarrow> False | _ \<Rightarrow> True)"

text \<open>The canary service is read only when the service itself exists.\<close>

definition service_endpoints :: "listers \<Rightarrow> app_config \<Rightarrow> kubernetes_type \<Rightarrow> locality_lb_endpoints list" where
  "service_endpoints L app k =
     (if k_Service k = '''' \<or> main_missing L (k_Service k) then []
      else map (address_endpoint L app False k) (found L (k_Service k))
         @ map (address_endpoint L app True k) (found L (k_Service k @ CanarySuffix)))"

definition cluster_endpoints :: "listers \<Rightarrow> app_config \<Rightarrow> config_type \<Rightarrow> string \<Rightarrow> locality_lb_endpoints list" where
  "cluster_endpoints L app config c =
     (let ks = filter (\<lambda>k. k_ClusterName k = c) (Kubernetes config)
      in concat (map (pod_endpoints L app) ks) @ concat (map (service_endpoints L app) ks))"

lemma add_pod_eq:
  "add_pod L app k p m =
     (if eligible p then mapappend (k_ClusterName k) [pod_endpoint L app k p] m else m)"
  by (auto simp: add_pod_def eligible_def)

lemma slot_fold_pods:
  "slot (fold (add_pod L app k) pods m) c =
     slot m c @ (if c = k_ClusterName k then map (pod_endpoint L app k) (filter eligible pods) else [])"
  by (induction pods arbitrary: m) (auto simp: add_pod_eq slot_mapappend)

lemma slot_from_selectors:
  "from_selectors L app ks m = Inr m' \<Longrightarrow>
     slot m' c = slot m c @ concat (map (pod_endpoints L app) (filter (\<lambda>k. k_ClusterName k = c) ks))"
proof (induction ks arbitrary: m)
  case (Cons k ks)
  show ?case
  proof (cases "k_Selector k")
    case None
    with Cons show ?thesis by (simp add: pod_endpoints_def)
  next
    case (Some sel)
    with Cons.prems obtain pods where "ListPods L sel = Inr pods"
      and "from_selectors L app ks (fold (add_pod L app k) pods m) = Inr m'"
      by (auto split: sum.splits)
    with Cons.IH Some show ?thesis by (auto simp: pod_endpoints_def slot_fold_pods)
  qed
qed simp

lemma slot_fold_append:
  "slot (fold (\<lambda>a. mapappend k [f a]) xs m) c = slot m c @ (if c = k then map f xs else [])"
  by (induction xs arbitrary: m) (auto simp: slot_mapappend)

lemma slot_add_subsets:
  "slot (add_subsets L app canary k eps m) c =
     slot m c @ (if c = k_ClusterName k then map (address_endpoint L app canary k) (concat (eps_Subsets eps)) else [])"
proof -
  have aux: "slot (fold (fold (\<lambda>a. mapappend (k_ClusterName k) [f a])) xss m) c =
      slot m c @ (if c = k_ClusterName k then map f (concat xss) else [])" for f xss
    by (induction xss arbitrary: m) (auto simp: slot_fold_append)
  show ?thesis unfolding add_subsets_def by (rule aux)
qed

lemma slot_from_services:
  "from_services L app ks m = Inr m' \<Longrightarrow>
     slot m' c = slot m c @ concat (map (service_endpoints L app) (filter (\<lambda>k. k_ClusterName k = c) ks))"
proof (induction ks arbitrary: m)
  case (Cons k ks)
  show ?case
  proof (cases "k_Service k = ''''")
    case True
    with Cons show ?thesis by (simp add: service_endpoints_def)
  next
    case svc: False
    show ?thesis
    proof (cases "\<exists>eps. GetEndpoint L (k_Service k) = Inr (Some eps)")
      case False
      then have "main_missing L (k_Service k)"
        by (auto simp: main_missing_def split: sum.splits option.splits)
      with False svc Cons.IH Cons.prems show ?thesis
        by (auto simp: service_endpoints_def split: sum.splits option.splits)
    next
      case True
      then obtain eps where eps: "GetEndpoint L (k_Service k) = Inr (Some eps)" by blast
      let ?m = "add_subsets L app False k eps m"
      from svc eps Cons.prems obtain r where r: "GetEndpoint L (k_Service k @ CanarySuffix) = Inr r"
        and rest: "from_services L app ks
          (case r of None \<Rightarrow> ?m | Some e \<Rightarrow> add_subsets L app True k e ?m) = Inr m'"
        by (auto simp: Let_def split: sum.splits option.splits)
      from Cons.IH [OF rest] svc eps r show ?thesis
        by (cases r) (auto simp: service_endpoints_def main_missing_def found_def slot_add_subsets)
    qed
  qed
qed simp

lemma getLocalityLbEndpoints_slot:
  "getLocalityLbEndpoints L app config = Inr m \<Longrightarrow> slot m c = cluster_endpoints L app config c"
  by (auto simp: getLocalityLbEndpoints_def cluster_endpoints_def Let_def slot_from_services
      slot_from_selectors split: sum.splits)

section \<open>The merged map\<close>

lemma wf_fold:
  assumes "\<And>x m. x \<in> set xs \<Longrightarrow> wf_gomap m \<Longrightarrow> wf_gomap (f x m)"
  shows "wf_gomap m \<Longrightarrow> wf_gomap (fold f xs m)"
  using assms by (induction xs arbitrary: m) auto

lemma wf_from_selectors: "from_selectors L app ks m = Inr m' \<Longrightarrow> wf_gomap m \<Longrightarrow> wf_gomap m'"
  by (induction ks arbitrary: m) (auto split: option.splits sum.splits simp: add_pod_eq wf_fold)

lemma wf_add_subsets: "wf_gomap m \<Longrightarrow> wf_gomap (add_subsets L app canary k eps m)"
  unfolding add_subsets_def by (intro wf_fold) auto

lemma wf_from_services: "from_services L app ks m = Inr m' \<Longrightarrow> wf_gomap m \<Longrightarrow> wf_gomap m'"
  by (induction ks arbitrary: m)
    (auto split: option.splits sum.splits if_splits simp: Let_def wf_add_subsets)

lemma wf_getLocalityLbEndpoints: "getLocalityLbEndpoints L app config = Inr m \<Longrightarrow> wf_gomap m"
  by (auto simp: getLocalityLbEndpoints_def split: sum.splits dest: wf_from_selectors wf_from_services)

lemma wf_merge_endpoints: "wf_gomap (nilmap ce) \<Longrightarrow> wf_gomap (merge_endpoints ce eps)"
  unfolding merge_endpoints_def by (rule wf_fold) auto

lemma slot_merge_fold:
  "wf_gomap eps \<Longrightarrow> slot (fold (\<lambda>(k, v) m. mapappend k v m) eps m) c = slot m c @ slot eps c"
proof (induction eps arbitrary: m)
  case (Cons kv eps)
  obtain k v where kv: "kv = (k, v)" by force
  from Cons.prems kv have wf: "wf_gomap eps" and "k \<notin> fst ` set eps"
    by (auto simp: wf_gomap_def)
  then have "slot eps k = []" by (auto simp: slot_def dest: map_of_SomeD split: option.splits intro: rev_image_eqI)
  moreover have "slot ((k, v) # eps) c = (if c = k then v else slot eps c)" by (simp add: slot_def)
  ultimately show ?case using Cons.IH [OF wf] kv by (simp add: slot_mapappend)
qed simp

lemma slot_merge_endpoints:
  "wf_gomap eps \<Longrightarrow> slot (merge_endpoints ce eps) c = slot (nilmap ce) c @ slot eps c"
  by (simp add: merge_endpoints_def slot_merge_fold)

lemma keys_merge_endpoints:
  "fst ` set (merge_endpoints ce eps) = fst ` set (nilmap ce) \<union> fst ` set eps"
proof -
  have "fst ` set (fold (\<lambda>(k, v) m. mapappend k v m) eps m) = fst ` set m \<union> fst ` set eps" for m :: lb_map
    by (induction eps arbitrary: m) (simp_all add: case_prod_beta)
  then show ?thesis by (simp add: merge_endpoints_def)
qed

lemma keys_nonempty_fold:
  assumes "\<And>x m. x \<in> set xs \<Longrightarrow> [] \<notin> snd ` set m \<Longrightarrow> [] \<notin> snd ` set (f x m)"
  shows "[] \<notin> snd ` set m \<Longrightarrow> [] \<notin> snd ` set (fold f xs m)"
  using assms by (induction xs arbitrary: m) auto

lemma nonempty_update: "v \<noteq> [] \<Longrightarrow> [] \<notin> snd ` set m \<Longrightarrow> [] \<notin> snd ` set (AList.update k v m)"
  by (induction m) (auto split: if_splits)

lemma nonempty_mapappend:
  "vs \<noteq> [] \<Longrightarrow> [] \<notin> snd ` set m \<Longrightarrow> [] \<notin> snd ` set (mapappend k vs m)"
  unfolding mapappend_def by (rule nonempty_update) auto

lemma nonempty_add_subsets: "[] \<notin> snd ` set m \<Longrightarrow> [] \<notin> snd ` set (add_subsets L app canary k eps m)"
  unfolding add_subsets_def by (intro keys_nonempty_fold nonempty_mapappend) auto

lemma nonempty_from_selectors:
  "from_selectors L app ks m = Inr m' \<Longrightarrow> [] \<notin> snd ` set m \<Longrightarrow> [] \<notin> snd ` set m'"
proof (induction ks arbitrary: m)
  case (Cons k ks)
  have "[] \<notin> snd ` set (fold (add_pod L app k) pods m)" for pods
    using Cons.prems(2) by (intro keys_nonempty_fold) (auto simp: add_pod_eq nonempty_mapappend)
  with Cons show ?case by (auto split: option.splits sum.splits)
qed simp

lemma nonempty_from_services:
  "from_services L app ks m = Inr m' \<Longrightarrow> [] \<notin> snd ` set m \<Longrightarrow> [] \<notin> snd ` set m'"
proof (induction ks arbitrary: m)
  case (Cons k ks)
  then show ?case
    using nonempty_add_subsets
    by (auto split: option.splits sum.splits if_splits simp: Let_def simp del: image_iff)
qed simp

lemma getLocalityLbEndpoints_nonempty:
  "getLocalityLbEndpoints L app config = Inr m \<Longrightarrow> [] \<notin> snd ` set m"
  by (auto simp: getLocalityLbEndpoints_def split: sum.splits
      dest!: nonempty_from_selectors nonempty_from_services)

lemma getLocalityLbEndpoints_keys:
  assumes "getLocalityLbEndpoints L app config = Inr m"
  shows "c \<in> fst ` set m \<longleftrightarrow> cluster_endpoints L app config c \<noteq> []"
proof
  assume "c \<in> fst ` set m"
  then obtain vs where "(c, vs) \<in> set m" by auto
  moreover from this getLocalityLbEndpoints_nonempty [OF assms] have "vs \<noteq> []" by force
  ultimately show "cluster_endpoints L app config c \<noteq> []"
    using slot_member [OF wf_getLocalityLbEndpoints [OF assms]] getLocalityLbEndpoints_slot [OF assms] by metis
next
  assume "cluster_endpoints L app config c \<noteq> []"
  then have "slot m c \<noteq> []" using getLocalityLbEndpoints_slot [OF assms] by metis
  then obtain x where "x \<in> set (slot m c)" by (meson last_in_set)
  from slot_in_set [OF this] show "c \<in> fst ` set m" by force
qed

section \<open>The change key\<close>

type_synonym key_tuple = "string \<times> string \<times> u32 \<times> string \<times> u32 \<times> u32"

definition key_view :: "string \<times> locality_lb_endpoints \<times> lb_endpoint \<Rightarrow> key_tuple" where
  "key_view = (\<lambda>(c, v1, v2).
     (c, GetZone v1, lle_Priority v1, GetAddress v2, GetPortValue v2, GetHealthCheckPort v2))"

definition key_text :: "key_tuple \<Rightarrow> string" where
  "key_text = (\<lambda>(c, z, p, a, port, hc).
     c @ ''|'' @ z @ ''|'' @ dec32 p @ ''|'' @ a @ ''|'' @ dec32 port @ ''|'' @ dec32 hc)"

abbreviation no_bar :: "string \<Rightarrow> bool" where
  "no_bar s \<equiv> CHR ''|'' \<notin> set s"

definition bar_free :: "lb_map \<Rightarrow> bool" where
  "bar_free m = list_all (\<lambda>(c, v1, v2). no_bar c \<and> no_bar (GetZone v1)) (cluster_members m)"

lemma bar_split:
  "no_bar a \<Longrightarrow> no_bar b \<Longrightarrow> a @ ''|'' @ x = b @ ''|'' @ y \<longleftrightarrow> a = b \<and> x = y"
  by (induction a arbitrary: b; rename_tac b, case_tac b) auto

lemma key_text_inject:
  assumes "no_bar c" "no_bar z" "no_bar a" "no_bar c'" "no_bar z'" "no_bar a'"
  shows "key_text (c, z, p, a, q, h) = key_text (c', z', p', a', q', h') \<longleftrightarrow>
    (c, z, p, a, q, h) = (c', z', p', a', q', h')"
  unfolding key_text_def using assms by (simp add: bar_split word_unat_eq_iff del: append_Cons)

lemma mset_map_inj:
  assumes "inj_on f (set xs \<union> set ys)"
  shows "mset (map f xs) = mset (map f ys) \<longleftrightarrow> mset xs = mset ys"
proof
  let ?g = "the_inv_into (set xs \<union> set ys) f"
  assume "mset (map f xs) = mset (map f ys)"
  then have "mset (map ?g (map f xs)) = mset (map ?g (map f ys))" by (metis mset_map)
  moreover have "map ?g (map f xs) = xs" "map ?g (map f ys) = ys"
    using the_inv_into_f_f [OF assms] by (auto intro!: map_idI)
  ultimately show "mset xs = mset ys" by metis
next
  assume "mset xs = mset ys"
  then show "mset (map f xs) = mset (map f ys)" by simp
qed

lemma sort_eq_iff_mset: "sort xs = sort ys \<longleftrightarrow> mset xs = mset ys" for xs ys :: "'a :: linorder list"
  by (metis mset_sort properties_for_sort sorted_sort)

lemma publishEpArray_text: "publishEpArray m = map key_text (map key_view (cluster_members m))"
  by (simp add: publishEpArray_def endpoint_key_def key_text_def key_view_def case_prod_beta o_def)

lemma valid_no_bar: "\<not> isInvalidIP m \<Longrightarrow> (c, v1, v2) \<in> set (cluster_members m) \<Longrightarrow> no_bar (GetAddress v2)"
  by (rule ParseIP_no_bar) (force simp: isInvalidIP_def list_ex_iff)

lemma key_text_inj_on:
  assumes "bar_free m" "bar_free m'" "\<not> isInvalidIP m" "\<not> isInvalidIP m'"
  shows "inj_on key_text (set (map key_view (cluster_members m)) \<union> set (map key_view (cluster_members m')))"
proof (rule inj_onI)
  fix x y
  let ?S = "set (map key_view (cluster_members m)) \<union> set (map key_view (cluster_members m'))"
  assume xS: "x \<in> ?S" and yS: "y \<in> ?S" and eq: "key_text x = key_text y"
  have "no_bar (fst t) \<and> no_bar (fst (snd t)) \<and> no_bar (fst (snd (snd (snd t))))" if "t \<in> ?S" for t
    using that assms valid_no_bar by (fastforce simp: key_view_def bar_free_def list_all_iff)
  note ok = this
  obtain c z p a q h where x: "x = (c, z, p, a, q, h)" by (metis prod.exhaust)
  obtain c' z' p' a' q' h' where y: "y = (c', z', p', a', q', h')" by (metis prod.exhaust)
  show "x = y" using eq ok [OF xS] ok [OF yS] unfolding x y by (subst (asm) key_text_inject) simp_all
qed

lemma mset_concat_map: "mset (concat (map f xs)) = (\<Sum>x\<in>#mset xs. mset (f x))"
  by (induction xs) auto

lemma cluster_members_perm: "mset a = mset b \<Longrightarrow> mset (cluster_members a) = mset (cluster_members b)"
  by (simp add: cluster_members_def mset_concat_map del: mset_map)

lemma isInvalidIP_perm:
  assumes "mset a = mset b"
  shows "isInvalidIP a = isInvalidIP b"
  using mset_eq_setD [OF cluster_members_perm [OF assms]] by (simp add: isInvalidIP_def list_ex_iff)

lemma publishEpArray_perm:
  assumes "mset a = mset b"
  shows "sort (publishEpArray a) = sort (publishEpArray b)"
  using cluster_members_perm [OF assms] by (simp add: sort_eq_iff_mset publishEpArray_text)

lemma sorted_keys_iff:
  assumes "bar_free m" and "bar_free m'" and "\<not> isInvalidIP m" and "\<not> isInvalidIP m'"
  shows "sort (publishEpArray m) = sort (publishEpArray m') \<longleftrightarrow>
    mset (map key_view (cluster_members m)) = mset (map key_view (cluster_members m'))"
  unfolding sort_eq_iff_mset publishEpArray_text using mset_map_inj [OF key_text_inj_on [OF assms]] .

text \<open>
  Property (C13). The change key \<^verbatim>\<open>saveLastEndpoints\<close> compares is exact: when addresses are valid
  and no cluster name or zone contains the separator, two endpoint sets have the same sorted key
  array if and only if they hold the same multiset of (cluster, zone, priority, address, port,
  health-check port); so an update is pushed exactly when one of these changes.
\<close>

theorem change_key_exact:
  assumes "bar_free m" and "bar_free m'" and "\<not> isInvalidIP m" and "\<not> isInvalidIP m'"
  shows "sort (publishEpArray m) = sort (publishEpArray m') \<longleftrightarrow>
    mset (map key_view (cluster_members m)) = mset (map key_view (cluster_members m'))"
  unfolding sort_eq_iff_mset publishEpArray_text using mset_map_inj [OF key_text_inj_on [OF assms]] .

text \<open>
  Property (C14). The iteration order of Go maps does not matter: for every two orders of the
  merged map the program rejects the set in both or in neither, compares the same key array, and
  publishes the same assignments up to their order.
\<close>

theorem publish_order_independent:
  assumes "mset (order1 (merge_endpoints ce eps)) = mset (merge_endpoints ce eps)"
    and "mset (order2 (merge_endpoints ce eps)) = mset (merge_endpoints ce eps)"
    and "getLocalityLbEndpoints L app config = Inr eps"
  shows "rel_option (\<lambda>(ep1, keys1) (ep2, keys2). mset ep1 = mset ep2 \<and> keys1 = keys2)
    (prepare_endpoints order1 L app config ce) (prepare_endpoints order2 L app config ce)"
proof -
  let ?a = "order1 (merge_endpoints ce eps)" and ?b = "order2 (merge_endpoints ce eps)"
  have perm: "mset ?a = mset ?b" using assms by simp
  then have "mset (publishEp ?a) = mset (publishEp ?b)" by (simp add: publishEp_def)
  with perm publishEpArray_perm [OF perm] isInvalidIP_perm [OF perm] show ?thesis
    by (simp add: prepare_endpoints_def assms(3) Let_def)
qed

section \<open>Metadata and provenance\<close>

definition canary_flag :: "lb_endpoint \<Rightarrow> bool option" where
  "canary_flag e =
     (case lbe_Metadata e of
        None \<Rightarrow> None
      | Some fm \<Rightarrow>
          (case map_of fm ''envoy.lb'' of
             None \<Rightarrow> None
           | Some fs \<Rightarrow> (case map_of fs ''canary'' of Some (BoolValue b) \<Rightarrow> Some b | _ \<Rightarrow> None)))"

definition k8s_keys :: "string gomap \<Rightarrow> bool" where
  "k8s_keys m \<longleftrightarrow> (\<forall>k \<in> fst ` set m. HasPrefix k ''k8s.'')"

lemma k8s_keys_simps [simp]:
  "k8s_keys []"
  "k8s_keys (AList.update k v m) \<longleftrightarrow> HasPrefix k ''k8s.'' \<and> k8s_keys m"
  by (simp_all add: k8s_keys_def)

lemmas meta_names =
  envoyMetaPodName_def envoyMetaPodLabels_def envoyMetaEndpointIP_def envoyMetaNodeName_def

lemma k8s_keys_label_metadata [simp]: "k8s_keys (label_metadata ls m) = k8s_keys m"
proof -
  have "k8s_keys (fold (\<lambda>(k, v) m. if k \<noteq> podLabelIgnore then AList.update (envoyMetaPodLabels @ k) v m else m) xs m)
      = k8s_keys m" for xs
    by (induction xs arbitrary: m) (simp_all add: case_prod_beta envoyMetaPodLabels_def)
  then show ?thesis by (simp add: label_metadata_def)
qed

lemma meta_pod_prefix: "k8s_keys (getEnvoyMetaFromPod p)"
  by (simp add: getEnvoyMetaFromPod_def Let_def meta_names)

lemma meta_endpoint_prefix: "k8s_keys (getEnvoyMetaFromEndpoint L a)"
  by (simp add: getEnvoyMetaFromEndpoint_def Let_def meta_names split: option.splits sum.splits)

lemma metadata_fields_other:
  assumes "k \<notin> fst ` set (ee_Metadata e)"
  shows "map_of (metadata_fields e) k =
    map_of [(''canary'', BoolValue (IsCanary e)),
        (''stage'', StringValue (if IsCanary e then ''canary'' else ''main''))] k"
proof -
  have "map_of (fold (\<lambda>(k, v) m. AList.update k (StringValue v) m) xs m) k = map_of m k"
    if "k \<notin> fst ` set xs" for xs and m :: "pb_value gomap"
    using that by (induction xs arbitrary: m) auto
  with assms show ?thesis unfolding metadata_fields_def by blast
qed

lemma canary_flag_built:
  assumes "k8s_keys (ee_Metadata e)"
    and "v2 \<in> set (LbEndpoints (getEnvoyLocalityLbEndpoint L app e))"
  shows "canary_flag v2 = Some (IsCanary e)"
proof -
  from assms(1) have "''canary'' \<notin> fst ` set (ee_Metadata e)" by (fastforce simp: k8s_keys_def)
  from metadata_fields_other [OF this] assms(2) show ?thesis
    by (auto simp: getEnvoyLocalityLbEndpoint_def Let_def canary_flag_def)
qed

lemma canary_flag_pod:
  "v2 \<in> set (LbEndpoints (pod_endpoint L app k p)) \<Longrightarrow> canary_flag v2 = Some False"
  unfolding pod_endpoint_def by (drule canary_flag_built [rotated]) (auto simp: meta_pod_prefix)

lemma canary_flag_address:
  "v2 \<in> set (LbEndpoints (address_endpoint L app b k a)) \<Longrightarrow> canary_flag v2 = Some b"
  unfolding address_endpoint_def
  by (drule canary_flag_built [rotated])
    (auto simp: SetNode_def meta_endpoint_prefix split: option.splits)

lemma built_address [simp]:
  "map GetAddress (LbEndpoints (getEnvoyLocalityLbEndpoint L app e)) = [ee_Address e]"
  by (simp add: getEnvoyLocalityLbEndpoint_def Let_def GetAddress_def GetSocketAddress_def GetEndpointOf_def)

lemma SetNode_keeps [simp]: "ee_Address (SetNode a e) = ee_Address e" "IsCanary (SetNode a e) = IsCanary e"
  by (simp_all add: SetNode_def split: option.splits)

lemma found_source:
  "a \<in> set (found L name) \<Longrightarrow>
     \<exists>all eps. endpointsLister_List L (Everything L) = Inr all \<and> eps \<in> set all \<and> eps_Name eps = name
       \<and> (HasSuffix name CanarySuffix \<longrightarrow> canary_enabled eps) \<and> a \<in> set (concat (eps_Subsets eps))"
  by (fastforce simp: found_def GetEndpoint_def split: sum.splits option.splits
      dest: find_endpoint_Some [OF sym])

text \<open>
  Property (C9). Exactly the right endpoints: when the lookups succeed, the endpoints computed
  for a cluster are, in order, one per eligible pod of every selector entry of that cluster and one
  per address of the service and canary-service objects of every service entry; and the map has an
  entry for a cluster only if it has at least one endpoint.
\<close>

theorem cluster_endpoints_exact:
  assumes "getLocalityLbEndpoints L app config = Inr m"
  shows "slot m c = cluster_endpoints L app config c \<and>
    (c \<in> fst ` set m \<longleftrightarrow> cluster_endpoints L app config c \<noteq> [])"
  using getLocalityLbEndpoints_slot [OF assms] getLocalityLbEndpoints_keys [OF assms] by blast

definition listed :: "listers \<Rightarrow> string \<Rightarrow> string \<Rightarrow> bool" where
  "listed L name ip \<longleftrightarrow>
     (case endpointsLister_List L (Everything L) of
        Inl e \<Rightarrow> False
      | Inr all \<Rightarrow>
          list_ex (\<lambda>eps. eps_Name eps = name \<and> (HasSuffix name CanarySuffix \<longrightarrow> canary_enabled eps)
             \<and> ip \<in> ea_IP ` set (concat (eps_Subsets eps))) all)"

definition selected_pod :: "listers \<Rightarrow> kubernetes_type \<Rightarrow> string \<Rightarrow> bool" where
  "selected_pod L k ip \<longleftrightarrow>
     (case k_Selector k of
        None \<Rightarrow> False
      | Some sel \<Rightarrow>
          (case ListPods L sel of
             Inl e \<Rightarrow> False
           | Inr pods \<Rightarrow> list_ex (\<lambda>p. eligible p \<and> pod_PodIP p = ip) pods))"

lemma found_listed: "a \<in> set (found L name) \<Longrightarrow> listed L name (ea_IP a)"
  by (drule found_source) (fastforce simp: listed_def list_ex_iff)

lemma address_of_built:
  "v2 \<in> set (LbEndpoints (pod_endpoint L app k p)) \<Longrightarrow> GetAddress v2 = pod_PodIP p"
  "v2 \<in> set (LbEndpoints (address_endpoint L app b k a)) \<Longrightarrow> GetAddress v2 = ea_IP a"
  by (simp_all add: pod_endpoint_def address_endpoint_def getEnvoyLocalityLbEndpoint_def Let_def
      GetAddress_def GetSocketAddress_def GetEndpointOf_def)

lemma pod_endpoints_provenance:
  assumes "v1 \<in> set (pod_endpoints L app k)" and "v2 \<in> set (LbEndpoints v1)"
  shows "canary_flag v2 = Some False \<and> selected_pod L k (GetAddress v2)"
proof -
  from assms(1) obtain sel ps p where "k_Selector k = Some sel" "ListPods L sel = Inr ps"
    "p \<in> set ps" "eligible p" "v1 = pod_endpoint L app k p"
    by (cases "k_Selector k"; cases "ListPods L (the (k_Selector k))") (auto simp: pod_endpoints_def)
  with assms(2) show ?thesis
    by (auto simp: selected_pod_def list_ex_iff address_of_built canary_flag_pod)
qed

lemma service_endpoints_provenance:
  assumes "v1 \<in> set (service_endpoints L app k)" and "v2 \<in> set (LbEndpoints v1)"
  shows "canary_flag v2 = Some False \<and> listed L (k_Service k) (GetAddress v2) \<or>
    canary_flag v2 = Some True \<and> listed L (k_Service k @ CanarySuffix) (GetAddress v2)"
  using assms by (auto simp: service_endpoints_def address_of_built canary_flag_address found_listed split: if_splits)

text \<open>
  Property (C10). Provenance of every computed endpoint of a cluster: it is marked non-canary and
  its address is that of a ready, running, not deleted pod with IP and node selected by an entry
  of the cluster, or an address of the entry's service; or it is marked canary and its address
  comes from an \<^verbatim>\<open>Endpoints\<close> object named after the service with suffix \<^verbatim>\<open>-canary\<close> that carries
  the annotation enabling canaries.
\<close>

theorem endpoint_provenance:
  assumes "getLocalityLbEndpoints L app config = Inr m"
    and "v1 \<in> set (slot m c)" and "v2 \<in> set (LbEndpoints v1)"
  shows "\<exists>k \<in> set (Kubernetes config). k_ClusterName k = c \<and>
    (canary_flag v2 = Some False \<and> selected_pod L k (GetAddress v2) \<or>
     canary_flag v2 = Some False \<and> listed L (k_Service k) (GetAddress v2) \<or>
     canary_flag v2 = Some True \<and> listed L (k_Service k @ CanarySuffix) (GetAddress v2))"
proof -
  from assms(1,2) have "v1 \<in> set (cluster_endpoints L app config c)"
    by (simp add: getLocalityLbEndpoints_slot)
  then obtain k where "k \<in> set (Kubernetes config)" "k_ClusterName k = c"
    "v1 \<in> set (pod_endpoints L app k) \<or> v1 \<in> set (service_endpoints L app k)"
    by (auto simp: cluster_endpoints_def Let_def)
  with assms(3) pod_endpoints_provenance service_endpoints_provenance show ?thesis by metis
qed

section \<open>An example cluster\<close>

definition demo_pod :: "string \<Rightarrow> string \<Rightarrow> string \<Rightarrow> pod" where
  "demo_pod n ip ready =
     \<lparr>pod_Name = n, pod_Namespace = ''ns'', pod_Labels = Some [(''app'', ''web'')],
      pod_DeletionTimestamp = None, pod_NodeName = ''n1'', pod_PodIP = ip, pod_Phase = ''Running'',
      pod_Conditions = [\<lparr>pc_Type = ''Ready'', pc_Status = ready\<rparr>]\<rparr>"

definition demo_service :: "string \<Rightarrow> string \<Rightarrow> endpoints" where
  "demo_service n ip =
     \<lparr>eps_Name = n, eps_Annotations = Some [(AnnotationCanaryEnabled, ''true'')],
      eps_Subsets = [[\<lparr>ea_IP = ip, ea_NodeName = Some ''n1'', ea_TargetRef = None\<rparr>]]\<rparr>"

definition demo_kube :: kube_state where
  "demo_kube =
     \<lparr>ks_pods = [demo_pod ''p1'' ''10.0.0.1'' ''True'', demo_pod ''p2'' ''10.0.0.2'' ''False''],
      ks_nodes = [\<lparr>node_Name = ''n1'', node_Labels = Some [(''topology.kubernetes.io/zone'', ''z1'')]\<rparr>],
      ks_configmaps = [],
      ks_endpoints = [demo_service ''svc'' ''10.0.1.1'', demo_service ''svc-canary'' ''10.0.1.2'']\<rparr>"

definition demo_entry :: "string gomap option \<Rightarrow> string \<Rightarrow> kubernetes_type" where
  "demo_entry sel svc =
     \<lparr>k_ClusterName = ''web'', k_Namespace = ''ns'', k_Port = 8080, k_HealthCheckPort = 0, k_Priority = 0,
      k_Selector = sel, k_Service = svc\<rparr>"

definition demo_node :: config_type where
  "demo_node = empty_config\<lparr>ct_ID := ''node1'', ct_Name := ''node1'',
     Kubernetes := [demo_entry (Some [(''app'', ''web'')]) '''', demo_entry None ''svc'']\<rparr>"

abbreviation demo_listers :: listers where "demo_listers \<equiv> listers_of demo_kube"

lemma demo_lookup: "\<exists>m. getLocalityLbEndpoints demo_listers demo_app demo_node = Inr m"
proof -
  have "\<not> isl (getLocalityLbEndpoints demo_listers demo_app demo_node)" by code_simp
  then show ?thesis by (auto simp: isl_def intro: sum.exhaust)
qed

theorem cluster_endpoints_exact_witness:
  "\<exists>m. getLocalityLbEndpoints demo_listers demo_app demo_node = Inr m \<and>
     length (slot m ''web'') = 3 \<and> ''web'' \<in> fst ` set m"
proof -
  obtain m where m: "getLocalityLbEndpoints demo_listers demo_app demo_node = Inr m" using demo_lookup ..
  have "length (cluster_endpoints demo_listers demo_app demo_node ''web'') = 3" by code_simp
  with cluster_endpoints_exact [OF m, of "''web''"] m show ?thesis by auto
qed

theorem endpoint_provenance_witness:
  "\<exists>m v1 v2. getLocalityLbEndpoints demo_listers demo_app demo_node = Inr m \<and>
     v1 \<in> set (slot m ''web'') \<and> v2 \<in> set (LbEndpoints v1) \<and> canary_flag v2 = Some True \<and>
     (\<exists>k \<in> set (Kubernetes demo_node). listed demo_listers (k_Service k @ CanarySuffix) (GetAddress v2))"
proof -
  obtain m where m: "getLocalityLbEndpoints demo_listers demo_app demo_node = Inr m" using demo_lookup ..
  let ?v = "cluster_endpoints demo_listers demo_app demo_node ''web'' ! 2"
  let ?e = "hd (LbEndpoints ?v)"
  have len: "length (cluster_endpoints demo_listers demo_app demo_node ''web'') = 3" by code_simp
  have v: "?v \<in> set (slot m ''web'')" using len by (simp add: getLocalityLbEndpoints_slot [OF m])
  have "LbEndpoints ?v \<noteq> []" and flag: "canary_flag ?e = Some True" by code_simp+
  then have e: "?e \<in> set (LbEndpoints ?v)" by simp
  from endpoint_provenance [OF m v e] m v e flag show ?thesis by (metis option.inject)
qed

definition demo_lb_map :: "lb_map" where
  "demo_lb_map = [(''web'', cluster_endpoints demo_listers demo_app demo_node ''web''), (''empty'', [])]"

theorem change_key_exact_witness:
  "bar_free demo_lb_map \<and> \<not> isInvalidIP demo_lb_map \<and>
   sort (publishEpArray demo_lb_map) = sort (publishEpArray (rev demo_lb_map)) \<and>
   sort (publishEpArray demo_lb_map) \<noteq> sort (publishEpArray [])"
proof -
  have ok: "bar_free demo_lb_map" "\<not> isInvalidIP demo_lb_map" "bar_free (rev demo_lb_map)"
    "\<not> isInvalidIP (rev demo_lb_map)" by code_simp+
  have nil: "bar_free []" "\<not> isInvalidIP []" by code_simp+
  have perm: "mset (map key_view (cluster_members demo_lb_map)) = mset (map key_view (cluster_members (rev demo_lb_map)))"
    using cluster_members_perm [of demo_lb_map "rev demo_lb_map"] by simp
  have "length (cluster_members demo_lb_map) = 3" "cluster_members [] = []" by code_simp+
  then have ne: "mset (map key_view (cluster_members demo_lb_map)) \<noteq> mset (map key_view (cluster_members []))" by auto
  from change_key_exact [OF ok(1,3,2,4)] change_key_exact [OF ok(1) nil(1) ok(2) nil(2)] ok perm ne
  show ?thesis by blast
qed

theorem publish_order_independent_witness:
  "\<exists>eps. getLocalityLbEndpoints demo_listers demo_app demo_node = Inr eps \<and>
     rel_option (\<lambda>(ep1, keys1) (ep2, keys2). mset ep1 = mset ep2 \<and> keys1 = keys2)
       (prepare_endpoints id demo_listers demo_app demo_node (Some [(''fixed'', [])]))
       (prepare_endpoints rev demo_listers demo_app demo_node (Some [(''fixed'', [])]))"
proof -
  obtain m where m: "getLocalityLbEndpoints demo_listers demo_app demo_node = Inr m" using demo_lookup ..
  from publish_order_independent [of id "Some [(''fixed'', [])]" m rev demo_listers demo_app demo_node] m
  show ?thesis by auto
qed

end
