(* ===== verification/Certs.thy ===== *)
theory Certs
  imports AppConfig
begin

text \<open>
  \<^verbatim>\<open>pkg/certs/certs.go\<close>: the certificate authority and the server certificates. Key generation,
  signing, the ASN.1 and PEM codecs are parameters (\<open>crypto\<close>); the templates, the control flow,
  the error wrapping and the nil dereferences are the program's own and are modelled. A call of
  \<^verbatim>\<open>time.Now\<close> is a reading of \<open>clock\<close>, numbered in the order of the calls; \<open>nonce\<close> names the
  randomness a key generation consumes.
\<close>

type_synonym bytes = string
type_synonym rsa_key = opaque
type_synonym rsa_pub = opaque

datatype key_usage = KeyUsageDigitalSignature | KeyUsageCertSign | KeyUsageCRLSign
datatype ext_key_usage = ExtKeyUsageServerAuth | ExtKeyUsageClientAuth

record pkix_name =
  Country :: "string list"
  Organization :: "string list"
  OrganizationalUnit :: "string list"
  CommonName :: string

record x509_certificate =
  SerialNumber :: int
  Subject :: pkix_name
  DNSNames :: "string list"
  NotBefore :: int
  NotAfter :: int
  KeyUsage :: "key_usage list"
  ExtKeyUsage :: "ext_key_usage list"
  BasicConstraintsValid :: bool
  IsCA :: bool
  MaxPathLen :: int
  MaxPathLenZero :: bool

datatype any_key = RSAKey rsa_key | OtherKey opaque

record crypto =
  GenerateKey :: "nat \<Rightarrow> nat \<Rightarrow> goerr + rsa_key"
  PublicKey :: "rsa_key \<Rightarrow> rsa_pub"
  CreateCertificate ::
    "x509_certificate \<Rightarrow> x509_certificate option \<Rightarrow> rsa_pub \<Rightarrow> rsa_key option \<Rightarrow> goerr + bytes"
  ParseCertificate :: "bytes \<Rightarrow> goerr + x509_certificate"
  pem_Encode :: "string \<Rightarrow> bytes \<Rightarrow> bytes"
  pem_Decode :: "bytes \<Rightarrow> bytes option"
  MarshalPKCS8 :: "rsa_key \<Rightarrow> goerr + bytes"
  ParsePKCS8 :: "bytes \<Rightarrow> goerr + any_key"
  readFile :: "string \<Rightarrow> goerr + bytes"

definition keyBits :: nat where "keyBits = 2048"
definition CertValidity :: int where "CertValidity = 7 * 24 * Hour"
definition CertValidityYear :: int where "CertValidityYear = 365 * 24 * Hour"
definition CertValidityMax :: int where "CertValidityMax = 3000 * 24 * Hour"
definition sslMaxPathLen :: int where "sslMaxPathLen = 2"

text \<open>The package variables; \<open>None\<close> before \<^verbatim>\<open>Init\<close>.\<close>

record ca_state =
  caCert :: "x509_certificate option"
  caCertBytes :: bytes
  caKey :: "rsa_key option"

type_synonym issued = "x509_certificate \<times> bytes \<times> rsa_key \<times> bytes"

definition genCert ::
  "crypto \<Rightarrow> x509_certificate \<Rightarrow> x509_certificate option \<Rightarrow> rsa_pub \<Rightarrow> rsa_key option
     \<Rightarrow> goerr + x509_certificate \<times> bytes" where
  "genCert K template parent publicKey privateKey =
     (case wrap ''Failed to create certificate'' (CreateCertificate K template parent publicKey privateKey) of
        Inl e \<Rightarrow> Inl e
      | Inr certBytes \<Rightarrow>
          (case wrap ''Failed to parse certificate'' (ParseCertificate K certBytes) of
             Inl e \<Rightarrow> Inl e
           | Inr cert \<Rightarrow> Inr (cert, pem_Encode K ''CERTIFICATE'' certBytes)))"

definition exportPrivateKey :: "crypto \<Rightarrow> rsa_key \<Rightarrow> goerr + bytes" where
  "exportPrivateKey K privkey =
     (case MarshalPKCS8 K privkey of
        Inl e \<Rightarrow> Inl e
      | Inr privkeyBytes \<Rightarrow> Inr (pem_Encode K ''PRIVATE KEY'' privkeyBytes))"

definition root_template :: "(nat \<Rightarrow> int) \<Rightarrow> x509_certificate" where
  "root_template clock =
     \<lparr>SerialNumber = 1,
      Subject = \<lparr>Country = [''US''], Organization = [AppName], OrganizationalUnit = [''CA''], CommonName = AppName\<rparr>,
      DNSNames = [],
      NotBefore = clock 0 + (-10) * Second,
      NotAfter = clock 1 + CertValidityMax,
      KeyUsage = [KeyUsageCertSign, KeyUsageCRLSign],
      ExtKeyUsage = [ExtKeyUsageServerAuth, ExtKeyUsageClientAuth],
      BasicConstraintsValid = True,
      IsCA = True,
      MaxPathLen = sslMaxPathLen,
      MaxPathLenZero = False\<rparr>"

definition GenCARoot :: "crypto \<Rightarrow> (nat \<Rightarrow> int) \<Rightarrow> nat \<Rightarrow> goerr + issued" where
  "GenCARoot K clock nonce =
     (let rootTemplate = root_template clock
      in case wrap ''Failed to generate key'' (GenerateKey K keyBits nonce) of
           Inl e \<Rightarrow> Inl e
         | Inr priv \<Rightarrow>
             (case wrap ''Failed to generate cert''
                     (genCert K rootTemplate (Some rootTemplate) (PublicKey K priv) (Some priv)) of
                Inl e \<Rightarrow> Inl e
              | Inr (rootCert, rootCertBytes) \<Rightarrow>
                  (case wrap ''Failed to generate private key'' (exportPrivateKey K priv) of
                     Inl e \<Rightarrow> Inl e
                   | Inr priBytes \<Rightarrow> Inr (rootCert, rootCertBytes, priv, priBytes))))"

definition server_template :: "(nat \<Rightarrow> int) \<Rightarrow> string \<Rightarrow> string list \<Rightarrow> int \<Rightarrow> x509_certificate" where
  "server_template clock commonName dnsNames certDuration =
     \<lparr>SerialNumber = clock 0 div Second,
      Subject = \<lparr>Country = [''US''], Organization = [AppName], OrganizationalUnit = [''CLIENT''], CommonName = commonName\<rparr>,
      DNSNames = dnsNames,
      NotBefore = clock 1 + (-10) * Second,
      NotAfter = clock 2 + certDuration,
      KeyUsage = [KeyUsageDigitalSignature],
      ExtKeyUsage = [ExtKeyUsageServerAuth, ExtKeyUsageClientAuth],
      BasicConstraintsValid = False,
      IsCA = False,
      MaxPathLen = 0,
      MaxPathLenZero = True\<rparr>"

definition GenServerCert ::
  "crypto \<Rightarrow> (nat \<Rightarrow> int) \<Rightarrow> nat \<Rightarrow> string list \<Rightarrow> x509_certificate option \<Rightarrow> rsa_key option \<Rightarrow> int
     \<Rightarrow> (goerr + issued) outcome" where
  "GenServerCert K clock nonce dnsNames rootCert rootKey certDuration =
     (case wrap ''Failed to generate key'' (GenerateKey K keyBits nonce) of
        Inl e \<Rightarrow> Ret (Inl e)
      | Inr priv \<Rightarrow>
          (case dnsNames of
             [] \<Rightarrow> Panic ''index out of range''
           | dn # _ \<Rightarrow>
               (let serverTemplate = server_template clock dn dnsNames certDuration
                in Ret
                  (case wrap ''Failed to generate cert''
                          (genCert K serverTemplate rootCert (PublicKey K priv) rootKey) of
                     Inl e \<Rightarrow> Inl e
                   | Inr (serverCert, serverCertBytes) \<Rightarrow>
                       (case wrap ''Failed to generate private key'' (exportPrivateKey K priv) of
                          Inl e \<Rightarrow> Inl e
                        | Inr priBytes \<Rightarrow> Inr (serverCert, serverCertBytes, priv, priBytes))))))"

definition NewCertificate ::
  "crypto \<Rightarrow> ca_state \<Rightarrow> (nat \<Rightarrow> int) \<Rightarrow> nat \<Rightarrow> string list \<Rightarrow> int \<Rightarrow> (goerr + issued) outcome" where
  "NewCertificate K ca clock nonce dnsNames certDuration =
     GenServerCert K clock nonce dnsNames (caCert ca) (caKey ca) certDuration"

text \<open>A nil PEM block is dereferenced: the file that is not PEM ends in a run-time panic.\<close>

definition loadCAFromFiles ::
  "crypto \<Rightarrow> app_config \<Rightarrow> (goerr + x509_certificate \<times> bytes \<times> rsa_key) outcome" where
  "loadCAFromFiles K cfg =
     (case wrap ''can not load certicate'' (readFile K (SSLCrt cfg)) of
        Inl e \<Rightarrow> Ret (Inl e)
      | Inr certBytes \<Rightarrow>
     (case pem_Decode K certBytes of
        None \<Rightarrow> Panic ''nil pointer dereference''
      | Some certBlock \<Rightarrow>
     (case wrap ''can not parse certicate'' (ParseCertificate K certBlock) of
        Inl e \<Rightarrow> Ret (Inl e)
      | Inr cert \<Rightarrow>
     (case wrap ''can not load key'' (readFile K (SSLKey cfg)) of
        Inl e \<Rightarrow> Ret (Inl e)
      | Inr keyBytes \<Rightarrow>
     (case pem_Decode K keyBytes of
        None \<Rightarrow> Panic ''nil pointer dereference''
      | Some keyBlock \<Rightarrow>
     (case wrap ''can not parse key'' (ParsePKCS8 K keyBlock) of
        Inl e \<Rightarrow> Ret (Inl e)
      | Inr (OtherKey k) \<Rightarrow> Ret (Inl (Err ''assertion error''))
      | Inr (RSAKey privateKey) \<Rightarrow> Ret (Inr (cert, certBytes, privateKey))))))))"

definition certs_Init ::
  "crypto \<Rightarrow> app_config \<Rightarrow> (nat \<Rightarrow> int) \<Rightarrow> nat \<Rightarrow> (goerr + ca_state) outcome" where
  "certs_Init K cfg clock nonce =
     (if length (SSLCrt cfg) > 0 \<and> length (SSLKey cfg) > 0 then
        bind_outcome (loadCAFromFiles K cfg)
          (\<lambda>r. Ret (map_sum id (\<lambda>(cert, b, k). \<lparr>caCert = Some cert, caCertBytes = b, caKey = Some k\<rparr>) r))
      else
        Ret (map_sum id (\<lambda>(cert, b, k, _). \<lparr>caCert = Some cert, caCertBytes = b, caKey = Some k\<rparr>)
               (GenCARoot K clock nonce)))"

definition GetLoadedRootCert :: "ca_state \<Rightarrow> x509_certificate option" where
  "GetLoadedRootCert ca = caCert ca"
definition GetLoadedRootCertBytes :: "ca_state \<Rightarrow> bytes" where
  "GetLoadedRootCertBytes ca = caCertBytes ca"
definition GetLoadedRootKey :: "ca_state \<Rightarrow> rsa_key option" where
  "GetLoadedRootKey ca = caKey ca"

text \<open>Exporting a nil key dereferences it.\<close>

definition GetLoadedRootKeyBytes :: "crypto \<Rightarrow> ca_state \<Rightarrow> (goerr + bytes) outcome" where
  "GetLoadedRootKeyBytes K ca =
     (case caKey ca of None \<Rightarrow> Panic ''nil pointer dereference'' | Some key \<Rightarrow> Ret (exportPrivateKey K key))"

section \<open>Properties\<close>

text \<open>
  Documented behaviour of \<^verbatim>\<open>crypto/x509\<close>: a certificate that was just created parses to one
  with the names, usages and CA flag of its template and its validity in whole seconds. The CA
  flag is written only with valid basic constraints.
\<close>

definition whole_second :: "int \<Rightarrow> int" where
  "whole_second t = t div Second * Second"

definition x509_law :: "crypto \<Rightarrow> bool" where
  "x509_law K \<longleftrightarrow>
     (\<forall>t p pub priv der c. CreateCertificate K t p pub priv = Inr der \<longrightarrow>
        ParseCertificate K der = Inr c \<longrightarrow>
        SerialNumber c = SerialNumber t \<and> Subject c = Subject t \<and> DNSNames c = DNSNames t \<and>
        NotBefore c = whole_second (NotBefore t) \<and> NotAfter c = whole_second (NotAfter t) \<and>
        KeyUsage c = KeyUsage t \<and> ExtKeyUsage c = ExtKeyUsage t \<and>
        IsCA c = (BasicConstraintsValid t \<and> IsCA t))"

lemma x509_lawD:
  assumes "x509_law K" and "CreateCertificate K t p pub priv = Inr der" and "ParseCertificate K der = Inr c"
  shows "SerialNumber c = SerialNumber t \<and> Subject c = Subject t \<and> DNSNames c = DNSNames t \<and>
    NotBefore c = whole_second (NotBefore t) \<and> NotAfter c = whole_second (NotAfter t) \<and>
    KeyUsage c = KeyUsage t \<and> ExtKeyUsage c = ExtKeyUsage t \<and>
    IsCA c = (BasicConstraintsValid t \<and> IsCA t)"
  using assms unfolding x509_law_def by blast

lemma genCert_Inr:
  "genCert K t p pub priv = Inr (c, pem) \<Longrightarrow>
     \<exists>der. CreateCertificate K t p pub priv = Inr der \<and> ParseCertificate K der = Inr c
       \<and> pem = pem_Encode K ''CERTIFICATE'' der"
  by (auto simp: genCert_def split: sum.splits)

lemma GenServerCert_Inr:
  "GenServerCert K clock nonce names rc rk d = Ret (Inr (c, pem, k, kpem)) \<Longrightarrow>
     names \<noteq> [] \<and> GenerateKey K keyBits nonce = Inr k \<and> exportPrivateKey K k = Inr kpem \<and>
     genCert K (server_template clock (hd names) names d) rc (PublicKey K k) rk = Inr (c, pem)"
  by (auto simp: GenServerCert_def Let_def split: sum.splits list.splits)

section \<open>An example authority\<close>

text \<open>A library that signs one template only.\<close>

definition demo_crypto :: "x509_certificate \<Rightarrow> crypto" where
  "demo_crypto tpl =
     \<lparr>GenerateKey = (\<lambda>bits n. Inr ''key''),
      PublicKey = (\<lambda>k. ''pub''),
      CreateCertificate = (\<lambda>t p pub k. if t = tpl then Inr ''der'' else Inl (Err ''template'')),
      ParseCertificate = (\<lambda>der. Inr (tpl\<lparr>NotBefore := whole_second (NotBefore tpl),
         NotAfter := whole_second (NotAfter tpl), IsCA := BasicConstraintsValid tpl \<and> IsCA tpl\<rparr>)),
      pem_Encode = (\<lambda>l b. l @ '':'' @ b),
      pem_Decode = (\<lambda>b. Some b),
      MarshalPKCS8 = (\<lambda>k. Inr k),
      ParsePKCS8 = (\<lambda>b. Inr (RSAKey b)),
      readFile = (\<lambda>f. Inr f)\<rparr>"

lemma demo_crypto_law: "x509_law (demo_crypto tpl)"
  by (auto simp: x509_law_def demo_crypto_def split: if_splits)

end
