(* ===== verification/Utils.thy ===== *)
theory Utils
  imports ConfigType Certs Metrics
begin

text \<open>
  \<^verbatim>\<open>pkg/utils/utils.go\<close>: the snapshot of a configuration, the secrets every node gets, and the
  timing of operations.
\<close>

definition GetConfigSnapshot ::
  "('s, 'c) xds \<Rightarrow> string \<Rightarrow> config_type \<Rightarrow> resource list \<Rightarrow> secret list \<Rightarrow> goerr + 's" where
  "GetConfigSnapshot X version configType endpoints commonSecrets =
     (let secrets = GetSecrets configType @ map RSecret commonSecrets
      in NewSnapshot X version
           [(ClusterType, GetClusters configType),
            (RouteType, GetRoutes configType),
            (ListenerType, GetListeners configType),
            (SecretType, secrets),
            (EndpointType, endpoints)])"

text \<open>What issuing certificates needs from its surroundings.\<close>

record issuer =
  is_crypto :: crypto
  is_ca :: ca_state
  is_clock :: "nat \<Rightarrow> int"
  is_nonce :: nat

definition validation_context ::
  "codec \<Rightarrow> app_config \<Rightarrow> ca_state \<Rightarrow> yaml option \<Rightarrow> goerr + certificate_validation_context" where
  "validation_context C app ca validation =
     (let rootCA = Some (InlineBytes (GetLoadedRootCertBytes ca));
          plain = \<lparr>TrustedCa = rootCA, cvc_rest = ''''\<rparr>
      in case validation of
           None \<Rightarrow> Inr plain
         | Some v \<Rightarrow>
             if SSLDoNotUseValidation app then Inr plain
             else (case wrap ''json.Marshal(yamlObjJSON)'' (json_Marshal C (ConvertYAMLtoJSON C v)) of
                     Inl e \<Rightarrow> Inl e
                   | Inr jsonObj \<Rightarrow>
                       (case wrap ''protojson.Unmarshal(jsonObj)'' (protojson_Validation C jsonObj) of
                          Inl e \<Rightarrow> Inl e
                        | Inr ctx \<Rightarrow>
                            Inr (if TrustedCa ctx = None then ctx\<lparr>TrustedCa := rootCA\<rparr> else ctx))))"

definition NewSecrets ::
  "codec \<Rightarrow> app_config \<Rightarrow> issuer \<Rightarrow> string \<Rightarrow> yaml option \<Rightarrow> (goerr + secret list) outcome" where
  "NewSecrets C app I dnsName validation =
     bind_outcome
       (NewCertificate (is_crypto I) (is_ca I) (is_clock I) (is_nonce I) [dnsName] CertValidity)
       (\<lambda>r. case r of
          Inl err \<Rightarrow> Ret (Inl err)
        | Inr (_, serverCertBytes, _, serverKeyBytes) \<Rightarrow>
            Ret (case validation_context C app (is_ca I) validation of
                   Inl e \<Rightarrow> Inl e
                 | Inr validationContext \<Rightarrow>
                     Inr [\<lparr>s_Name = SSLName app,
                           s_Type = TlsCertificate
                             \<lparr>CertificateChain = Some (InlineBytes serverCertBytes),
                              PrivateKeySource = Some (InlineBytes serverKeyBytes)\<rparr>\<rparr>,
                          \<lparr>s_Name = ''validation'', s_Type = ValidationContext validationContext\<rparr>]))"

definition timeTrackWarning :: int where "timeTrackWarning = 100 * (Second div 1000)"

text \<open>\<^verbatim>\<open>TimeTrack\<close>: count the operation and say whether the duration is logged as a warning.\<close>

definition TimeTrack :: "string \<Rightarrow> int \<Rightarrow> metric_state \<Rightarrow> metric_state \<times> bool" where
  "TimeTrack name elapsed m =
     (IncLabel OperationDuration name (IncLabel Operation name m), elapsed > timeTrackWarning)"

section \<open>Properties\<close>

lemma NewSecrets_not_exit: "NewSecrets C app I n v \<noteq> Exit e"
  by (cases "NewCertificate (is_crypto I) (is_ca I) (is_clock I) (is_nonce I) [n] CertValidity")
    (auto simp: NewSecrets_def NewCertificate_def GenServerCert_def Let_def split: sum.splits prod.splits)

lemma NewSecrets_returns: "\<exists>r. NewSecrets C app I n v = Ret r"
  by (auto simp: NewSecrets_def NewCertificate_def GenServerCert_def Let_def split: sum.splits prod.splits)

lemma validation_context_ca:
  "validation_context C app ca v = Inr ctx \<Longrightarrow> TrustedCa ctx \<noteq> None"
  by (auto simp: validation_context_def Let_def split: option.splits sum.splits if_splits)

end
