(* ===== verification/ConfigStore.thy ===== *)
theory ConfigStore
  imports Endpoints Utils
begin

text \<open>
  \<^verbatim>\<open>pkg/configstore/configStore.go\<close>, the part that changes state. A \<^verbatim>\<open>*ConfigStore\<close> is an
  address of the heap; the world also holds the shared store map, the snapshot cache, the informer
  caches, the goroutines started and not yet run, and the metrics. What the program takes from
  libraries and from its surroundings is the environment: the snapshot cache's operations, the
  codecs, the certificate authority, the stream of UUIDs, and the iteration order of maps.
\<close>

record config_store =
  cs_Version :: string
  cs_Config :: config_type
  configEndpoints :: "lb_map option"
  lastEndpoints :: "resource list option"
  lastEndpointsArray :: "string list option"
  cs_secrets :: "secret list"
  isStoped :: bool

datatype goroutine = GPush nat string | GSave nat

record 'c world =
  heap :: "config_store list"
  StoreMap :: "(string \<times> nat) list"
  Cache :: 'c
  kube :: listers
  gos :: "goroutine list"
  uuids :: nat
  ticks :: nat
  w_metrics :: metric_state

record ('s, 'c) env =
  e_app :: app_config
  e_xds :: "('s, 'c) xds"
  e_loader :: loader
  e_crypto :: crypto
  e_ca :: ca_state
  e_clock :: "nat \<Rightarrow> nat \<Rightarrow> int"
  e_uuid :: "nat \<Rightarrow> string"
  e_order :: "nat \<Rightarrow> lb_map \<Rightarrow> lb_map"
  e_elapsed :: "nat \<Rightarrow> int"

abbreviation e_codec :: "('s, 'c) env \<Rightarrow> codec" where
  "e_codec E \<equiv> ld_codec (e_loader E)"

definition store :: "'c world \<Rightarrow> nat \<Rightarrow> config_store" where
  "store w a = heap w ! a"

definition upd_store :: "nat \<Rightarrow> (config_store \<Rightarrow> config_store) \<Rightarrow> 'c world \<Rightarrow> 'c world" where
  "upd_store a f w = w\<lparr>heap := (heap w)[a := f (store w a)]\<rparr>"

definition spawn :: "goroutine \<Rightarrow> 'c world \<Rightarrow> 'c world" where
  "spawn g w = w\<lparr>gos := gos w @ [g]\<rparr>"

definition count_metric :: "(metric_state \<Rightarrow> metric_state) \<Rightarrow> 'c world \<Rightarrow> 'c world" where
  "count_metric f w = w\<lparr>w_metrics := f (w_metrics w)\<rparr>"

definition next_tick :: "'c world \<Rightarrow> 'c world" where
  "next_tick w = w\<lparr>ticks := Suc (ticks w)\<rparr>"

definition issuer_of :: "('s, 'c) env \<Rightarrow> 'c world \<Rightarrow> issuer" where
  "issuer_of E w =
     \<lparr>is_crypto = e_crypto E, is_ca = e_ca E, is_clock = e_clock E (ticks w), is_nonce = ticks w\<rparr>"

section \<open>Saving endpoints\<close>

text \<open>The critical section at the end of \<^verbatim>\<open>saveLastEndpoints\<close>: nil and empty slices differ.\<close>

definition commit_endpoints :: "nat \<Rightarrow> resource list \<Rightarrow> string list \<Rightarrow> 'c world \<Rightarrow> 'c world" where
  "commit_endpoints a ep arr w =
     (if lastEndpointsArray (store w a) \<noteq> Some arr
      then spawn (GPush a ''new endpoints'')
             (upd_store a (\<lambda>cs. cs\<lparr>lastEndpoints := Some ep, lastEndpointsArray := Some arr\<rparr>) w)
      else w)"

definition prepared :: "('s, 'c) env \<Rightarrow> nat \<Rightarrow> 'c world \<Rightarrow> (resource list \<times> string list) option" where
  "prepared E a w =
     prepare_endpoints (e_order E (ticks w)) (kube w) (e_app E)
       (cs_Config (store w a)) (configEndpoints (store w a))"

definition saveLastEndpoints :: "('s, 'c) env \<Rightarrow> nat \<Rightarrow> 'c world \<Rightarrow> 'c world" where
  "saveLastEndpoints E a w =
     (let w1 = next_tick (count_metric (\<lambda>m. fst (TimeTrack ''saveLastEndpoints'' (e_elapsed E (ticks w)) m)) w)
      in case prepared E a w of
           None \<Rightarrow> w1
         | Some (ep, arr) \<Rightarrow> commit_endpoints a ep arr w1)"

section \<open>Operations of a store\<close>

definition hasStoped :: "nat \<Rightarrow> 'c world \<Rightarrow> bool" where
  "hasStoped a w = isStoped (store w a)"

definition NewPod :: "('s, 'c) env \<Rightarrow> nat \<Rightarrow> 'c world \<Rightarrow> 'c world" where
  "NewPod E a w = (if hasStoped a w then w else saveLastEndpoints E a w)"

definition NewEndpoint :: "('s, 'c) env \<Rightarrow> nat \<Rightarrow> 'c world \<Rightarrow> 'c world" where
  "NewEndpoint E a w = NewPod E a w"

definition DeletePod :: "('s, 'c) env \<Rightarrow> nat \<Rightarrow> 'c world \<Rightarrow> 'c world" where
  "DeletePod E a w = NewPod E a w"

text \<open>The loop that draws UUIDs until one differs from the current version; it may not end.\<close>

partial_function (option) new_version :: "(nat \<Rightarrow> string) \<Rightarrow> string \<Rightarrow> nat \<Rightarrow> (string \<times> nat) option" where
  "new_version uuid version n =
     (if uuid n \<noteq> version then Some (uuid n, Suc n) else new_version uuid version (Suc n))"

definition Push :: "('s, 'c) env \<Rightarrow> nat \<Rightarrow> string \<Rightarrow> 'c world \<Rightarrow> 'c world option" where
  "Push E a reason w =
     (let w = count_metric (Inc ConfigmapsstorePush) w
      in case new_version (e_uuid E) (cs_Version (store w a)) (uuids w) of
           None \<Rightarrow> None
         | Some (newVersion, n) \<Rightarrow>
             (let w = upd_store a (\<lambda>cs. cs\<lparr>cs_Version := newVersion\<rparr>) (w\<lparr>uuids := n\<rparr>);
                  cs = store w a
              in case GetConfigSnapshot (e_xds E) (cs_Version cs) (cs_Config cs)
                        (case lastEndpoints cs of None \<Rightarrow> [] | Some ep \<Rightarrow> ep) (cs_secrets cs) of
                   Inl err \<Rightarrow> Some w
                 | Inr snap \<Rightarrow>
                     Some (w\<lparr>Cache := snd (SetSnapshot (e_xds E) (ct_ID (cs_Config cs)) snap (Cache w))\<rparr>)))"

definition LoadNewSecrets :: "('s, 'c) env \<Rightarrow> nat \<Rightarrow> 'c world \<Rightarrow> (goerr option \<times> 'c world) outcome" where
  "LoadNewSecrets E a w =
     bind_outcome
       (NewSecrets (e_codec E) (e_app E) (issuer_of E w)
          (ct_Name (cs_Config (store w a))) (Validation (cs_Config (store w a))))
       (\<lambda>r. case wrap ''can not create secrets'' r of
          Inl e \<Rightarrow> Ret (Some e, next_tick w)
        | Inr secrets \<Rightarrow> Ret (None, upd_store a (\<lambda>cs. cs\<lparr>cs_secrets := secrets\<rparr>) (next_tick w)))"

text \<open>
  \<^verbatim>\<open>New\<close>: an error in the fixed endpoints is logged and leaves them nil; an error in the secrets is
  returned.
\<close>

definition New_store :: "('s, 'c) env \<Rightarrow> config_type \<Rightarrow> 'c world \<Rightarrow> ((goerr + nat) \<times> 'c world) outcome" where
  "New_store E config w =
     bind_outcome (getConfigEndpoints (e_codec E) config)
       (\<lambda>r. let cs = \<lparr>cs_Version = '''', cs_Config = config,
                      configEndpoints = (case r of Inl err \<Rightarrow> None | Inr m \<Rightarrow> Some m),
                      lastEndpoints = None, lastEndpointsArray = None, cs_secrets = [], isStoped = False\<rparr>;
                a = length (heap w);
                w = w\<lparr>heap := heap w @ [cs]\<rparr>
            in bind_outcome (LoadNewSecrets E a w)
                 (\<lambda>(err, w). case err of
                    Some e \<Rightarrow> Ret (Inl (Wrap ''error in LoadNewSecrets'' e), w)
                  | None \<Rightarrow> Ret (Inr a, saveLastEndpoints E a w)))"

definition GetLastEndpoints :: "nat \<Rightarrow> 'c world \<Rightarrow> string list" where
  "GetLastEndpoints a w = (case lastEndpointsArray (store w a) of None \<Rightarrow> [] | Some arr \<Rightarrow> arr)"

definition Stop :: "nat \<Rightarrow> 'c world \<Rightarrow> 'c world" where
  "Stop a w = upd_store a (\<lambda>cs. cs\<lparr>isStoped := True\<rparr>) w"

text \<open>The critical section of \<^verbatim>\<open>Sync\<close>: a missing snapshot is a nil interface, and its use panics.\<close>

definition sync_version :: "('s, 'c) env \<Rightarrow> nat \<Rightarrow> 'c world \<Rightarrow> 'c world outcome" where
  "sync_version E a w =
     (let cs = store w a
      in if lastEndpoints cs \<noteq> None then
           (case fst (GetSnapshot (e_xds E) (ct_ID (cs_Config cs)) (Cache w)) of
              None \<Rightarrow> Panic ''nil pointer dereference''
            | Some snap \<Rightarrow>
                (let snapVersion = GetVersionOf (e_xds E) snap EndpointType
                 in if length snapVersion > 0 \<and> snapVersion \<noteq> cs_Version cs
                    then Ret (spawn (GSave a)
                           (upd_store a (\<lambda>cs. cs\<lparr>lastEndpoints := None, lastEndpointsArray := None\<rparr>) w))
                    else Ret w))
         else Ret w)"

definition Sync :: "('s, 'c) env \<Rightarrow> nat \<Rightarrow> 'c world \<Rightarrow> 'c world outcome" where
  "Sync E a w = (if hasStoped a w then Ret w else sync_version E a (saveLastEndpoints E a w))"

text \<open>Running a started goroutine; \<open>None\<close> when it never ends.\<close>

fun run_go :: "('s, 'c) env \<Rightarrow> goroutine \<Rightarrow> 'c world \<Rightarrow> 'c world option" where
  "run_go E (GPush a reason) w = Push E a reason w"
| "run_go E (GSave a) w = Some (saveLastEndpoints E a w)"

text \<open>\<^verbatim>\<open>StoreMap.Range\<close> with a callback on every store.\<close>

definition Range_stores :: "(nat \<Rightarrow> 'c world \<Rightarrow> 'c world outcome) \<Rightarrow> 'c world \<Rightarrow> 'c world outcome" where
  "Range_stores op w = run_outcome op (map snd (StoreMap w)) w"

section \<open>Reading the world after an update\<close>

lemma store_upd_store:
  "store (upd_store a f w) b = (if b = a \<and> a < length (heap w) then f (store w a) else store w b)"
  by (cases "a < length (heap w)") (auto simp: store_def upd_store_def nth_list_update_neq list_update_beyond)

lemma upd_store_simps [simp]:
  "length (heap (upd_store a f w)) = length (heap w)"
  "StoreMap (upd_store a f w) = StoreMap w" "Cache (upd_store a f w) = Cache w"
  "kube (upd_store a f w) = kube w" "gos (upd_store a f w) = gos w" "uuids (upd_store a f w) = uuids w"
  "ticks (upd_store a f w) = ticks w" "w_metrics (upd_store a f w) = w_metrics w"
  by (simp_all add: upd_store_def)

lemma spawn_simps [simp]:
  "heap (spawn g w) = heap w" "StoreMap (spawn g w) = StoreMap w" "Cache (spawn g w) = Cache w"
  "kube (spawn g w) = kube w" "gos (spawn g w) = gos w @ [g]" "uuids (spawn g w) = uuids w"
  "ticks (spawn g w) = ticks w" "w_metrics (spawn g w) = w_metrics w" "store (spawn g w) a = store w a"
  by (simp_all add: spawn_def store_def)

lemma count_metric_simps [simp]:
  "heap (count_metric f w) = heap w" "StoreMap (count_metric f w) = StoreMap w"
  "Cache (count_metric f w) = Cache w" "kube (count_metric f w) = kube w" "gos (count_metric f w) = gos w"
  "uuids (count_metric f w) = uuids w" "ticks (count_metric f w) = ticks w"
  "w_metrics (count_metric f w) = f (w_metrics w)" "store (count_metric f w) a = store w a"
  by (simp_all add: count_metric_def store_def)

lemma next_tick_simps [simp]:
  "heap (next_tick w) = heap w" "StoreMap (next_tick w) = StoreMap w" "Cache (next_tick w) = Cache w"
  "kube (next_tick w) = kube w" "gos (next_tick w) = gos w" "uuids (next_tick w) = uuids w"
  "ticks (next_tick w) = Suc (ticks w)" "w_metrics (next_tick w) = w_metrics w"
  "store (next_tick w) a = store w a"
  by (simp_all add: next_tick_def store_def)

lemma store_field_updates [simp]:
  "store (w\<lparr>StoreMap := sm\<rparr>) a = store w a" "store (w\<lparr>Cache := c\<rparr>) a = store w a"
  "store (w\<lparr>kube := k\<rparr>) a = store w a" "store (w\<lparr>gos := g\<rparr>) a = store w a"
  "store (w\<lparr>uuids := u\<rparr>) a = store w a" "store (w\<lparr>ticks := t\<rparr>) a = store w a"
  by (simp_all add: store_def)

section \<open>What the operations keep\<close>

text \<open>
  \<open>same_but a w w'\<close>: only store \<open>a\<close> changed, and only in its saved endpoints; the map of stores, the
  cache and the informer caches are the same and nothing pending was lost.
\<close>

definition same_but :: "nat \<Rightarrow> 'c world \<Rightarrow> 'c world \<Rightarrow> bool" where
  "same_but a w w' \<longleftrightarrow>
     length (heap w') = length (heap w) \<and> (\<forall>b. b \<noteq> a \<longrightarrow> store w' b = store w b) \<and>
     cs_Version (store w' a) = cs_Version (store w a) \<and> cs_Config (store w' a) = cs_Config (store w a) \<and>
     configEndpoints (store w' a) = configEndpoints (store w a) \<and>
     cs_secrets (store w' a) = cs_secrets (store w a) \<and> isStoped (store w' a) = isStoped (store w a) \<and>
     StoreMap w' = StoreMap w \<and> Cache w' = Cache w \<and> kube w' = kube w \<and> set (gos w) \<subseteq> set (gos w')"

lemma same_but_refl [simp]: "same_but a w w"
  by (simp add: same_but_def)

lemma same_but_trans: "same_but a w1 w2 \<Longrightarrow> same_but a w2 w3 \<Longrightarrow> same_but a w1 w3"
  by (auto simp: same_but_def)

lemma same_but_commit: "same_but a w (commit_endpoints a ep arr w)"
  by (auto simp: same_but_def commit_endpoints_def store_upd_store)

lemma same_but_tick: "same_but a w (next_tick (count_metric f w))"
  by (simp add: same_but_def)

lemma same_but_save: "same_but a w (saveLastEndpoints E a w)"
  by (auto simp: saveLastEndpoints_def Let_def split: option.splits
      intro: same_but_tick same_but_trans [OF same_but_tick same_but_commit])

lemma same_but_sync_version: "sync_version E a w = Ret w' \<Longrightarrow> same_but a w w'"
  by (auto simp: sync_version_def Let_def same_but_def store_upd_store split: if_splits option.splits)

lemma same_but_Sync: "Sync E a w = Ret w' \<Longrightarrow> same_but a w w'"
  by (auto simp: Sync_def split: if_splits
      intro: same_but_trans [OF same_but_save same_but_sync_version])

text \<open>
  The contract of an operation the program runs on every store of the map: it leaves a stopped
  store alone and changes nothing but the saved endpoints of its own store.
\<close>

locale store_op =
  fixes op :: "nat \<Rightarrow> 'c world \<Rightarrow> 'c world outcome"
  assumes stopped_noop: "isStoped (store w a) \<Longrightarrow> op a w = Ret w"
    and op_frame: "op a w = Ret w' \<Longrightarrow> same_but a w w'"
begin

lemma range_frame:
  "run_outcome op as w = Ret w' \<Longrightarrow>
     (\<forall>b. b \<notin> set as \<longrightarrow> store w' b = store w b) \<and>
     (\<forall>b. isStoped (store w b) \<longrightarrow> store w' b = store w b) \<and>
     (\<forall>b. isStoped (store w' b) = isStoped (store w b) \<and> cs_Version (store w' b) = cs_Version (store w b)
        \<and> cs_Config (store w' b) = cs_Config (store w b) \<and> cs_secrets (store w' b) = cs_secrets (store w b)) \<and>
     length (heap w') = length (heap w) \<and> StoreMap w' = StoreMap w \<and> Cache w' = Cache w \<and> kube w' = kube w"
proof (induction "as" arbitrary: w)
  case (Cons a as)
  then obtain w1 where w1: "op a w = Ret w1" and rest: "run_outcome op as w1 = Ret w'" by auto
  note frame = op_frame [OF w1] and IH = Cons.IH [OF rest]
  have same: "store w1 b = store w b" if "b \<noteq> a \<or> isStoped (store w b)" for b
    using that frame w1 stopped_noop by (cases "b = a") (auto simp: same_but_def)
  show ?case
  proof (intro conjI allI impI)
    fix b
    show "store w' b = store w b" if "b \<notin> set (a # as)" using that IH same by simp
    show "store w' b = store w b" if "isStoped (store w b)" using that IH same by metis
  qed (use frame IH in \<open>auto simp: same_but_def\<close>)
qed auto

lemma broadcast_stopped:
  "Range_stores op w = Ret w' \<Longrightarrow> isStoped (store w b) \<Longrightarrow> store w' b = store w b"
  unfolding Range_stores_def using range_frame by blast

lemma broadcast_unlisted:
  "Range_stores op w = Ret w' \<Longrightarrow> b \<notin> snd ` set (StoreMap w) \<Longrightarrow> store w' b = store w b"
  unfolding Range_stores_def using range_frame [of "map snd (StoreMap w)" w w'] by simp

lemma broadcast_keeps:
  "Range_stores op w = Ret w' \<Longrightarrow>
     StoreMap w' = StoreMap w \<and> Cache w' = Cache w \<and> length (heap w') = length (heap w)"
  unfolding Range_stores_def using range_frame by blast

lemma all_stopped_noop:
  "\<forall>a \<in> set as. isStoped (store w a) \<Longrightarrow> run_outcome op as w = Ret w"
  by (induction "as") (simp_all add: stopped_noop)

end

interpretation on_pod: store_op "\<lambda>a w. Ret (NewPod E a w)"
  by unfold_locales (auto simp: NewPod_def hasStoped_def same_but_save)

interpretation on_delete: store_op "\<lambda>a w. Ret (DeletePod E a w)"
  by unfold_locales (auto simp: DeletePod_def NewPod_def hasStoped_def same_but_save)

interpretation on_endpoint: store_op "\<lambda>a w. Ret (NewEndpoint E a w)"
  by unfold_locales (auto simp: NewEndpoint_def NewPod_def hasStoped_def same_but_save)

interpretation on_sync: store_op "Sync E"
  by unfold_locales (auto simp: Sync_def hasStoped_def same_but_Sync dest: same_but_Sync)
section \<open>The version loop\<close>

lemma new_version_found:
  assumes "n \<le> k" and "\<And>i. n \<le> i \<Longrightarrow> i < k \<Longrightarrow> uuid i = v" and "uuid k \<noteq> v"
  shows "new_version uuid v n = Some (uuid k, Suc k)"
  using assms
proof (induction "k - n" arbitrary: n)
  case 0
  then show ?case by (simp add: new_version.simps [of uuid v n])
next
  case (Suc d)
  then have "n < k" "uuid n = v" by auto
  with Suc have "new_version uuid v (Suc n) = Some (uuid k, Suc k)" by simp
  with \<open>uuid n = v\<close> show ?case by (simp add: new_version.simps [of uuid v n])
qed

lemma new_version_exists:
  assumes ret: "new_version uuid v n = Some r"
  shows "\<exists>k \<ge> n. uuid k \<noteq> v"
proof (rule new_version.raw_induct [where P = "\<lambda>uuid v n r. \<exists>k \<ge> n. uuid k \<noteq> v", OF _ ret])
  fix f :: "(nat \<Rightarrow> string) \<Rightarrow> string \<Rightarrow> nat \<Rightarrow> (string \<times> nat) option" and uuid v n r
  assume IH: "\<And>uuid v n r. f uuid v n = Some r \<Longrightarrow> \<exists>k \<ge> n. uuid k \<noteq> v"
    and eq: "(if uuid n \<noteq> v then Some (uuid n, Suc n) else f uuid v (Suc n)) = Some r"
  show "\<exists>k \<ge> n. uuid k \<noteq> v"
  proof (cases "uuid n = v")
    case True
    with eq have "f uuid v (Suc n) = Some r" by simp
    from IH [OF this] show ?thesis using Suc_leD by blast
  qed auto
qed

lemma first_other:
  fixes n :: nat
  assumes "\<exists>k \<ge> n. uuid k \<noteq> v"
  obtains k where "n \<le> k" "uuid k \<noteq> v" "\<And>i. n \<le> i \<Longrightarrow> i < k \<Longrightarrow> uuid i = v"
proof -
  from assms have "\<exists>k. n \<le> k \<and> uuid k \<noteq> v" by blast
  then obtain k where "n \<le> k \<and> uuid k \<noteq> v" "\<forall>i < k. \<not> (n \<le> i \<and> uuid i \<noteq> v)"
    unfolding exists_least_iff [of "\<lambda>k. n \<le> k \<and> uuid k \<noteq> v"] by blast
  then show thesis using that [of k] by blast
qed

lemma new_version_iff:
  "new_version uuid v n = Some (u, m) \<longleftrightarrow>
     n < m \<and> u = uuid (m - 1) \<and> u \<noteq> v \<and> (\<forall>i. n \<le> i \<and> Suc i < m \<longrightarrow> uuid i = v)"
proof
  assume ret: "new_version uuid v n = Some (u, m)"
  from first_other [OF new_version_exists [OF ret]] obtain k where
    k: "n \<le> k" "uuid k \<noteq> v" "\<And>i. n \<le> i \<Longrightarrow> i < k \<Longrightarrow> uuid i = v" by blast
  with new_version_found [of n k uuid v] ret have "u = uuid k" "m = Suc k" by auto
  with k show "n < m \<and> u = uuid (m - 1) \<and> u \<noteq> v \<and> (\<forall>i. n \<le> i \<and> Suc i < m \<longrightarrow> uuid i = v)" by simp
next
  assume "n < m \<and> u = uuid (m - 1) \<and> u \<noteq> v \<and> (\<forall>i. n \<le> i \<and> Suc i < m \<longrightarrow> uuid i = v)"
  then show "new_version uuid v n = Some (u, m)"
    using new_version_found [of n "m - 1" uuid v] by auto
qed

lemma new_version_None: "new_version uuid v n = None \<longleftrightarrow> (\<forall>k \<ge> n. uuid k = v)"
proof
  assume none: "new_version uuid v n = None"
  show "\<forall>k \<ge> n. uuid k = v"
  proof (rule ccontr)
    assume "\<not> (\<forall>k \<ge> n. uuid k = v)"
    then have "\<exists>k \<ge> n. uuid k \<noteq> v" by blast
    from first_other [OF this] obtain k where "n \<le> k" "uuid k \<noteq> v" "\<And>i. n \<le> i \<Longrightarrow> i < k \<Longrightarrow> uuid i = v" by metis
    from new_version_found [of n k uuid v, OF this(1,3,2)] none show False by simp
  qed
next
  assume "\<forall>k \<ge> n. uuid k = v"
  then show "new_version uuid v n = None"
    using new_version_exists [of uuid v n] by (cases "new_version uuid v n") auto
qed

lemma Push_None_iff:
  "Push E a reason w = None \<longleftrightarrow> (\<forall>k \<ge> uuids w. e_uuid E k = cs_Version (store w a))"
  unfolding new_version_None [symmetric]
  by (auto simp: Push_def Let_def split: option.splits sum.splits)

section \<open>Pushing\<close>

definition published :: "config_store \<Rightarrow> resource list" where
  "published cs = (case lastEndpoints cs of None \<Rightarrow> [] | Some ep \<Rightarrow> ep)"

definition snapshot_of :: "('s, 'c) env \<Rightarrow> config_store \<Rightarrow> goerr + 's" where
  "snapshot_of E cs = GetConfigSnapshot (e_xds E) (cs_Version cs) (cs_Config cs) (published cs) (cs_secrets cs)"

lemma GetConfigSnapshot_version:
  "version_law X \<Longrightarrow> GetConfigSnapshot X v cfg ep secs = Inr s \<Longrightarrow> GetVersionOf X s t = v"
  by (cases t) (auto simp: GetConfigSnapshot_def Let_def intro!: version_lawD)

lemma Push_cases:
  assumes "Push E a reason w = Some w'" and "a < length (heap w)"
  obtains newVersion where
    "newVersion \<noteq> cs_Version (store w a)" "newVersion \<in> range (e_uuid E)"
    "store w' a = (store w a)\<lparr>cs_Version := newVersion\<rparr>" "\<And>b. b \<noteq> a \<Longrightarrow> store w' b = store w b"
    "Cache w' = (case snapshot_of E (store w' a) of
        Inl err \<Rightarrow> Cache w
      | Inr snap \<Rightarrow> snd (SetSnapshot (e_xds E) (ct_ID (cs_Config (store w a))) snap (Cache w)))"
    "length (heap w') = length (heap w)" "StoreMap w' = StoreMap w" "kube w' = kube w" "gos w' = gos w"
    "uuids w < uuids w'" "w_metrics w' = Inc ConfigmapsstorePush (w_metrics w)" "ticks w' = ticks w"
proof -
  let ?w1 = "count_metric (Inc ConfigmapsstorePush) w"
  from assms(1) obtain v n where nv: "new_version (e_uuid E) (cs_Version (store w a)) (uuids w) = Some (v, n)"
    by (auto simp: Push_def Let_def split: option.splits)
  let ?w2 = "upd_store a (\<lambda>cs. cs\<lparr>cs_Version := v\<rparr>) (?w1\<lparr>uuids := n\<rparr>)"
  have st: "store ?w2 a = (store w a)\<lparr>cs_Version := v\<rparr>" using assms(2) by (simp add: store_upd_store)
  have "w' = (case snapshot_of E (store ?w2 a) of
      Inl err \<Rightarrow> ?w2
    | Inr snap \<Rightarrow> ?w2\<lparr>Cache := snd (SetSnapshot (e_xds E) (ct_ID (cs_Config (store w a))) snap (Cache w))\<rparr>)"
    using assms(1) nv st
    by (auto simp: Push_def Let_def snapshot_of_def published_def split: option.splits sum.splits)
  with nv assms(2) show thesis
    by (intro that [of v]) (auto simp: new_version_iff store_upd_store split: sum.splits)
qed

section \<open>Well-formed worlds\<close>

definition valid_endpoints :: "resource list \<Rightarrow> bool" where
  "valid_endpoints ep \<longleftrightarrow> (\<exists>m. wf_gomap m \<and> \<not> isInvalidIP m \<and> ep = publishEp m)"

definition store_ok :: "config_store \<Rightarrow> bool" where
  "store_ok cs \<longleftrightarrow>
     wf_gomap (nilmap (configEndpoints cs)) \<and>
     (case lastEndpoints cs of
        None \<Rightarrow> lastEndpointsArray cs = None
      | Some ep \<Rightarrow> \<exists>m. wf_gomap m \<and> \<not> isInvalidIP m \<and> ep = publishEp m
                     \<and> lastEndpointsArray cs = Some (sort (publishEpArray m)))"

fun go_addr :: "goroutine \<Rightarrow> nat" where
  "go_addr (GPush a _) = a"
| "go_addr (GSave a) = a"

definition world_ok :: "'c world \<Rightarrow> bool" where
  "world_ok w \<longleftrightarrow>
     (\<forall>a < length (heap w). store_ok (store w a)) \<and>
     (\<forall>a \<in> snd ` set (StoreMap w). a < length (heap w)) \<and>
     (\<forall>g \<in> set (gos w). go_addr g < length (heap w)) \<and>
     wf_gomap (StoreMap w)"

definition order_law :: "('s, 'c) env \<Rightarrow> bool" where
  "order_law E \<longleftrightarrow> (\<forall>n m. mset (e_order E n m) = mset m)"

lemma valid_endpoints_Nil [simp]: "valid_endpoints []"
  unfolding valid_endpoints_def by (rule exI [of _ "[]"]) (simp add: isInvalidIP_def cluster_members_def publishEp_def)

lemma store_ok_published: "store_ok cs \<Longrightarrow> valid_endpoints (published cs)"
  by (auto simp: store_ok_def published_def valid_endpoints_def split: option.splits
      intro: valid_endpoints_Nil [unfolded valid_endpoints_def])

lemma prepared_Some:
  assumes "order_law E" and "store_ok (store w a)" and "prepared E a w = Some (ep, arr)"
  shows "\<exists>m. wf_gomap m \<and> \<not> isInvalidIP m \<and> ep = publishEp m \<and> arr = sort (publishEpArray m)"
proof -
  from assms(3) obtain eps where eps: "getLocalityLbEndpoints (kube w) (e_app E) (cs_Config (store w a)) = Inr eps"
    by (auto simp: prepared_def prepare_endpoints_def split: sum.splits)
  let ?m = "merge_endpoints (configEndpoints (store w a)) eps"
  have "wf_gomap ?m" using assms(2) by (simp add: store_ok_def wf_merge_endpoints)
  with assms(1) have "wf_gomap (e_order E (ticks w) ?m)"
    using wf_gomap_perm [of "e_order E (ticks w) ?m" ?m] by (simp add: order_law_def)
  with assms(3) eps show ?thesis
    by (auto simp: prepared_def prepare_endpoints_def Let_def split: if_splits)
qed

lemma store_ok_fields [simp]:
  "store_ok (cs\<lparr>cs_Version := v\<rparr>) = store_ok cs"
  "store_ok (cs\<lparr>cs_secrets := s\<rparr>) = store_ok cs"
  "store_ok (cs\<lparr>isStoped := b\<rparr>) = store_ok cs"
  by (simp_all add: store_ok_def split: option.split)

lemma upd_ok:
  assumes "world_ok w" and "store_ok (store w a) \<Longrightarrow> store_ok (f (store w a))"
  shows "world_ok (upd_store a f w)"
  using assms unfolding world_ok_def by (auto simp: store_upd_store)

lemma spawn_ok: "world_ok (spawn g w) \<longleftrightarrow> world_ok w \<and> go_addr g < length (heap w)"
  by (auto simp: world_ok_def)

lemma tick_ok [simp]: "world_ok (count_metric f w) = world_ok w" "world_ok (next_tick w) = world_ok w"
  by (simp_all add: world_ok_def)

lemma world_okD: "world_ok w \<Longrightarrow> a < length (heap w) \<Longrightarrow> store_ok (store w a)"
  by (simp add: world_ok_def)

lemma file_ok:
  assumes "world_ok w" and "a < length (heap w)"
  shows "world_ok (w\<lparr>StoreMap := AList.update n a (StoreMap w)\<rparr>)"
  using assms set_update_subset [of n a "StoreMap w"] by (fastforce simp: world_ok_def)

lemma unfile_ok: "world_ok w \<Longrightarrow> world_ok (w\<lparr>StoreMap := AList.delete n (StoreMap w)\<rparr>)"
  using set_delete_subset [of n "StoreMap w"] by (auto simp: world_ok_def)

lemma commit_ok:
  assumes "world_ok w" and "a < length (heap w)"
    and "\<exists>m. wf_gomap m \<and> \<not> isInvalidIP m \<and> ep = publishEp m \<and> arr = sort (publishEpArray m)"
  shows "world_ok (commit_endpoints a ep arr w)"
  using assms by (auto simp: commit_endpoints_def spawn_ok store_ok_def intro!: upd_ok)

lemma save_ok:
  assumes "order_law E" and "world_ok w" and "a < length (heap w)"
  shows "world_ok (saveLastEndpoints E a w)"
proof (cases "prepared E a w")
  case None
  with assms show ?thesis by (simp add: saveLastEndpoints_def Let_def)
next
  case (Some p)
  obtain ep arr where p: "p = (ep, arr)" by force
  have "store_ok (store w a)" using assms by (simp add: world_ok_def)
  from prepared_Some [OF assms(1) this] Some p assms show ?thesis
    by (auto simp: saveLastEndpoints_def Let_def intro: commit_ok)
qed

lemma sync_version_ok:
  assumes "world_ok w" and "a < length (heap w)" and "sync_version E a w = Ret w'"
  shows "world_ok w'"
  using assms by (auto simp: sync_version_def Let_def spawn_ok store_ok_def intro!: upd_ok
      split: if_splits option.splits)

lemma Sync_ok:
  assumes "order_law E" and "world_ok w" and "a < length (heap w)" and "Sync E a w = Ret w'"
  shows "world_ok w'"
proof -
  have "a < length (heap (saveLastEndpoints E a w))" using same_but_save [of a w E] assms(3) by (simp add: same_but_def)
  with save_ok [OF assms(1,2,3)] assms show ?thesis
    by (auto simp: Sync_def split: if_splits intro: sync_version_ok)
qed

lemma Push_ok:
  assumes "world_ok w" and "a < length (heap w)" and "Push E a reason w = Some w'"
  shows "world_ok w'"
proof -
  from Push_cases [OF assms(3,2)] obtain v where
    "store w' a = (store w a)\<lparr>cs_Version := v\<rparr>" "\<And>b. b \<noteq> a \<Longrightarrow> store w' b = store w b"
    "length (heap w') = length (heap w)" "StoreMap w' = StoreMap w" "gos w' = gos w" by metis
  note w' = this
  have "store_ok (store w' b)" if "b < length (heap w)" for b
    using w'(1,2) that world_okD [OF assms(1)] by (cases "b = a") simp_all
  with w' assms(1) show ?thesis by (simp add: world_ok_def)
qed

lemma Stop_ok: "world_ok w \<Longrightarrow> world_ok (Stop a w)"
  unfolding Stop_def by (rule upd_ok) simp_all

abbreviation secrets_for :: "('s, 'c) env \<Rightarrow> nat \<Rightarrow> 'c world \<Rightarrow> (goerr + secret list) outcome" where
  "secrets_for E a w \<equiv> NewSecrets (e_codec E) (e_app E) (issuer_of E w)
     (ct_Name (cs_Config (store w a))) (Validation (cs_Config (store w a)))"

lemma LoadNewSecrets_eq:
  "secrets_for E a w = Ret (Inl err) \<Longrightarrow>
     LoadNewSecrets E a w = Ret (Some (Wrap ''can not create secrets'' err), next_tick w)"
  "secrets_for E a w = Ret (Inr s) \<Longrightarrow>
     LoadNewSecrets E a w = Ret (None, upd_store a (\<lambda>cs. cs\<lparr>cs_secrets := s\<rparr>) (next_tick w))"
  by (simp_all add: LoadNewSecrets_def)

lemma LoadNewSecrets_cases:
  obtains (fail) err where "secrets_for E a w = Ret (Inl err)"
      "LoadNewSecrets E a w = Ret (Some (Wrap ''can not create secrets'' err), next_tick w)"
  | (made) s where "secrets_for E a w = Ret (Inr s)"
      "LoadNewSecrets E a w = Ret (None, upd_store a (\<lambda>cs. cs\<lparr>cs_secrets := s\<rparr>) (next_tick w))"
proof -
  obtain r where r: "secrets_for E a w = Ret r" using NewSecrets_returns by blast
  show thesis
  proof (cases r)
    case (Inl err)
    with r LoadNewSecrets_eq(1) fail show thesis by metis
  next
    case (Inr s)
    with r LoadNewSecrets_eq(2) made show thesis by metis
  qed
qed

lemma LoadNewSecrets_ok:
  assumes "world_ok w" and "LoadNewSecrets E a w = Ret (e, w')"
  shows "world_ok w' \<and> length (heap w') = length (heap w) \<and> Cache w' = Cache w \<and> StoreMap w' = StoreMap w
    \<and> kube w' = kube w \<and> gos w' = gos w"
  using assms by (cases rule: LoadNewSecrets_cases [of E w a]) (auto intro!: upd_ok)

lemma collect_assignments_Ret:
  "\<forall>r \<in> set eps. resource_class r = OEndpoint \<Longrightarrow> wf_gomap m \<Longrightarrow>
     \<exists>m'. collect_assignments eps m = Ret m' \<and> wf_gomap m'"
proof (induction eps arbitrary: m)
  case (Cons r eps)
  then show ?case by (cases r) auto
qed simp

lemma getConfigEndpoints_Ret:
  "\<exists>r. getConfigEndpoints C config = Ret r \<and> (\<forall>m. r = Inr m \<longrightarrow> wf_gomap m)"
proof (cases "YamlToResources C (ct_Endpoints config) OEndpoint")
  case (Inr eps)
  from collect_assignments_Ret [OF YamlToResources_class [OF Inr], of "[]"] Inr show ?thesis
    by (auto simp: getConfigEndpoints_def)
qed (simp add: getConfigEndpoints_def)

text \<open>The store \<^verbatim>\<open>New\<close> puts together before the secrets are issued.\<close>

definition fresh_store :: "codec \<Rightarrow> config_type \<Rightarrow> config_store" where
  "fresh_store C config =
     \<lparr>cs_Version = '''', cs_Config = config,
      configEndpoints = (case getConfigEndpoints C config of Ret (Inr m) \<Rightarrow> Some m | _ \<Rightarrow> None),
      lastEndpoints = None, lastEndpointsArray = None, cs_secrets = [], isStoped = False\<rparr>"

lemma fresh_store_ok: "store_ok (fresh_store C config)"
  using getConfigEndpoints_Ret [of C config] by (auto simp: store_ok_def fresh_store_def split: sum.splits)

definition with_store :: "config_store \<Rightarrow> 'c world \<Rightarrow> 'c world" where
  "with_store cs w = w\<lparr>heap := heap w @ [cs]\<rparr>"

lemma with_store_simps [simp]:
  "length (heap (with_store cs w)) = Suc (length (heap w))" "StoreMap (with_store cs w) = StoreMap w"
  "Cache (with_store cs w) = Cache w" "kube (with_store cs w) = kube w" "gos (with_store cs w) = gos w"
  "store (with_store cs w) (length (heap w)) = cs"
  "a < length (heap w) \<Longrightarrow> store (with_store cs w) a = store w a"
  by (simp_all add: with_store_def store_def nth_append)

lemma with_store_ok: "world_ok w \<Longrightarrow> store_ok cs \<Longrightarrow> world_ok (with_store cs w)"
  unfolding world_ok_def by (auto simp: less_Suc_eq)

lemma New_store_eq:
  "New_store E config w =
     (let w1 = with_store (fresh_store (e_codec E) config) w; a = length (heap w)
      in bind_outcome (LoadNewSecrets E a w1)
           (\<lambda>(err, w2). case err of
              Some e \<Rightarrow> Ret (Inl (Wrap ''error in LoadNewSecrets'' e), w2)
            | None \<Rightarrow> Ret (Inr a, saveLastEndpoints E a w2)))"
  using getConfigEndpoints_Ret [of "e_codec E" config]
  by (auto simp: New_store_def with_store_def fresh_store_def Let_def)

lemma New_store_cases:
  obtains (fail) e w' where "New_store E config w = Ret (Inl e, w')"
      "world_ok w \<Longrightarrow> world_ok w'" "Cache w' = Cache w" "StoreMap w' = StoreMap w" "gos w' = gos w"
      "kube w' = kube w" "length (heap w') = Suc (length (heap w))"
      "\<And>b. b < length (heap w) \<Longrightarrow> store w' b = store w b"
  | (made) w2 where "New_store E config w = Ret (Inr (length (heap w)), saveLastEndpoints E (length (heap w)) w2)"
      "world_ok w \<Longrightarrow> world_ok w2" "Cache w2 = Cache w" "StoreMap w2 = StoreMap w" "gos w2 = gos w"
      "kube w2 = kube w" "length (heap w2) = Suc (length (heap w))"
      "\<And>b. b < length (heap w) \<Longrightarrow> store w2 b = store w b"
      "\<exists>s. store w2 (length (heap w)) = (fresh_store (e_codec E) config)\<lparr>cs_secrets := s\<rparr>"
proof -
  let ?a = "length (heap w)"
  let ?w1 = "with_store (fresh_store (e_codec E) config) w"
  have ok: "world_ok w \<Longrightarrow> world_ok ?w1" by (simp add: with_store_ok fresh_store_ok)
  show thesis
  proof (cases rule: LoadNewSecrets_cases [of E ?w1 ?a])
    case (fail err)
    with ok show thesis
      by (intro that(1) [of "Wrap ''error in LoadNewSecrets'' (Wrap ''can not create secrets'' err)" "next_tick ?w1"])
        (auto simp: New_store_eq Let_def)
  next
    case (made s)
    with ok show thesis
      by (intro that(2) [of "upd_store ?a (\<lambda>cs. cs\<lparr>cs_secrets := s\<rparr>) (next_tick ?w1)"])
        (auto simp: New_store_eq Let_def store_upd_store intro!: upd_ok)
  qed
qed

lemma New_store_ok:
  assumes "order_law E" and "world_ok w" and "New_store E config w = Ret (r, w')"
  shows "world_ok w' \<and> Cache w' = Cache w \<and> StoreMap w' = StoreMap w \<and> length (heap w') = Suc (length (heap w))
    \<and> (\<forall>b < length (heap w). store w' b = store w b)
    \<and> (\<forall>a. r = Inr a \<longrightarrow> a = length (heap w) \<and> \<not> isStoped (store w' a) \<and> cs_Config (store w' a) = config)"
proof (cases rule: New_store_cases [of E config w])
  case (fail e w1)
  with assms show ?thesis by auto
next
  case (made w2)
  let ?a = "length (heap w)"
  from made(9) have "\<not> isStoped (store w2 ?a)" "cs_Config (store w2 ?a) = config" by (auto simp: fresh_store_def)
  with made assms same_but_save [of ?a w2 E] save_ok [OF assms(1), of w2 ?a] show ?thesis
    by (auto simp: same_but_def)
qed

section \<open>Where a served snapshot comes from\<close>

text \<open>
  The endpoints a configuration can be given: its own fixed endpoints together with what the lookups
  of this configuration return in some state of the cluster, and no invalid address among them.
\<close>

definition computed :: "('s, 'c) env \<Rightarrow> config_type \<Rightarrow> resource list \<Rightarrow> bool" where
  "computed E cfg ep \<longleftrightarrow>
     (\<exists>L n arr. prepare_endpoints (e_order E n) L (e_app E) cfg
        (configEndpoints (fresh_store (e_codec E) cfg)) = Some (ep, arr))"

definition traced :: "('s, 'c) env \<Rightarrow> config_store \<Rightarrow> bool" where
  "traced E cs \<longleftrightarrow>
     configEndpoints cs = configEndpoints (fresh_store (e_codec E) (cs_Config cs)) \<and>
     (\<forall>ep. lastEndpoints cs = Some ep \<longrightarrow> computed E (cs_Config cs) ep)"

text \<open>
  Every snapshot served to a node was built from the configuration of a store of that node and from
  endpoints computed for that configuration.
\<close>

definition served_from :: "('s, 'c) env \<Rightarrow> config_type \<Rightarrow> 's \<Rightarrow> bool" where
  "served_from E cfg s \<longleftrightarrow>
     (\<exists>v ep secs. (ep = [] \<or> computed E cfg ep) \<and> valid_endpoints ep \<and> GetConfigSnapshot (e_xds E) v cfg ep secs = Inr s)"

definition cache_ok :: "('s, 'c) env \<Rightarrow> 'c world \<Rightarrow> bool" where
  "cache_ok E w \<longleftrightarrow>
     (\<forall>n s. fst (GetSnapshot (e_xds E) n (Cache w)) = Some s \<longrightarrow>
        (\<exists>a < length (heap w). ct_ID (cs_Config (store w a)) = n \<and> served_from E (cs_Config (store w a)) s))"

lemma traced_fields [simp]:
  "traced E (cs\<lparr>cs_Version := v\<rparr>) = traced E cs"
  "traced E (cs\<lparr>cs_secrets := s\<rparr>) = traced E cs"
  "traced E (cs\<lparr>isStoped := b\<rparr>) = traced E cs"
  by (simp_all add: traced_def)

lemma traced_fresh [simp]: "traced E (fresh_store (e_codec E) cfg)"
  by (simp add: traced_def fresh_store_def)

lemma prepared_computed: "traced E (store w a) \<Longrightarrow> prepared E a w = Some (ep, arr) \<Longrightarrow> computed E (cs_Config (store w a)) ep"
  unfolding prepared_def computed_def traced_def by metis

lemma commit_traced:
  "traced E (store w a) \<Longrightarrow> computed E (cs_Config (store w a)) ep \<Longrightarrow> traced E (store (commit_endpoints a ep arr w) a)"
  by (auto simp: commit_endpoints_def store_upd_store traced_def)

lemma save_traced: "traced E (store w a) \<Longrightarrow> traced E (store (saveLastEndpoints E a w) a)"
  by (auto simp: saveLastEndpoints_def Let_def prepared_computed intro!: commit_traced split: option.split)

lemma sync_version_traced: "traced E (store w a) \<Longrightarrow> sync_version E a w = Ret w' \<Longrightarrow> traced E (store w' a)"
  by (auto simp: sync_version_def Let_def store_upd_store traced_def split: if_splits option.splits)

lemma New_store_traced:
  assumes "New_store E config w = Ret (r, w')"
  shows "traced E (store w' (length (heap w)))"
proof -
  let ?a = "length (heap w)" and ?w1 = "with_store (fresh_store (e_codec E) config) w"
  show ?thesis
  proof (cases rule: LoadNewSecrets_cases [of E ?w1 ?a])
    case (fail err)
    with assms show ?thesis by (auto simp: New_store_eq Let_def)
  next
    case (made s)
    with assms show ?thesis by (auto simp: New_store_eq Let_def store_upd_store intro!: save_traced)
  qed
qed

lemma Push_cache_ok:
  assumes "cache_laws (e_xds E)" and "world_ok w" and "a < length (heap w)" and "traced E (store w a)"
    and "Push E a reason w = Some w'" and "cache_ok E w"
  shows "cache_ok E w'"
  unfolding cache_ok_def
proof (intro allI impI)
  let ?X = "e_xds E" and ?cfg = "cs_Config (store w a)"
  fix n s assume s: "fst (GetSnapshot ?X n (Cache w')) = Some s"
  from Push_cases [OF assms(5,3)] obtain v where
    st: "store w' a = (store w a)\<lparr>cs_Version := v\<rparr>" "\<And>b. b \<noteq> a \<Longrightarrow> store w' b = store w b"
      "length (heap w') = length (heap w)" and
    cache: "Cache w' = (case snapshot_of E (store w' a) of
      Inl err \<Rightarrow> Cache w | Inr snap \<Rightarrow> snd (SetSnapshot ?X (ct_ID ?cfg) snap (Cache w)))" by metis
  have cfg: "cs_Config (store w' b) = cs_Config (store w b)" for b using st by (cases "b = a") auto
  consider "fst (GetSnapshot ?X n (Cache w)) = Some s" | "n = ct_ID ?cfg" "snapshot_of E (store w' a) = Inr s"
  proof (cases "snapshot_of E (store w' a)")
    case (Inl err)
    with cache s that show thesis by simp
  next
    case (Inr snap)
    with cache obtain e where set: "SetSnapshot ?X (ct_ID ?cfg) snap (Cache w) = (e, Cache w')"
      by (metis prod.collapse sum.simps(6))
    show thesis
      using cache_set_other [OF assms(1) set, of n] cache_set_any [OF assms(1) set] s Inr that
      by (cases "n = ct_ID ?cfg") auto
  qed
  then show "\<exists>b < length (heap w'). ct_ID (cs_Config (store w' b)) = n \<and> served_from E (cs_Config (store w' b)) s"
  proof cases
    case 1
    with assms(6) st(3) cfg show ?thesis by (simp add: cache_ok_def)
  next
    case 2
    have "valid_endpoints (published (store w a))" by (rule store_ok_published [OF world_okD [OF assms(2,3)]])
    moreover have "published (store w a) = [] \<or> computed E ?cfg (published (store w a))"
      using assms(4) by (auto simp: traced_def published_def split: option.split)
    ultimately have "served_from E ?cfg s"
      using 2(2) st(1) unfolding served_from_def by (auto simp: snapshot_of_def published_def)
    with 2(1) assms(3) st(3) cfg show ?thesis by (intro exI [of _ a]) simp
  qed
qed

section \<open>Properties of saving\<close>

definition assignments :: "resource list \<Rightarrow> lb_map" where
  "assignments rs = concat (map (\<lambda>r. case r of REndpoint c \<Rightarrow> [(cla_ClusterName c, cla_Endpoints c)] | _ \<Rightarrow> []) rs)"

lemma assignments_publishEp [simp]: "assignments (publishEp m) = m"
  by (induction m) (auto simp: assignments_def publishEp_def)

text \<open>The (cluster, zone, priority, address, port, health port) tuples a store has published.\<close>

definition published_keys :: "config_store \<Rightarrow> key_tuple list" where
  "published_keys cs = map key_view (cluster_members (assignments (published cs)))"

text \<open>What the cluster and the fixed endpoints of the store say now.\<close>

definition current_map :: "('s, 'c) env \<Rightarrow> nat \<Rightarrow> 'c world \<Rightarrow> goerr + lb_map" where
  "current_map E a w =
     map_sum id (merge_endpoints (configEndpoints (store w a)))
       (getLocalityLbEndpoints (kube w) (e_app E) (cs_Config (store w a)))"

lemma prepared_cases [consumes 1]:
  assumes "order_law E"
  obtains (lookup_error) e where "current_map E a w = Inl e" "prepared E a w = None"
  | (invalid) m where "current_map E a w = Inr m" "isInvalidIP m" "prepared E a w = None"
  | (usable) m m' where "current_map E a w = Inr m" "\<not> isInvalidIP m" "mset m' = mset m"
      "prepared E a w = Some (publishEp m', sort (publishEpArray m))"
proof (cases "getLocalityLbEndpoints (kube w) (e_app E) (cs_Config (store w a))")
  case (Inl e)
  then show thesis using lookup_error by (simp add: current_map_def prepared_def prepare_endpoints_def)
next
  case (Inr eps)
  let ?m = "merge_endpoints (configEndpoints (store w a)) eps"
  let ?m' = "e_order E (ticks w) ?m"
  have perm: "mset ?m' = mset ?m" using assms by (simp add: order_law_def)
  have cur: "current_map E a w = Inr ?m" using Inr by (simp add: current_map_def)
  show thesis
  proof (cases "isInvalidIP ?m")
    case True
    with isInvalidIP_perm [OF perm] Inr cur invalid show thesis
      by (simp add: prepared_def prepare_endpoints_def)
  next
    case False
    with isInvalidIP_perm [OF perm] publishEpArray_perm [OF perm] Inr cur perm usable [of ?m ?m'] show thesis
      by (simp add: prepared_def prepare_endpoints_def)
  qed
qed

lemma save_None: "prepared E a w = None \<Longrightarrow>
    heap (saveLastEndpoints E a w) = heap w \<and> gos (saveLastEndpoints E a w) = gos w"
  by (simp add: saveLastEndpoints_def Let_def)

lemma save_Some:
  assumes "prepared E a w = Some (ep, arr)" and "a < length (heap w)"
  shows "store (saveLastEndpoints E a w) a =
      (if lastEndpointsArray (store w a) = Some arr then store w a
       else (store w a)\<lparr>lastEndpoints := Some ep, lastEndpointsArray := Some arr\<rparr>)"
    and "gos (saveLastEndpoints E a w) =
      (if lastEndpointsArray (store w a) = Some arr then gos w else gos w @ [GPush a ''new endpoints''])"
  using assms by (simp_all add: saveLastEndpoints_def Let_def commit_endpoints_def store_upd_store)

lemma current_map_save: "current_map E a (saveLastEndpoints E a w) = current_map E a w"
  using same_but_save [of a w E] by (simp add: current_map_def same_but_def)

lemma save_length [simp]: "length (heap (saveLastEndpoints E a w)) = length (heap w)"
  using same_but_save [of a w E] by (simp add: same_but_def)

text \<open>
  Property (C1). Saving reflects the cluster: when the lookups succeed and every address is
  valid, after \<^verbatim>\<open>saveLastEndpoints\<close> the store has published exactly the current endpoints (as
  tuples of cluster, zone, priority, address, port and health port), and a push was scheduled
  exactly when nothing had been published before or one of these tuples changed.
\<close>

theorem save_reflects_cluster:
  assumes "order_law E" and "world_ok w" and "a < length (heap w)"
    and cur: "current_map E a w = Inr m" and "\<not> isInvalidIP m"
    and bars: "bar_free m" "bar_free (assignments (published (store w a)))"
  shows "let w' = saveLastEndpoints E a w in
    lastEndpoints (store w' a) \<noteq> None \<and>
    mset (published_keys (store w' a)) = mset (map key_view (cluster_members m)) \<and>
    (gos w' = gos w \<longleftrightarrow> lastEndpoints (store w a) \<noteq> None \<and>
       mset (published_keys (store w a)) = mset (map key_view (cluster_members m)))"
proof -
  let ?V = "\<lambda>m. mset (map key_view (cluster_members m))"
  from assms(1) cur assms(5) obtain m' where perm: "mset m' = mset m"
    and p: "prepared E a w = Some (publishEp m', sort (publishEpArray m))"
    by (cases rule: prepared_cases [of E a w]) auto
  have V': "?V m' = ?V m" using cluster_members_perm [OF perm] by simp
  show ?thesis
  proof (cases "lastEndpoints (store w a)")
    case None
    then have "lastEndpointsArray (store w a) = None" using world_okD [OF assms(2,3)] by (simp add: store_ok_def)
    with None save_Some [OF p assms(3)] V' show ?thesis
      by (simp add: Let_def published_keys_def published_def)
  next
    case (Some ep)
    then obtain m0 where m0: "\<not> isInvalidIP m0" "ep = publishEp m0"
      "lastEndpointsArray (store w a) = Some (sort (publishEpArray m0))"
      using world_okD [OF assms(2,3)] by (auto simp: store_ok_def)
    from bars(2) Some m0(2) have bar0: "bar_free m0" by (simp add: published_def)
    have iff: "sort (publishEpArray m0) = sort (publishEpArray m) \<longleftrightarrow> ?V m0 = ?V m"
      by (rule sorted_keys_iff [OF bar0 bars(1) m0(1) assms(5)])
    from save_Some [OF p assms(3)] Some m0 iff V' show ?thesis
      by (auto simp: Let_def published_keys_def published_def)
  qed
qed

text \<open>
  Property (C16). A failed lookup or an invalid address publishes nothing: the stores, the pending
  pushes and the served snapshots stay as they were.
\<close>

theorem save_rejects:
  assumes "order_law E" and "isl (current_map E a w) \<or> isInvalidIP (projr (current_map E a w))"
  shows "let w' = saveLastEndpoints E a w in heap w' = heap w \<and> gos w' = gos w \<and> Cache w' = Cache w"
proof -
  have "prepared E a w = None"
    using assms by (cases rule: prepared_cases [of E a w]) auto
  from save_None [OF this] same_but_save [of a w E] show ?thesis by (simp add: Let_def same_but_def)
qed

text \<open>
  Property (C29). Saving again without a change in the cluster schedules no second push and leaves
  the store as it is, whatever order the maps are iterated in the second time.
\<close>

theorem save_idempotent:
  assumes "order_law E" and "a < length (heap w)"
  shows "let w1 = saveLastEndpoints E a w; w2 = saveLastEndpoints E a w1
    in store w2 a = store w1 a \<and> gos w2 = gos w1"
proof -
  let ?w1 = "saveLastEndpoints E a w"
  have len: "a < length (heap ?w1)" using assms(2) by simp
  from assms(1) show ?thesis
  proof (cases rule: prepared_cases [of E a ?w1])
    case (usable m m')
    have cur: "current_map E a w = Inr m" using usable(1) current_map_save by metis
    from assms(1) usable(2) cur obtain m0 where
      "prepared E a w = Some (publishEp m0, sort (publishEpArray m))"
      by (cases rule: prepared_cases [of E a w]) auto
    from save_Some [OF this assms(2)] have "lastEndpointsArray (store ?w1 a) = Some (sort (publishEpArray m))"
      by (simp split: if_splits)
    with save_Some [OF usable(4) len] show ?thesis by (simp add: Let_def)
  qed (use save_None [of E a ?w1] in \<open>simp_all add: Let_def store_def\<close>)
qed

section \<open>Properties of pushing and synchronising\<close>

text \<open>The calls of go-control-plane succeed; an error is only logged by the program.\<close>

definition calls_succeed :: "('s, 'c) xds \<Rightarrow> bool" where
  "calls_succeed X \<longleftrightarrow>
     (\<forall>v rs. \<exists>s. NewSnapshot X v rs = Inr s) \<and> (\<forall>n s c. fst (SetSnapshot X n s c) = None)"

lemma calls_succeed_snapshot: "calls_succeed X \<Longrightarrow> \<exists>s. GetConfigSnapshot X v cfg ep secs = Inr s"
  by (simp add: calls_succeed_def GetConfigSnapshot_def Let_def)

lemma Push_serves:
  assumes laws: "cache_laws (e_xds E)" "version_law (e_xds E)" "calls_succeed (e_xds E)"
    and "a < length (heap w)" and "Push E a reason w = Some w'"
  obtains snap where
    "GetSnapshot (e_xds E) (ct_ID (cs_Config (store w a))) (Cache w') = (Some snap, None)"
    "snapshot_of E (store w' a) = Inr snap" "\<And>t. GetVersionOf (e_xds E) snap t = cs_Version (store w' a)"
    "\<And>n. n \<noteq> ct_ID (cs_Config (store w a)) \<Longrightarrow>
       GetSnapshot (e_xds E) n (Cache w') = GetSnapshot (e_xds E) n (Cache w)"
proof -
  let ?X = "e_xds E" and ?n = "ct_ID (cs_Config (store w a))"
  obtain snap where snap: "snapshot_of E (store w' a) = Inr snap"
    using calls_succeed_snapshot [OF laws(3)] by (metis snapshot_of_def)
  have "Cache w' = (case snapshot_of E (store w' a) of
      Inl err \<Rightarrow> Cache w | Inr snap \<Rightarrow> snd (SetSnapshot ?X ?n snap (Cache w)))"
    by (rule Push_cases [OF assms(5,4)])
  with snap laws(3) have set: "SetSnapshot ?X ?n snap (Cache w) = (None, Cache w')"
    by (auto simp: calls_succeed_def prod_eq_iff)
  from snap have "GetVersionOf ?X snap t = cs_Version (store w' a)" for t
    unfolding snapshot_of_def by (rule GetConfigSnapshot_version [OF laws(2)])
  with snap cache_set [OF laws(1) set] cache_set_other [OF laws(1) set] show thesis by (intro that) auto
qed

text \<open>
  Property (C2). A push gives the store a version it did not have and serves to the store's node,
  and to no other, a snapshot made of the store's configuration, published endpoints and secrets
  in which every resource type carries that version; nothing else of the store changes and no
  other store changes.
\<close>

theorem push_serves_store:
  assumes "cache_laws (e_xds E)" and "version_law (e_xds E)" and "calls_succeed (e_xds E)"
    and "a < length (heap w)" and "Push E a reason w = Some w'"
  shows "\<exists>v snap. v \<noteq> cs_Version (store w a) \<and> store w' a = (store w a)\<lparr>cs_Version := v\<rparr> \<and>
    (\<forall>b. b \<noteq> a \<longrightarrow> store w' b = store w b) \<and>
    GetConfigSnapshot (e_xds E) v (cs_Config (store w a)) (published (store w a)) (cs_secrets (store w a)) = Inr snap \<and>
    GetSnapshot (e_xds E) (ct_ID (cs_Config (store w a))) (Cache w') = (Some snap, None) \<and>
    (\<forall>t. GetVersionOf (e_xds E) snap t = v) \<and>
    (\<forall>n. n \<noteq> ct_ID (cs_Config (store w a)) \<longrightarrow>
       GetSnapshot (e_xds E) n (Cache w') = GetSnapshot (e_xds E) n (Cache w))"
proof -
  from Push_cases [OF assms(5,4)] obtain v where v: "v \<noteq> cs_Version (store w a)"
    "store w' a = (store w a)\<lparr>cs_Version := v\<rparr>" "\<And>b. b \<noteq> a \<Longrightarrow> store w' b = store w b" by metis
  from Push_serves [OF assms] obtain snap where
    snap: "GetSnapshot (e_xds E) (ct_ID (cs_Config (store w a))) (Cache w') = (Some snap, None)"
    "snapshot_of E (store w' a) = Inr snap" "\<And>t. GetVersionOf (e_xds E) snap t = cs_Version (store w' a)"
    "\<And>n. n \<noteq> ct_ID (cs_Config (store w a)) \<Longrightarrow>
       GetSnapshot (e_xds E) n (Cache w') = GetSnapshot (e_xds E) n (Cache w)" by blast
  from v(2) snap(2) have "GetConfigSnapshot (e_xds E) v (cs_Config (store w a)) (published (store w a)) (cs_secrets (store w a)) = Inr snap"
    by (simp add: snapshot_of_def published_def)
  with v snap show ?thesis by auto
qed

text \<open>
  Property (C28). The loop that draws a new version ends, and with it the push, exactly when some
  UUID still to be drawn differs from the current version.
\<close>

theorem push_ends_iff:
  "(\<exists>w'. Push E a reason w = Some w') \<longleftrightarrow> (\<exists>k. uuids w \<le> k \<and> e_uuid E k \<noteq> cs_Version (store w a))"
  using Push_None_iff [of E a reason w] by (cases "Push E a reason w") auto

lemma prepared_tick:
  assumes "order_law E" and "current_map E a w' = current_map E a w" and "prepared E a w \<noteq> None"
  obtains ep arr where "prepared E a w' = Some (ep, arr)"
proof -
  from assms(1,2,3) have "\<exists>m. current_map E a w' = Inr m \<and> \<not> isInvalidIP m"
    by (cases rule: prepared_cases [of E a w]) auto
  with assms(1) that show thesis by (cases rule: prepared_cases [of E a w']) auto
qed

lemma save_uuids [simp]: "uuids (saveLastEndpoints E a w) = uuids w"
  by (auto simp: saveLastEndpoints_def Let_def commit_endpoints_def split: option.splits)

lemma save_publishes:
  assumes "order_law E" and "prepared E a w \<noteq> None" and "a < length (heap w)"
    and "lastEndpointsArray (store w a) = None"
  obtains m m' where "current_map E a w = Inr m" "mset m' = mset m"
    "lastEndpoints (store (saveLastEndpoints E a w) a) = Some (publishEp m')"
    "gos (saveLastEndpoints E a w) = gos w @ [GPush a ''new endpoints'']"
  using assms(1)
proof (cases rule: prepared_cases [of E a w])
  case (usable m m')
  with save_Some [OF usable(4) assms(3)] assms(4) that [of m m'] show thesis by auto
qed (use assms(2) in simp_all)

lemma save_not_nil:
  assumes "order_law E" and "world_ok w" and "prepared E a w \<noteq> None" and "a < length (heap w)"
  shows "lastEndpoints (store (saveLastEndpoints E a w) a) \<noteq> None"
proof -
  obtain ep arr where p: "prepared E a w = Some (ep, arr)" using assms(3) by auto
  have ok: "store_ok (store (saveLastEndpoints E a w) a)"
    using save_ok [OF assms(1,2,4)] assms(4) by (simp add: world_okD)
  from save_Some(1) [OF p assms(4)] have "lastEndpointsArray (store (saveLastEndpoints E a w) a) = Some arr"
    by simp
  with ok show ?thesis by (auto simp: store_ok_def split: option.splits)
qed

text \<open>
  Property (C7). The periodic check heals a wrong snapshot: when the served snapshot carries a
  version other than the store's (another store of the node, or another replica, overwrote it),
  \<^verbatim>\<open>Sync\<close> forgets what it published and starts a save, that save starts a push, and after the two
  have run the node is served a snapshot with the store's version and the endpoints the cluster
  has now.
\<close>

theorem sync_heals_version:
  assumes laws: "cache_laws (e_xds E)" "version_law (e_xds E)" "calls_succeed (e_xds E)" "order_law E"
    and ok: "world_ok w" "a < length (heap w)" "\<not> isStoped (store w a)" "prepared E a w \<noteq> None"
    and snap: "fst (GetSnapshot (e_xds E) (ct_ID (cs_Config (store w a))) (Cache w)) = Some s"
    and ver: "GetVersionOf (e_xds E) s EndpointType \<noteq> ''''"
      "GetVersionOf (e_xds E) s EndpointType \<noteq> cs_Version (store w a)"
    and uuid: "uuids w \<le> k" "e_uuid E k \<noteq> cs_Version (store w a)"
  shows "\<exists>w1 w2 w3 s' m. Sync E a w = Ret w1 \<and> GSave a \<in> set (gos w1) \<and>
    run_go E (GSave a) w1 = Some w2 \<and> GPush a ''new endpoints'' \<in> set (gos w2) \<and>
    run_go E (GPush a ''new endpoints'') w2 = Some w3 \<and>
    GetSnapshot (e_xds E) (ct_ID (cs_Config (store w a))) (Cache w3) = (Some s', None) \<and>
    GetVersionOf (e_xds E) s' EndpointType = cs_Version (store w3 a) \<and>
    snapshot_of E (store w3 a) = Inr s' \<and>
    current_map E a w = Inr m \<and> mset (assignments (published (store w3 a))) = mset m"
proof -
  let ?w0 = "saveLastEndpoints E a w"
  let ?w1 = "spawn (GSave a) (upd_store a (\<lambda>cs. cs\<lparr>lastEndpoints := None, lastEndpointsArray := None\<rparr>) ?w0)"
  let ?w2 = "saveLastEndpoints E a ?w1"
  note frame = same_but_save [of a w E, unfolded same_but_def]
  have sync: "Sync E a w = Ret ?w1"
    using save_not_nil [OF laws(4) ok(1,4,2)] ok(3) snap ver frame
    by (simp add: Sync_def hasStoped_def sync_version_def Let_def)
  have st1: "store ?w1 a = (store ?w0 a)\<lparr>lastEndpoints := None, lastEndpointsArray := None\<rparr>"
    using ok(2) by (simp add: store_upd_store)
  have cur: "current_map E a ?w1 = current_map E a w"
    using frame st1 by (simp add: current_map_def)
  have len: "a < length (heap ?w1)" "a < length (heap ?w2)" using ok(2) by simp_all
  have "prepared E a ?w1 \<noteq> None" by (rule prepared_tick [OF laws(4) cur ok(4)]) simp
  from save_publishes [OF laws(4) this len(1)] st1 cur obtain m m' where
    m: "current_map E a w = Inr m" "mset m' = mset m" "lastEndpoints (store ?w2 a) = Some (publishEp m')"
    "gos ?w2 = gos ?w1 @ [GPush a ''new endpoints'']" by auto
  have same2: "cs_Version (store ?w2 a) = cs_Version (store w a)" "cs_Config (store ?w2 a) = cs_Config (store w a)"
    using same_but_save [of a ?w1 E] frame st1 by (simp_all add: same_but_def)
  with uuid obtain w3 where w3: "Push E a ''new endpoints'' ?w2 = Some w3"
    using Push_None_iff [of E a "''new endpoints''" ?w2] by (cases "Push E a ''new endpoints'' ?w2") auto
  obtain v where "store w3 a = (store ?w2 a)\<lparr>cs_Version := v\<rparr>" by (rule Push_cases [OF w3 len(2)]) blast
  with m(3) have pub: "assignments (published (store w3 a)) = m'" by (simp add: published_def)
  obtain s' where s': "GetSnapshot (e_xds E) (ct_ID (cs_Config (store ?w2 a))) (Cache w3) = (Some s', None)"
    "snapshot_of E (store w3 a) = Inr s'" "\<And>t. GetVersionOf (e_xds E) s' t = cs_Version (store w3 a)"
    by (rule Push_serves [OF laws(1-3) len(2) w3]) blast
  have gos: "GSave a \<in> set (gos ?w1)" "GPush a ''new endpoints'' \<in> set (gos ?w2)"
    unfolding m(4) by simp_all
  show ?thesis
    using sync gos w3 s' same2(2) m(1,2) pub
    by (intro exI [of _ ?w1] exI [of _ ?w2] exI [of _ w3] exI [of _ s'] exI [of _ m] conjI) (simp_all only: run_go.simps)
qed

section \<open>An example world\<close>

definition demo_loader :: loader where
  "demo_loader =
     \<lparr>ld_codec = demo_codec,
      template_Parse = (\<lambda>n t. if t = ''{{'' then Inl (Err ''unclosed action'') else Inr t),
      ExecuteTemplate = (\<lambda>t n. Inr t),
      yaml_Unmarshal = (\<lambda>t c. if t = ''node'' then Inr (demo_node\<lparr>ct_ID := ct_ID c\<rparr>)
         else if t = ''bad'' then Inr (c\<lparr>ct_Listeners := [YScalar ''bad'']\<rparr>)
         else Inl (Err ''yaml''))\<rparr>"

definition demo_env :: "(map_snapshot, map_snapshot gomap) env" where
  "demo_env =
     \<lparr>e_app = demo_app, e_xds = map_xds, e_loader = demo_loader,
      e_crypto = demo_crypto (server_template (\<lambda>_. 0) ''node1'' [''node1''] CertValidity),
      e_ca = \<lparr>caCert = None, caCertBytes = ''ca'', caKey = None\<rparr>,
      e_clock = (\<lambda>_ _. 0), e_uuid = (\<lambda>n. CHR ''v'' # dec n),
      e_order = (\<lambda>n m. if even n then rev m else m), e_elapsed = (\<lambda>_. 0)\<rparr>"

definition demo_world :: "listers \<Rightarrow> map_snapshot gomap world" where
  "demo_world L =
     \<lparr>heap = [], StoreMap = [], Cache = [], kube = L, gos = [], uuids = 0, ticks = 0, w_metrics = (\<lambda>_. 0)\<rparr>"

definition demo_one :: "map_snapshot gomap world" where
  "demo_one = with_store (fresh_store demo_codec demo_node) (demo_world demo_listers)"

lemma demo_env_laws:
  "order_law demo_env" "cache_laws (e_xds demo_env)" "version_law (e_xds demo_env)" "calls_succeed (e_xds demo_env)"
  by (simp_all add: order_law_def demo_env_def map_xds_laws calls_succeed_def) (simp_all add: map_xds_def)

lemma demo_world_ok: "world_ok (demo_world L)"
  by (simp add: world_ok_def demo_world_def)

lemma demo_one_ok: "world_ok demo_one" "0 < length (heap demo_one)" "\<not> isStoped (store demo_one 0)"
proof -
  show "world_ok demo_one" unfolding demo_one_def by (intro with_store_ok demo_world_ok fresh_store_ok)
  show "0 < length (heap demo_one)" by (simp add: demo_one_def)
  show "\<not> isStoped (store demo_one 0)"
    using with_store_simps(6) [of "fresh_store demo_codec demo_node" "demo_world demo_listers"]
    by (simp add: demo_one_def demo_world_def fresh_store_def)
qed

lemma demo_current: "\<exists>m. current_map demo_env 0 demo_one = Inr m \<and> \<not> isInvalidIP m \<and> bar_free m"
proof -
  have "\<not> isl (current_map demo_env 0 demo_one)" by code_simp
  then obtain m where m: "current_map demo_env 0 demo_one = Inr m" by (cases "current_map demo_env 0 demo_one") auto
  have "\<not> isInvalidIP (projr (current_map demo_env 0 demo_one)) \<and> bar_free (projr (current_map demo_env 0 demo_one))"
    by code_simp
  with m show ?thesis by simp
qed

lemma usable_prepared:
  assumes "order_law E" and "current_map E a w = Inr m" and "\<not> isInvalidIP m"
  shows "prepared E a w \<noteq> None"
  using assms by (cases rule: prepared_cases [of E a w]) auto

lemma demo_prepared: "prepared demo_env 0 demo_one \<noteq> None"
  using usable_prepared [OF demo_env_laws(1)] demo_current by blast

theorem save_reflects_cluster_witness:
  "\<exists>m. current_map demo_env 0 demo_one = Inr m \<and> length (cluster_members m) = 3 \<and>
     (let w' = saveLastEndpoints demo_env 0 demo_one in
       mset (published_keys (store w' 0)) = mset (map key_view (cluster_members m)) \<and> gos w' \<noteq> gos demo_one)"
proof -
  obtain m where m: "current_map demo_env 0 demo_one = Inr m" "\<not> isInvalidIP m" "bar_free m"
    using demo_current by blast
  have none: "lastEndpoints (store demo_one 0) = None" by code_simp
  then have b: "bar_free (assignments (published (store demo_one 0)))"
    by (simp add: published_def assignments_def bar_free_def cluster_members_def)
  have "length (cluster_members (projr (current_map demo_env 0 demo_one))) = 3" by code_simp
  with m save_reflects_cluster [OF demo_env_laws(1) demo_one_ok(1,2) m b] none show ?thesis
    by (auto simp: Let_def)
qed

text \<open>The same world with a cluster in which a pod reports an address that is not one.\<close>

definition bad_listers :: listers where
  "bad_listers = listers_of (demo_kube\<lparr>ks_pods := [demo_pod ''p1'' ''10.0.0.256'' ''True'']\<rparr>)"

theorem save_rejects_witness:
  "isInvalidIP (projr (current_map demo_env 0 (demo_one\<lparr>kube := bad_listers\<rparr>))) \<and>
   heap (saveLastEndpoints demo_env 0 (demo_one\<lparr>kube := bad_listers\<rparr>)) = heap demo_one"
proof -
  have bad: "isInvalidIP (projr (current_map demo_env 0 (demo_one\<lparr>kube := bad_listers\<rparr>)))" by code_simp
  with save_rejects [OF demo_env_laws(1), of 0 "demo_one\<lparr>kube := bad_listers\<rparr>"] show ?thesis
    by (simp add: Let_def)
qed

theorem save_idempotent_witness:
  "let w1 = saveLastEndpoints demo_env 0 demo_one
   in length (gos w1) = 1 \<and> gos (saveLastEndpoints demo_env 0 w1) = gos w1"
proof -
  have "lastEndpointsArray (store demo_one 0) = None" "gos demo_one = []"
    by code_simp+
  with demo_prepared have "length (gos (saveLastEndpoints demo_env 0 demo_one)) = 1"
    using save_publishes [OF demo_env_laws(1) _ demo_one_ok(2)] by (metis append_Nil length_Cons list.size(3) One_nat_def)
  with save_idempotent [OF demo_env_laws(1) demo_one_ok(2)] show ?thesis by (simp only: Let_def simp_thms)
qed

lemma demo_uuid: "\<exists>k. uuids demo_one \<le> k \<and> e_uuid demo_env k \<noteq> cs_Version (store demo_one 0)"
proof -
  have "uuids demo_one = 0 \<and> cs_Version (store demo_one 0) = ''''" by code_simp
  then show ?thesis by (auto simp: demo_env_def intro: exI [of _ 0])
qed

lemma demo_push: "\<exists>w'. Push demo_env 0 ''new endpoints'' demo_one = Some w'"
  using Push_None_iff [of demo_env 0 "''new endpoints''" demo_one] demo_uuid
  by (cases "Push demo_env 0 ''new endpoints'' demo_one") auto

theorem push_serves_store_witness:
  "\<exists>w' snap. Push demo_env 0 ''new endpoints'' demo_one = Some w' \<and>
     GetSnapshot map_xds ''node1'' (Cache w') = (Some snap, None) \<and>
     GetVersionOf map_xds snap SecretType = cs_Version (store w' 0)"
proof -
  obtain w' where w': "Push demo_env 0 ''new endpoints'' demo_one = Some w'" using demo_push by blast
  have id: "ct_ID (cs_Config (store demo_one 0)) = ''node1''" by code_simp
  have X: "e_xds demo_env = map_xds" by (simp add: demo_env_def)
  from push_serves_store [OF demo_env_laws(2,3,4) demo_one_ok(2) w', unfolded id X] obtain v snap where
    "store w' 0 = (store demo_one 0)\<lparr>cs_Version := v\<rparr>"
    "GetSnapshot map_xds ''node1'' (Cache w') = (Some snap, None)" "\<forall>t. GetVersionOf map_xds snap t = v" by blast
  with w' show ?thesis by (intro exI [of _ w'] exI [of _ snap]) simp
qed

definition demo_overwritten :: "map_snapshot gomap world" where
  "demo_overwritten = demo_one\<lparr>Cache := [(''node1'', (''other'', [(EndpointType, [])]))]\<rparr>"

theorem sync_heals_version_witness:
  "\<exists>w1 w2 w3 s'. Sync demo_env 0 demo_overwritten = Ret w1 \<and> run_go demo_env (GSave 0) w1 = Some w2 \<and>
     run_go demo_env (GPush 0 ''new endpoints'') w2 = Some w3 \<and>
     GetSnapshot map_xds ''node1'' (Cache w3) = (Some s', None) \<and>
     GetVersionOf map_xds s' EndpointType = cs_Version (store w3 0)"
proof -
  have ok: "world_ok demo_overwritten" "0 < length (heap demo_overwritten)" "\<not> isStoped (store demo_overwritten 0)"
    using demo_one_ok by (simp_all add: demo_overwritten_def world_ok_def store_def)
  have "current_map demo_env 0 demo_overwritten = current_map demo_env 0 demo_one"
    by (simp add: current_map_def demo_overwritten_def)
  with demo_current have prep: "prepared demo_env 0 demo_overwritten \<noteq> None"
    using usable_prepared [OF demo_env_laws(1)] by metis
  have ver: "cs_Version (store demo_overwritten 0) = ''''" and id: "ct_ID (cs_Config (store demo_overwritten 0)) = ''node1''"
    by code_simp+
  have X: "e_xds demo_env = map_xds" by (simp add: demo_env_def)
  let ?s = "(''other'', [(EndpointType, [])]) :: map_snapshot"
  have snap: "fst (GetSnapshot (e_xds demo_env) (ct_ID (cs_Config (store demo_overwritten 0))) (Cache demo_overwritten)) = Some ?s"
    unfolding id X by (simp add: map_xds_def demo_overwritten_def)
  have "GetVersionOf (e_xds demo_env) ?s EndpointType = ''other''" by (simp add: X map_xds_def)
  with ver have v: "GetVersionOf (e_xds demo_env) ?s EndpointType \<noteq> ''''"
    "GetVersionOf (e_xds demo_env) ?s EndpointType \<noteq> cs_Version (store demo_overwritten 0)" by simp_all
  have k: "uuids demo_overwritten \<le> 0" "e_uuid demo_env 0 \<noteq> cs_Version (store demo_overwritten 0)"
    using ver by (simp_all add: demo_env_def demo_overwritten_def demo_one_def with_store_def demo_world_def)
  from sync_heals_version [OF demo_env_laws(2,3,4,1) ok prep snap v k] show ?thesis
    unfolding id X by blast
qed

end
