(* ===== verification/ConfigMapsStore.thy ===== *)
theory ConfigMapsStore
  imports ConfigStore
begin

text \<open>
  \<^verbatim>\<open>pkg/configmapsstore/configMapsStore.go\<close>: from ConfigMaps to stores. Every key of a selected
  ConfigMap is the configuration of one node; the handlers stop the old store of the node, build
  the new one and put it in the store map, or remove the stores of a deleted ConfigMap.
\<close>

text \<open>A label option without \<^verbatim>\<open>=\<close> is an index out of range.\<close>

definition checkConfigMapLabels :: "app_config \<Rightarrow> configmap \<Rightarrow> bool outcome" where
  "checkConfigMapLabels app cm =
     (if length (ConfigMapNames app) \<noteq> 0
      then Ret (list_ex (\<lambda>name. cm_Name cm = name) (Split (CHR '','') (ConfigMapNames app)))
      else case Split (CHR ''='') (ConfigMapLabels app) of
             l0 # l1 # _ \<Rightarrow> Ret (mapget (cm_Labels cm) l0 = l1)
           | _ \<Rightarrow> Panic ''index out of range'')"

text \<open>What is filled in from the ConfigMap after a configuration is parsed.\<close>

definition default_id :: "string \<Rightarrow> config_type \<Rightarrow> config_type" where
  "default_id nodeID c =
     (let c = (if length (ct_ID c) = 0 then c\<lparr>ct_ID := nodeID\<rparr> else c)
      in if length (ct_Name c) = 0 then c\<lparr>ct_Name := ct_ID c\<rparr> else c)"

definition apply_version_label :: "configmap \<Rightarrow> config_type \<Rightarrow> config_type" where
  "apply_version_label cm c =
     (let label = mapget (cm_Labels cm) (VersionLabelKey c)
      in if UseVersionLabel c \<and> length label > 0
         then c\<lparr>VersionLabel := label, ct_ID := ct_ID c @ ''-'' @ label\<rparr>
         else c)"

definition default_namespace :: "string \<Rightarrow> kubernetes_type \<Rightarrow> kubernetes_type" where
  "default_namespace ns k = (if length (k_Namespace k) = 0 then k\<lparr>k_Namespace := ns\<rparr> else k)"

definition settle_config :: "configmap \<Rightarrow> string \<Rightarrow> config_type \<Rightarrow> config_type" where
  "settle_config cm nodeID c0 =
     (let c = default_id nodeID c0;
          c = c\<lparr>ConfigMapName := cm_Name cm, ConfigMapNamespace := cm_Namespace cm,
                ConfigMapAnnotations := cm_Annotations cm\<rparr>;
          c = apply_version_label cm c
      in c\<lparr>Kubernetes := map (default_namespace (cm_Namespace cm)) (Kubernetes c)\<rparr>)"

definition stop_old :: "string \<Rightarrow> 'c world \<Rightarrow> 'c world" where
  "stop_old nodeID w = (case map_of (StoreMap w) nodeID of None \<Rightarrow> w | Some a \<Rightarrow> Stop a w)"

text \<open>The body of the loop: the old store is stopped before the new configuration is checked.\<close>

definition new_entry ::
  "('s, 'c) env \<Rightarrow> configmap \<Rightarrow> string \<Rightarrow> string \<Rightarrow> 'c world \<Rightarrow> (goerr option \<times> 'c world) outcome" where
  "new_entry E cm nodeID text w =
     bind_outcome (ParseConfigYaml (e_loader E) nodeID text)
       (\<lambda>parsed. case parsed of
          Inl err \<Rightarrow> Ret (Some err, w)
        | Inr config \<Rightarrow>
            (let config = settle_config cm nodeID config;
                 w = stop_old (ct_ID config) w
             in case SaveResources (e_codec E) (e_app E) config of
                  (_, Some err) \<Rightarrow> Ret (Some (Wrap ''error in config.SaveResources'' err), w)
                | (config, None) \<Rightarrow>
                    bind_outcome (New_store E config w)
                      (\<lambda>(r, w). case r of
                         Inl err \<Rightarrow> Ret (Some err, w)
                       | Inr newConfigStore \<Rightarrow>
                           Ret (None, w\<lparr>StoreMap :=
                             AList.update (ct_ID config) newConfigStore (StoreMap w)\<rparr>))))"

fun new_entries ::
  "('s, 'c) env \<Rightarrow> configmap \<Rightarrow> string gomap \<Rightarrow> 'c world \<Rightarrow> (goerr option \<times> 'c world) outcome" where
  "new_entries E cm [] w = Ret (None, w)"
| "new_entries E cm ((nodeID, text) # entries) w =
     bind_outcome (new_entry E cm nodeID text w)
       (\<lambda>(err, w). case err of Some e \<Rightarrow> Ret (Some e, w) | None \<Rightarrow> new_entries E cm entries w)"

definition NewConfigMap ::
  "('s, 'c) env \<Rightarrow> configmap \<Rightarrow> 'c world \<Rightarrow> (goerr option \<times> 'c world) outcome" where
  "NewConfigMap E cm w =
     bind_outcome (checkConfigMapLabels (e_app E) cm)
       (\<lambda>ok. if \<not> ok then Ret (None, w) else new_entries E cm (nilmap (cm_Data cm)) w)"

definition owned_by :: "configmap \<Rightarrow> config_store \<Rightarrow> bool" where
  "owned_by cm cs \<longleftrightarrow>
     ConfigMapName (cs_Config cs) = cm_Name cm \<and> ConfigMapNamespace (cs_Config cs) = cm_Namespace cm"

text \<open>
  What follows the drain sleep: the ID is read again, the snapshot cleared and the key removed. The
  sleep has no effect of its own; what may happen while it lasts are steps of the interleaving.
\<close>

definition end_drain :: "('s, 'c) env \<Rightarrow> string \<Rightarrow> nat \<Rightarrow> 'c world \<Rightarrow> 'c world" where
  "end_drain E key a w =
     (let w = w\<lparr>Cache := ClearSnapshot (e_xds E) (ct_ID (cs_Config (store w a))) (Cache w)\<rparr>
      in w\<lparr>StoreMap := AList.delete key (StoreMap w)\<rparr>)"

definition delete_entry :: "('s, 'c) env \<Rightarrow> configmap \<Rightarrow> string \<times> nat \<Rightarrow> 'c world \<Rightarrow> 'c world" where
  "delete_entry E cm entry w =
     (case entry of (key, a) \<Rightarrow> if owned_by cm (store w a) then end_drain E key a (Stop a w) else w)"

definition DeleteConfigMap :: "('s, 'c) env \<Rightarrow> configmap \<Rightarrow> 'c world \<Rightarrow> 'c world" where
  "DeleteConfigMap E cm w = fold (delete_entry E cm) (StoreMap w) w"

section \<open>One entry\<close>

text \<open>The node an entry configures, when its text parses.\<close>

definition entry_id :: "('s, 'c) env \<Rightarrow> configmap \<Rightarrow> string \<times> string \<Rightarrow> string option" where
  "entry_id E cm entry =
     (case ParseConfigYaml (e_loader E) (fst entry) (snd entry) of
        Ret (Inr c) \<Rightarrow> Some (ct_ID (settle_config cm (fst entry) c))
      | _ \<Rightarrow> None)"

text \<open>Stores of a world are unchanged, except that some of those it lists may have been stopped.\<close>

definition only_stopped :: "'c world \<Rightarrow> 'c world \<Rightarrow> string set \<Rightarrow> bool" where
  "only_stopped w w' ids \<longleftrightarrow>
     length (heap w) \<le> length (heap w') \<and>
     (\<forall>b < length (heap w). store w' b = store w b \<or>
        store w' b = (store w b)\<lparr>isStoped := True\<rparr> \<and> (\<exists>id \<in> ids. map_of (StoreMap w) id = Some b))"

text \<open>Every store is filed under the ID of its configuration.\<close>

definition keyed :: "'c world \<Rightarrow> bool" where
  "keyed w \<longleftrightarrow> (\<forall>(n, a) \<in> set (StoreMap w). ct_ID (cs_Config (store w a)) = n)"

definition entry_live :: "configmap \<Rightarrow> nat \<Rightarrow> 'c world \<Rightarrow> string \<Rightarrow> bool" where
  "entry_live cm lo w n \<longleftrightarrow>
     (\<exists>a. map_of (StoreMap w) n = Some a \<and> lo \<le> a \<and> a < length (heap w) \<and>
        \<not> isStoped (store w a) \<and> owned_by cm (store w a))"

lemma stop_old_facts:
  assumes "world_ok w"
  shows "world_ok (stop_old n w)" "StoreMap (stop_old n w) = StoreMap w" "Cache (stop_old n w) = Cache w"
    "length (heap (stop_old n w)) = length (heap w)"
    "store (stop_old n w) b = (if map_of (StoreMap w) n = Some b then (store w b)\<lparr>isStoped := True\<rparr> else store w b)"
proof -
  have "a < length (heap w)" if "map_of (StoreMap w) n = Some a" for a
    using assms that map_of_SomeD [OF that] unfolding world_ok_def by force
  then show "world_ok (stop_old n w)" "StoreMap (stop_old n w) = StoreMap w" "Cache (stop_old n w) = Cache w"
    "length (heap (stop_old n w)) = length (heap w)"
    "store (stop_old n w) b = (if map_of (StoreMap w) n = Some b then (store w b)\<lparr>isStoped := True\<rparr> else store w b)"
    using assms Stop_ok [OF assms] by (auto simp: stop_old_def Stop_def store_upd_store split: option.splits)
qed

lemma settle_config_owner:
  "ConfigMapName (settle_config cm n c) = cm_Name cm" "ConfigMapNamespace (settle_config cm n c) = cm_Namespace cm"
  by (simp_all add: settle_config_def apply_version_label_def Let_def)

lemma new_entry_parsed:
  assumes "ParseConfigYaml (e_loader E) n text = Ret (Inr c)"
  shows "new_entry E cm n text w =
    (let config = settle_config cm n c; w = stop_old (ct_ID config) w
     in case SaveResources (e_codec E) (e_app E) config of
          (_, Some err) \<Rightarrow> Ret (Some (Wrap ''error in config.SaveResources'' err), w)
        | (config, None) \<Rightarrow>
            bind_outcome (New_store E config w)
              (\<lambda>(r, w). case r of
                 Inl err \<Rightarrow> Ret (Some err, w)
               | Inr a \<Rightarrow> Ret (None, w\<lparr>StoreMap := AList.update (ct_ID config) a (StoreMap w)\<rparr>)))"
  using assms by (simp add: new_entry_def)

lemma new_entry_ok:
  assumes "order_law E" and "world_ok w" and run: "new_entry E cm n text w = Ret (None, w')"
  obtains id where "entry_id E cm (n, text) = Some id"
    "StoreMap w' = AList.update id (length (heap w)) (StoreMap w)" "Cache w' = Cache w" "world_ok w'"
    "length (heap w') = Suc (length (heap w))" "\<not> isStoped (store w' (length (heap w)))"
    "owned_by cm (store w' (length (heap w)))" "ct_ID (cs_Config (store w' (length (heap w)))) = id"
    "\<And>b. b < length (heap w) \<Longrightarrow> store w' b =
       (if map_of (StoreMap w) id = Some b then (store w b)\<lparr>isStoped := True\<rparr> else store w b)"
proof -
  obtain q where q: "ParseConfigYaml (e_loader E) n text = Ret q"
    using run by (cases "ParseConfigYaml (e_loader E) n text") (auto simp: new_entry_def)
  obtain c where p: "ParseConfigYaml (e_loader E) n text = Ret (Inr c)"
    using run q by (cases q) (auto simp: new_entry_def)
  let ?c = "settle_config cm n c" and ?a = "length (heap w)"
  let ?w1 = "stop_old (ct_ID ?c) w"
  note w1 = stop_old_facts [OF assms(2), of "ct_ID ?c"]
  from run obtain c1 where s: "SaveResources (e_codec E) (e_app E) ?c = (c1, None)"
    by (auto simp: new_entry_parsed [OF p] Let_def split: prod.split_asm option.split_asm)
  note keep = SaveResources_keeps [OF s] settle_config_owner [of cm n c]
  from run s obtain r w2 where N': "New_store E c1 ?w1 = Ret (r, w2)"
    and body: "(case r of Inl err \<Rightarrow> Ret (Some err, w2)
      | Inr a \<Rightarrow> Ret (None, w2\<lparr>StoreMap := AList.update (ct_ID c1) a (StoreMap w2)\<rparr>)) = Ret (None, w')"
    by (auto simp: new_entry_parsed [OF p] Let_def simp del: split_paired_Ex)
  from body obtain a where r: "r = Inr a"
    and w': "w' = w2\<lparr>StoreMap := AList.update (ct_ID c1) a (StoreMap w2)\<rparr>" by (cases r) auto
  note N = N' [unfolded r]
  note new = New_store_ok [OF assms(1) w1(1) N]
  have a: "a = ?a" and cfg: "cs_Config (store w2 ?a) = c1" "\<not> isStoped (store w2 ?a)"
    using new w1(4) by auto
  have st: "store w' b = store w2 b" for b using w' by simp
  have heap: "heap w' = heap w2" using w' by simp
  have okmap: "world_ok w'"
    unfolding w' using new a w1(4) by (intro file_ok) simp_all
  show thesis
  proof (rule that)
    show "entry_id E cm (n, text) = Some (ct_ID ?c)" using p by (simp add: entry_id_def)
    show "StoreMap w' = AList.update (ct_ID ?c) ?a (StoreMap w)" using w' a keep new w1 by simp
    show "Cache w' = Cache w" using w' new w1 by simp
    show "world_ok w'" by (rule okmap)
    show "length (heap w') = Suc ?a" using heap new w1 by simp
    show "\<not> isStoped (store w' ?a)" using st cfg by simp
    show "owned_by cm (store w' ?a)" using st cfg keep by (simp add: owned_by_def)
    show "ct_ID (cs_Config (store w' ?a)) = ct_ID ?c" using st cfg keep by simp
    show "store w' b = (if map_of (StoreMap w) (ct_ID ?c) = Some b then (store w b)\<lparr>isStoped := True\<rparr> else store w b)"
      if "b < ?a" for b
      using that st new w1(4) w1(5) [of b] by auto
  qed
qed

section \<open>All entries\<close>

lemma new_entries_cons_ok:
  assumes "new_entries E cm ((n, text) # entries) w = Ret (None, w')"
  obtains w1 where "new_entry E cm n text w = Ret (None, w1)" "new_entries E cm entries w1 = Ret (None, w')"
proof -
  from assms obtain e w1 where "new_entry E cm n text w = Ret (e, w1)"
    "(case e of Some e \<Rightarrow> Ret (Some e, w1) | None \<Rightarrow> new_entries E cm entries w1) = Ret (None, w')"
    by (auto simp del: split_paired_Ex)
  then show thesis using that by (cases e) auto
qed

lemma new_entries_append:
  "new_entries E cm before w = Ret (None, w1) \<Longrightarrow> new_entries E cm (before @ after) w = new_entries E cm after w1"
proof (induction before arbitrary: w)
  case (Cons entry before)
  obtain n t where e: "entry = (n, t)" by force
  from Cons.prems obtain w2 where "new_entry E cm n t w = Ret (None, w2)" "new_entries E cm before w2 = Ret (None, w1)"
    unfolding e by (rule new_entries_cons_ok)
  with Cons.IH show ?case by (simp add: e)
qed simp

lemma new_entry_keyed:
  assumes "order_law E" "world_ok w" "keyed w" "new_entry E cm n text w = Ret (None, w')"
  shows "keyed w'"
  using assms(1,2,4)
proof (rule new_entry_ok)
  fix id
  let ?a = "length (heap w)"
  assume sm: "StoreMap w' = AList.update id ?a (StoreMap w)" and id: "ct_ID (cs_Config (store w' ?a)) = id"
    and st: "\<And>b. b < ?a \<Longrightarrow> store w' b =
       (if map_of (StoreMap w) id = Some b then (store w b)\<lparr>isStoped := True\<rparr> else store w b)"
  have "ct_ID (cs_Config (store w' b)) = k" if "(k, b) \<in> set (StoreMap w')" for k b
  proof (cases "(k, b) = (id, ?a)")
    case False
    with that sm set_update_subset [of id ?a "StoreMap w"] have "(k, b) \<in> set (StoreMap w)" by auto
    moreover from this have "b < ?a" using assms(2) unfolding world_ok_def by force
    ultimately show ?thesis using st [of b] assms(3) by (auto simp: keyed_def)
  qed (use id in simp)
  then show "keyed w'" by (auto simp: keyed_def)
qed

lemma new_entry_live:
  assumes "order_law E" "world_ok w" "keyed w" "new_entry E cm n text w = Ret (None, w')" "lo \<le> length (heap w)"
  shows "entry_id E cm (n, text) = Some k \<or> entry_live cm lo w k \<Longrightarrow> entry_live cm lo w' k"
    and "isStoped (store w b) \<or> map_of (StoreMap w) k = Some b \<Longrightarrow> b < length (heap w) \<Longrightarrow>
      isStoped (store w' b) \<or> map_of (StoreMap w') k = Some b \<and> entry_id E cm (n, text) \<noteq> Some k"
    and "entry_id E cm (n, text) \<noteq> Some k \<Longrightarrow> map_of (StoreMap w') k = map_of (StoreMap w) k"
    and "entry_id E cm (n, text) \<noteq> Some k \<Longrightarrow> map_of (StoreMap w) k = Some b \<Longrightarrow> store w' b = store w b"
proof -
  let ?a = "length (heap w)"
  obtain id where id: "entry_id E cm (n, text) = Some id"
    and sm: "StoreMap w' = AList.update id ?a (StoreMap w)" and len: "length (heap w') = Suc ?a"
    and live: "\<not> isStoped (store w' ?a)" "owned_by cm (store w' ?a)"
    and st: "\<And>b. b < ?a \<Longrightarrow> store w' b =
       (if map_of (StoreMap w) id = Some b then (store w b)\<lparr>isStoped := True\<rparr> else store w b)"
    using new_entry_ok [OF assms(1,2,4)] by metis
  have addr: "b < ?a" if "map_of (StoreMap w) k = Some b" for k b
    using map_of_SomeD [OF that] assms(2) unfolding world_ok_def by force
  have key: "ct_ID (cs_Config (store w b)) = k" if "map_of (StoreMap w) k = Some b" for k b
    using map_of_SomeD [OF that] assms(3) unfolding keyed_def by blast
  show "entry_id E cm (n, text) = Some k \<or> entry_live cm lo w k \<Longrightarrow> entry_live cm lo w' k"
  proof (cases "k = id")
    case True
    then show ?thesis using sm len live assms(5) by (auto simp: entry_live_def)
  next
    case False
    assume "entry_id E cm (n, text) = Some k \<or> entry_live cm lo w k"
    with False id obtain b where b: "map_of (StoreMap w) k = Some b" "lo \<le> b" "b < ?a"
      "\<not> isStoped (store w b)" "owned_by cm (store w b)" by (auto simp: entry_live_def)
    moreover have "map_of (StoreMap w) id \<noteq> Some b" using False key b(1) by metis
    ultimately show ?thesis using st [of b] sm len False by (auto simp: entry_live_def)
  qed
  show "isStoped (store w b) \<or> map_of (StoreMap w) k = Some b \<Longrightarrow> b < length (heap w) \<Longrightarrow>
      isStoped (store w' b) \<or> map_of (StoreMap w') k = Some b \<and> entry_id E cm (n, text) \<noteq> Some k"
    using st [of b] sm id by (cases "k = id") auto
  show "entry_id E cm (n, text) \<noteq> Some k \<Longrightarrow> map_of (StoreMap w') k = map_of (StoreMap w) k"
    using sm id by auto
  show "entry_id E cm (n, text) \<noteq> Some k \<Longrightarrow> map_of (StoreMap w) k = Some b \<Longrightarrow> store w' b = store w b"
    using st [OF addr] key id by (metis option.inject)
qed

lemma new_entries_ok:
  assumes "order_law E" "world_ok w" "keyed w" "new_entries E cm entries w = Ret (None, w')" "lo \<le> length (heap w)"
  shows "world_ok w' \<and> keyed w' \<and> Cache w' = Cache w \<and>
    (\<forall>k. Some k \<in> entry_id E cm ` set entries \<or> entry_live cm lo w k \<longrightarrow> entry_live cm lo w' k) \<and>
    (\<forall>k b. b < length (heap w) \<longrightarrow> isStoped (store w b) \<or> map_of (StoreMap w) k = Some b \<longrightarrow>
       isStoped (store w' b) \<or> map_of (StoreMap w') k = Some b \<and> Some k \<notin> entry_id E cm ` set entries) \<and>
    (\<forall>k. Some k \<notin> entry_id E cm ` set entries \<longrightarrow> map_of (StoreMap w') k = map_of (StoreMap w) k \<and>
       (\<forall>b. map_of (StoreMap w) k = Some b \<longrightarrow> store w' b = store w b))"
  using assms(2-5)
proof (induction entries arbitrary: w)
  case (Cons entry entries)
  obtain n t where e: "entry = (n, t)" by force
  from Cons.prems(3) obtain w1 where w1: "new_entry E cm n t w = Ret (None, w1)"
    and rest: "new_entries E cm entries w1 = Ret (None, w')" unfolding e by (rule new_entries_cons_ok)
  note step = new_entry_live [OF assms(1) Cons.prems(1,2) w1 Cons.prems(4)]
  obtain id where ok: "world_ok w1" "Cache w1 = Cache w" "length (heap w1) = Suc (length (heap w))"
    using new_entry_ok [OF assms(1) Cons.prems(1) w1] by metis
  have k1: "keyed w1" by (rule new_entry_keyed [OF assms(1) Cons.prems(1,2) w1])
  have "lo \<le> length (heap w1)" using ok Cons.prems(4) by simp
  note IH = Cons.IH [OF ok(1) k1 rest this]
  show ?case
  proof (intro conjI allI impI)
    show "world_ok w'" "keyed w'" "Cache w' = Cache w" using IH ok by simp_all
  next
    fix k assume "Some k \<in> entry_id E cm ` set (entry # entries) \<or> entry_live cm lo w k"
    then have "Some k \<in> entry_id E cm ` set entries \<or> entry_live cm lo w1 k" using step(1) [of k] e by auto
    with IH show "entry_live cm lo w' k" by blast
  next
    fix k b assume b: "b < length (heap w)" "isStoped (store w b) \<or> map_of (StoreMap w) k = Some b"
    with step(2) [OF b(2,1)] have
      "isStoped (store w1 b) \<or> map_of (StoreMap w1) k = Some b \<and> entry_id E cm (n, t) \<noteq> Some k" by blast
    moreover have "b < length (heap w1)" using b ok by simp
    ultimately show "isStoped (store w' b) \<or> map_of (StoreMap w') k = Some b \<and>
        Some k \<notin> entry_id E cm ` set (entry # entries)"
      using IH e by (metis (no_types, lifting) image_insert insert_iff list.simps(15))
  next
    fix k assume k: "Some k \<notin> entry_id E cm ` set (entry # entries)"
    then have "entry_id E cm (n, t) \<noteq> Some k" and k': "Some k \<notin> entry_id E cm ` set entries" using e by auto
    note s3 = step(3,4) [OF this(1)]
    show "map_of (StoreMap w') k = map_of (StoreMap w) k" using IH k' s3(1) by simp
    fix b assume "map_of (StoreMap w) k = Some b"
    with IH k' s3 show "store w' b = store w b" by metis
  qed
qed auto

lemma new_entries_parsed:
  "new_entries E cm entries w = Ret (None, w') \<Longrightarrow> None \<notin> entry_id E cm ` set entries"
proof (induction entries arbitrary: w)
  case (Cons entry entries)
  obtain n t where e: "entry = (n, t)" by force
  from Cons.prems obtain w1 where w1: "new_entry E cm n t w = Ret (None, w1)"
    and rest: "new_entries E cm entries w1 = Ret (None, w')" unfolding e by (rule new_entries_cons_ok)
  obtain q where q: "ParseConfigYaml (e_loader E) n t = Ret q"
    using w1 by (cases "ParseConfigYaml (e_loader E) n t") (auto simp: new_entry_def)
  with w1 have "entry_id E cm entry \<noteq> None" by (cases q) (auto simp: new_entry_def entry_id_def e)
  with Cons.IH [OF rest] show ?case by auto
qed simp

text \<open>
  Property (C5). A ConfigMap update that succeeds replaces exactly the stores it configures: every
  key parses to a node ID, that ID is then filed under a new, running store made from this
  ConfigMap, the store it replaces is stopped, and every other node keeps its store unchanged; no
  served snapshot is touched.
\<close>

theorem configmap_installs:
  assumes "order_law E" and "world_ok w" and "keyed w"
    and "checkConfigMapLabels (e_app E) cm = Ret True" and "NewConfigMap E cm w = Ret (None, w')"
  shows "let ids = entry_id E cm ` set (nilmap (cm_Data cm)) in
    None \<notin> ids \<and> world_ok w' \<and> keyed w' \<and> Cache w' = Cache w \<and>
    (\<forall>k. if Some k \<in> ids
         then entry_live cm (length (heap w)) w' k \<and>
              (\<forall>b. map_of (StoreMap w) k = Some b \<longrightarrow> isStoped (store w' b))
         else map_of (StoreMap w') k = map_of (StoreMap w) k \<and>
              (\<forall>b. map_of (StoreMap w) k = Some b \<longrightarrow> store w' b = store w b))"
proof -
  from assms(4,5) have run: "new_entries E cm (nilmap (cm_Data cm)) w = Ret (None, w')"
    by (simp add: NewConfigMap_def)
  note all = new_entries_ok [OF assms(1-3) run order.refl]
  have "b < length (heap w)" if "map_of (StoreMap w) k = Some b" for k b
    using map_of_SomeD [OF that] assms(2) unfolding world_ok_def by force
  with all new_entries_parsed [OF run] show ?thesis by (simp add: Let_def) blast
qed

text \<open>
  Property (C19). An update stops at the first key whose resources are rejected and leaves its node
  frozen. Let the data be visited in an order in which the keys before the rejected one are installed
  and do not configure the same node. Then the error is returned; the keys before stay installed and
  those after are not filed; the old store stays filed for the node, but it has already been stopped,
  so pod, endpoint and sync events no longer reach it; no other store changes.
\<close>

theorem failed_update_freezes_node:
  assumes "order_law E" and "world_ok w" and "keyed w" and "checkConfigMapLabels (e_app E) cm = Ret True"
    and "cm_Data cm = Some (before @ (nodeID, t) # after)" and "new_entries E cm before w = Ret (None, w1)"
    and "ParseConfigYaml (e_loader E) nodeID t = Ret (Inr c)"
    and "snd (SaveResources (e_codec E) (e_app E) (settle_config cm nodeID c)) = Some err"
    and "map_of (StoreMap w) (ct_ID (settle_config cm nodeID c)) = Some b"
    and "Some (ct_ID (settle_config cm nodeID c)) \<notin> entry_id E cm ` set before"
  shows "\<exists>w'. NewConfigMap E cm w = Ret (Some (Wrap ''error in config.SaveResources'' err), w') \<and>
    StoreMap w' = StoreMap w1 \<and> (\<forall>k. Some k \<in> entry_id E cm ` set before \<longrightarrow> map_of (StoreMap w') k \<noteq> None) \<and>
    map_of (StoreMap w') (ct_ID (settle_config cm nodeID c)) = Some b \<and>
    store w' b = (store w b)\<lparr>isStoped := True\<rparr> \<and> (\<forall>d < length (heap w1). d \<noteq> b \<longrightarrow> store w' d = store w1 d) \<and>
    NewPod E b w' = w' \<and> NewEndpoint E b w' = w' \<and> DeletePod E b w' = w' \<and> Sync E b w' = Ret w'"
proof -
  let ?c = "settle_config cm nodeID c" and ?err = "Some (Wrap ''error in config.SaveResources'' err)"
  let ?w' = "stop_old (ct_ID ?c) w1"
  note installed = new_entries_ok [OF assms(1,2,3,6) le_refl]
  have filed: "map_of (StoreMap w1) (ct_ID ?c) = Some b" "store w1 b = store w b"
    using installed assms(9,10) by auto
  have "new_entry E cm nodeID t w1 = Ret (?err, ?w')"
    using assms(8) by (cases "SaveResources (e_codec E) (e_app E) ?c") (simp add: new_entry_parsed [OF assms(7)] Let_def)
  then have "NewConfigMap E cm w = Ret (?err, ?w')"
    using assms(4,5) new_entries_append [OF assms(6)] by (simp add: NewConfigMap_def)
  moreover have "store ?w' b = (store w b)\<lparr>isStoped := True\<rparr>" "StoreMap ?w' = StoreMap w1"
    "\<forall>d < length (heap w1). d \<noteq> b \<longrightarrow> store ?w' d = store w1 d"
    using stop_old_facts [of w1 "ct_ID ?c"] installed filed by simp_all
  moreover have "map_of (StoreMap w1) k \<noteq> None" if "Some k \<in> entry_id E cm ` set before" for k
    using installed that by (auto simp: entry_live_def)
  ultimately show ?thesis using filed(1)
    by (intro exI [of _ ?w']) (simp add: NewPod_def NewEndpoint_def DeletePod_def Sync_def hasStoped_def)
qed

section \<open>Deleting a ConfigMap\<close>

lemma delete_entry_facts:
  assumes "cache_laws (e_xds E)" "a < length (heap w)" "ct_ID (cs_Config (store w a)) = n"
  shows "cs_Config (store (delete_entry E cm (n, a) w) b) = cs_Config (store w b)"
    and "length (heap (delete_entry E cm (n, a) w)) = length (heap w)"
    and "owned_by cm (store w a) \<Longrightarrow> isStoped (store (delete_entry E cm (n, a) w) a) \<and>
      n \<notin> fst ` set (StoreMap (delete_entry E cm (n, a) w)) \<and>
      fst (GetSnapshot (e_xds E) n (Cache (delete_entry E cm (n, a) w))) = None"
    and "b \<noteq> a \<or> \<not> owned_by cm (store w a) \<Longrightarrow> store (delete_entry E cm (n, a) w) b = store w b"
    and "m \<noteq> n \<or> \<not> owned_by cm (store w a) \<Longrightarrow>
      map_of (StoreMap (delete_entry E cm (n, a) w)) m = map_of (StoreMap w) m \<and>
      GetSnapshot (e_xds E) m (Cache (delete_entry E cm (n, a) w)) = GetSnapshot (e_xds E) m (Cache w)"
proof -
  have own: "delete_entry E cm (n, a) w = (Stop a w)\<lparr>Cache := ClearSnapshot (e_xds E) n (Cache w),
      StoreMap := AList.delete n (StoreMap w)\<rparr>" if "owned_by cm (store w a)"
    using that assms(2,3) by (simp add: delete_entry_def end_drain_def Let_def Stop_def store_upd_store)
  have skip: "delete_entry E cm (n, a) w = w" if "\<not> owned_by cm (store w a)"
    using that by (simp add: delete_entry_def)
  note simps = Stop_def store_upd_store delete_conv' cache_clear [OF assms(1)] cache_clear_other [OF assms(1)]
  show "cs_Config (store (delete_entry E cm (n, a) w) b) = cs_Config (store w b)"
    by (cases "owned_by cm (store w a)") (simp_all add: own skip simps)
  show "length (heap (delete_entry E cm (n, a) w)) = length (heap w)"
    by (cases "owned_by cm (store w a)") (simp_all add: own skip simps)
  show "owned_by cm (store w a) \<Longrightarrow> isStoped (store (delete_entry E cm (n, a) w) a) \<and>
      n \<notin> fst ` set (StoreMap (delete_entry E cm (n, a) w)) \<and>
      fst (GetSnapshot (e_xds E) n (Cache (delete_entry E cm (n, a) w))) = None"
    using assms(2) by (auto simp: own simps AList.delete_eq)
  show "b \<noteq> a \<or> \<not> owned_by cm (store w a) \<Longrightarrow> store (delete_entry E cm (n, a) w) b = store w b"
    by (cases "owned_by cm (store w a)") (simp_all add: own skip simps)
  show "m \<noteq> n \<or> \<not> owned_by cm (store w a) \<Longrightarrow>
      map_of (StoreMap (delete_entry E cm (n, a) w)) m = map_of (StoreMap w) m \<and>
      GetSnapshot (e_xds E) m (Cache (delete_entry E cm (n, a) w)) = GetSnapshot (e_xds E) m (Cache w)"
    by (cases "owned_by cm (store w a)") (simp_all add: own skip simps)
qed

lemma delete_all:
  assumes "cache_laws (e_xds E)" "distinct (map fst es)"
    and "\<forall>(n, a) \<in> set es. a < length (heap w) \<and> ct_ID (cs_Config (store w a)) = n"
  shows "let w' = fold (delete_entry E cm) es w in
    (\<forall>(n, a) \<in> set es. owned_by cm (store w a) \<longrightarrow> isStoped (store w' a) \<and>
       n \<notin> fst ` set (StoreMap w') \<and> fst (GetSnapshot (e_xds E) n (Cache w')) = None) \<and>
    (\<forall>m. (\<forall>a. (m, a) \<in> set es \<longrightarrow> \<not> owned_by cm (store w a)) \<longrightarrow>
       map_of (StoreMap w') m = map_of (StoreMap w) m \<and>
       GetSnapshot (e_xds E) m (Cache w') = GetSnapshot (e_xds E) m (Cache w)) \<and>
    (\<forall>b. (\<forall>n. (n, b) \<in> set es \<longrightarrow> \<not> owned_by cm (store w b)) \<longrightarrow> store w' b = store w b)"
  using assms(2,3)
proof (induction es arbitrary: w)
  case (Cons e es)
  obtain n a where e: "e = (n, a)" by force
  let ?w1 = "delete_entry E cm (n, a) w"
  let ?w' = "fold (delete_entry E cm) es ?w1"
  have na: "a < length (heap w)" "ct_ID (cs_Config (store w a)) = n" using Cons.prems(2) e by auto
  note step = delete_entry_facts [where cm = cm, OF assms(1) na]
  have own: "owned_by cm (store ?w1 b) = owned_by cm (store w b)" for b
    by (simp add: owned_by_def step(1))
  have dist: "distinct (map fst es)" "n \<notin> fst ` set es" using Cons.prems(1) e by auto
  have es: "\<forall>(n, a) \<in> set es. a < length (heap ?w1) \<and> ct_ID (cs_Config (store ?w1 a)) = n"
    using Cons.prems(2) e by (simp add: step(1,2))
  note IH = Cons.IH [OF dist(1) es, unfolded Let_def own]
  have n_fresh: "(n, b) \<notin> set es" for b using dist(2) by force
  have a_fresh: "(m, a) \<notin> set es" for m
    using Cons.prems(2) na(2) n_fresh [of a] by auto
  have keys: "n \<in> fst ` set (StoreMap ?w') \<longleftrightarrow> n \<in> fst ` set (StoreMap ?w1)"
    using IH n_fresh by (metis map_of_eq_None_iff)
  show ?case unfolding e fold_simps Let_def
  proof (intro conjI allI impI ballI)
    fix x assume "x \<in> set ((n, a) # es)"
    then consider "x = (n, a)" | "x \<in> set es" by auto
    then show "case x of (n, a) \<Rightarrow> owned_by cm (store w a) \<longrightarrow> isStoped (store ?w' a) \<and>
        n \<notin> fst ` set (StoreMap ?w') \<and> fst (GetSnapshot (e_xds E) n (Cache ?w')) = None"
    proof cases
      case 1
      have "store ?w' a = store ?w1 a" "GetSnapshot (e_xds E) n (Cache ?w') = GetSnapshot (e_xds E) n (Cache ?w1)"
        using IH a_fresh n_fresh by blast+
      with 1 step(3) keys show ?thesis by simp
    next
      case 2
      with IH show ?thesis by blast
    qed
  next
    fix m assume m: "\<forall>b. (m, b) \<in> set ((n, a) # es) \<longrightarrow> \<not> owned_by cm (store w b)"
    then have "m \<noteq> n \<or> \<not> owned_by cm (store w a)" by auto
    from step(5) [OF this] IH m show "map_of (StoreMap ?w') m = map_of (StoreMap w) m"
      "GetSnapshot (e_xds E) m (Cache ?w') = GetSnapshot (e_xds E) m (Cache w)" by auto
  next
    fix b assume b: "\<forall>m. (m, b) \<in> set ((n, a) # es) \<longrightarrow> \<not> owned_by cm (store w b)"
    then have "b \<noteq> a \<or> \<not> owned_by cm (store w a)" by auto
    from step(4) [OF this] IH b show "store ?w' b = store w b" by auto
  qed
qed simp

lemma DeleteConfigMap_facts:
  assumes "cache_laws (e_xds E)" "world_ok w" "keyed w"
  shows "\<forall>(n, a) \<in> set (StoreMap w).
    (owned_by cm (store w a) \<longrightarrow> isStoped (store (DeleteConfigMap E cm w) a) \<and>
       n \<notin> fst ` set (StoreMap (DeleteConfigMap E cm w)) \<and>
       fst (GetSnapshot (e_xds E) n (Cache (DeleteConfigMap E cm w))) = None) \<and>
    (\<not> owned_by cm (store w a) \<longrightarrow> map_of (StoreMap (DeleteConfigMap E cm w)) n = Some a \<and>
       store (DeleteConfigMap E cm w) a = store w a \<and>
       GetSnapshot (e_xds E) n (Cache (DeleteConfigMap E cm w)) = GetSnapshot (e_xds E) n (Cache w))"
proof -
  have es: "\<forall>(n, a) \<in> set (StoreMap w). a < length (heap w) \<and> ct_ID (cs_Config (store w a)) = n"
    using assms(2,3) unfolding world_ok_def keyed_def by force
  have d: "distinct (map fst (StoreMap w))" using assms(2) by (simp add: world_ok_def wf_gomap_def)
  have uniq: "b = a" if "(n, a) \<in> set (StoreMap w)" "(n, b) \<in> set (StoreMap w)" for n a b
    using that d by (metis map_of_is_SomeI option.inject)
  note all = delete_all [where cm = cm, OF assms(1) d es, unfolded Let_def, folded DeleteConfigMap_def]
  show ?thesis
  proof (rule ballI, clarify)
    fix n a assume na: "(n, a) \<in> set (StoreMap w)"
    show "(owned_by cm (store w a) \<longrightarrow> isStoped (store (DeleteConfigMap E cm w) a) \<and>
         n \<notin> fst ` set (StoreMap (DeleteConfigMap E cm w)) \<and>
         fst (GetSnapshot (e_xds E) n (Cache (DeleteConfigMap E cm w))) = None) \<and>
      (\<not> owned_by cm (store w a) \<longrightarrow> map_of (StoreMap (DeleteConfigMap E cm w)) n = Some a \<and>
         store (DeleteConfigMap E cm w) a = store w a \<and>
         GetSnapshot (e_xds E) n (Cache (DeleteConfigMap E cm w)) = GetSnapshot (e_xds E) n (Cache w))"
    proof (intro conjI impI)
      assume "\<not> owned_by cm (store w a)"
      then have "\<forall>b. (n, b) \<in> set (StoreMap w) \<longrightarrow> \<not> owned_by cm (store w b)" using uniq [OF na] by blast
      with all have "map_of (StoreMap (DeleteConfigMap E cm w)) n = map_of (StoreMap w) n \<and>
          GetSnapshot (e_xds E) n (Cache (DeleteConfigMap E cm w)) = GetSnapshot (e_xds E) n (Cache w)" by blast
      moreover have "store (DeleteConfigMap E cm w) a = store w a"
        using all \<open>\<not> owned_by cm (store w a)\<close> by blast
      ultimately show "map_of (StoreMap (DeleteConfigMap E cm w)) n = Some a"
        "store (DeleteConfigMap E cm w) a = store w a"
        "GetSnapshot (e_xds E) n (Cache (DeleteConfigMap E cm w)) = GetSnapshot (e_xds E) n (Cache w)"
        using na d by (simp_all add: map_of_is_SomeI)
    qed (use all na in blast)+
  qed
qed

text \<open>
  Property (C8). Deleting a ConfigMap removes exactly its nodes: each of its stores is stopped, no
  longer filed, and its node has no snapshot any more; every other node keeps its store and the
  snapshot it is served.
\<close>

theorem delete_configmap_exact:
  assumes "cache_laws (e_xds E)" and "world_ok w" and "keyed w" and "(n, a) \<in> set (StoreMap w)"
  shows "let w' = DeleteConfigMap E cm w in
    if owned_by cm (store w a)
    then isStoped (store w' a) \<and> n \<notin> fst ` set (StoreMap w') \<and> fst (GetSnapshot (e_xds E) n (Cache w')) = None
    else map_of (StoreMap w') n = Some a \<and> store w' a = store w a \<and>
         GetSnapshot (e_xds E) n (Cache w') = GetSnapshot (e_xds E) n (Cache w)"
  using DeleteConfigMap_facts [OF assms(1-3), of cm] assms(4) by (auto simp: Let_def)

lemma delete_frame:
  fixes w :: "'c world" and E :: "('s, 'c) env"
  assumes "world_ok w" and "a < length (heap w)"
  shows "world_ok (DeleteConfigMap E cm w) \<and> length (heap (DeleteConfigMap E cm w)) = length (heap w) \<and>
    cs_Config (store (DeleteConfigMap E cm w) a) = cs_Config (store w a)"
proof -
  have one: "world_ok (delete_entry E cm e w)" "length (heap (delete_entry E cm e w)) = length (heap w)"
    "cs_Config (store (delete_entry E cm e w) a) = cs_Config (store w a)" if "world_ok w" for e and w :: "'c world"
  proof -
    have 1: "world_ok (w1\<lparr>Cache := c\<rparr>) = world_ok w1" for c and w1 :: "'c world" by (simp add: world_ok_def)
    have 2: "world_ok (Stop (snd e) w)" by (rule Stop_ok [OF that])
    show "world_ok (delete_entry E cm e w)"
      using that 1 2 unfile_ok [of "(Stop (snd e) w)\<lparr>Cache := _\<rparr>" "fst e"]
      by (auto simp: delete_entry_def end_drain_def Let_def split: prod.split)
    show "length (heap (delete_entry E cm e w)) = length (heap w)"
      "cs_Config (store (delete_entry E cm e w) a) = cs_Config (store w a)"
      by (auto simp: delete_entry_def end_drain_def Let_def Stop_def store_upd_store split: prod.split)
  qed
  have "world_ok (fold (delete_entry E cm) es w) \<and> length (heap (fold (delete_entry E cm) es w)) = length (heap w) \<and>
      cs_Config (store (fold (delete_entry E cm) es w) a) = cs_Config (store w a)" for es
    using assms(1) by (induction es arbitrary: w) (simp_all add: one)
  then show ?thesis by (simp add: DeleteConfigMap_def)
qed

text \<open>
  Property (C18). A push that was still pending when its ConfigMap was deleted brings the node back:
  once it runs, the node is served a snapshot again although its store is stopped and no longer
  filed, so that nothing updates or removes that snapshot any more.
\<close>

theorem pending_push_after_delete:
  assumes "cache_laws (e_xds E)" and "version_law (e_xds E)" and "calls_succeed (e_xds E)"
    and "world_ok w" and "keyed w" and "(n, a) \<in> set (StoreMap w)" and "owned_by cm (store w a)"
    and "run_go E (GPush a reason) (DeleteConfigMap E cm w) = Some w'"
  shows "isStoped (store w' a) \<and> n \<notin> fst ` set (StoreMap w') \<and>
    (\<exists>snap. GetSnapshot (e_xds E) n (Cache w') = (Some snap, None))"
proof -
  let ?w = "DeleteConfigMap E cm w"
  have a: "a < length (heap w)" "ct_ID (cs_Config (store w a)) = n"
    using assms(4,5,6) unfolding world_ok_def keyed_def by force+
  note f = delete_frame [OF assms(4) a(1), of E cm]
  then have len: "a < length (heap ?w)" using a by simp
  from assms(8) have push: "Push E a reason ?w = Some w'" by simp
  obtain v where w': "store w' a = (store ?w a)\<lparr>cs_Version := v\<rparr>" "StoreMap w' = StoreMap ?w"
    by (rule Push_cases [OF push len]) blast
  obtain snap where "GetSnapshot (e_xds E) n (Cache w') = (Some snap, None)"
    using f a(2) by (metis Push_serves [OF assms(1-3) len push])
  moreover have "isStoped (store ?w a) \<and> n \<notin> fst ` set (StoreMap ?w)"
    using DeleteConfigMap_facts [OF assms(1,4,5), of cm] assms(6,7) by blast
  ultimately show ?thesis using w' by simp
qed

text \<open>
  Selecting ConfigMaps by label ends the process with an index panic exactly when no
  names are configured and the label option has no \<^verbatim>\<open>=\<close>.
\<close>

theorem label_check_panics_iff:
  "(\<exists>m. checkConfigMapLabels app cm = Panic m) \<longleftrightarrow>
     ConfigMapNames app = '''' \<and> CHR ''='' \<notin> set (ConfigMapLabels app)"
proof -
  have "length (Split (CHR ''='') s) \<ge> 2 \<longleftrightarrow> CHR ''='' \<in> set s" for s
  proof
    assume "CHR ''='' \<in> set s"
    then obtain a b where "s = a @ CHR ''='' # b" "CHR ''='' \<notin> set a" by (meson split_list_first)
    then show "length (Split (CHR ''='') s) \<ge> 2"
      by (cases "Split (CHR ''='') b") (simp_all add: Split_append_sep)
  qed (use Split_no_sep in fastforce)
  from this [of "ConfigMapLabels app"] show ?thesis
    by (auto simp: checkConfigMapLabels_def split: list.split)
qed

text \<open>
  One ConfigMap text that is not a well-formed template ends the whole process: a
  selected ConfigMap whose first entry fails to parse as a template makes the handler panic.
\<close>

theorem malformed_template_panics:
  assumes "checkConfigMapLabels (e_app E) cm = Ret True" and "cm_Data cm = Some ((nodeID, t) # rest)"
    and "template_Parse (e_loader E) nodeID t = Inl err"
  shows "NewConfigMap E cm w = Panic (Error err)"
  using assms by (simp add: NewConfigMap_def new_entry_def ParseConfigYaml_def)

section \<open>Examples\<close>

definition demo_cm :: "string \<Rightarrow> configmap" where
  "demo_cm t =
     \<lparr>cm_Name = ''cm'', cm_Namespace = ''ns'', cm_Labels = Some [(''app'', ''envoy-control-plane'')],
      cm_Annotations = None, cm_Data = Some [(''node1'', t)]\<rparr>"

lemma new_entry_succeeds:
  assumes "ParseConfigYaml (e_loader E) n text = Ret (Inr c)"
    and "SaveResources (e_codec E) (e_app E) (settle_config cm n c) = (c1, None)"
    and "secrets_for E (length (heap w)) (with_store (fresh_store (e_codec E) c1)
           (stop_old (ct_ID (settle_config cm n c)) w)) = Ret (Inr s)"
    and "world_ok w"
  shows "\<exists>w'. new_entry E cm n text w = Ret (None, w')"
  using assms(2,3) LoadNewSecrets_eq(2) [of E _ "length (heap w)" s]
    stop_old_facts(4) [OF assms(4), of "ct_ID (settle_config cm n c)"]
  by (simp add: new_entry_parsed [OF assms(1)] Let_def New_store_eq)

text \<open>The node \<^verbatim>\<open>node1\<close>, filed and served, and owned by the ConfigMap \<^verbatim>\<open>cm\<close>.\<close>

definition demo_owned :: "config_store" where
  "demo_owned = (fresh_store demo_codec demo_node)\<lparr>cs_Config := demo_node\<lparr>ConfigMapName := ''cm'',
     ConfigMapNamespace := ''ns''\<rparr>\<rparr>"

definition demo_filed :: "map_snapshot gomap world" where
  "demo_filed = (with_store demo_owned (demo_world demo_listers))\<lparr>StoreMap := [(''node1'', 0)],
     Cache := [(''node1'', (''v'', []))], gos := [GPush 0 ''new endpoints'']\<rparr>"

lemma demo_filed_ok: "world_ok demo_filed" "keyed demo_filed"
proof -
  have h: "heap demo_filed = [demo_owned]" "StoreMap demo_filed = [(''node1'', 0)]"
    "gos demo_filed = [GPush 0 ''new endpoints'']"
    by (simp_all add: demo_filed_def with_store_def demo_world_def)
  have ok: "store_ok demo_owned"
    using fresh_store_ok [of demo_codec demo_node] by (simp add: demo_owned_def store_ok_def fresh_store_def)
  then show "world_ok demo_filed" using h by (simp add: world_ok_def store_def wf_gomap_def)
  have "ct_ID (cs_Config demo_owned) = ''node1''" by (simp add: demo_owned_def demo_node_def)
  with h show "keyed demo_filed" by (simp add: keyed_def store_def)
qed

lemma demo_selected: "checkConfigMapLabels (e_app demo_env) (demo_cm t) = Ret True"
proof -
  have "Split (CHR ''='') (ConfigMapLabels (e_app demo_env)) = [''app'', ''envoy-control-plane'']"
    and "ConfigMapNames (e_app demo_env) = ''''" by code_simp+
  then show ?thesis by (simp add: checkConfigMapLabels_def demo_cm_def mapget_def)
qed

abbreviation demo_parsed :: config_type where
  "demo_parsed \<equiv> demo_node\<lparr>ct_ID := ''''\<rparr>"

lemma demo_parse: "ParseConfigYaml (e_loader demo_env) ''node1'' ''node'' = Ret (Inr demo_parsed)"
  by (simp add: ParseConfigYaml_def demo_env_def demo_loader_def empty_config_def)

lemma demo_settled_id: "ct_ID (settle_config (demo_cm ''node'') ''node1'' demo_parsed) = ''node1''"
  by code_simp

lemma demo_new_entry:
  fixes w :: "map_snapshot gomap world"
  assumes "world_ok w"
  shows "\<exists>w'. new_entry demo_env (demo_cm ''node'') ''node1'' ''node'' w = Ret (None, w')"
proof -
  let ?c = "settle_config (demo_cm ''node'') ''node1'' demo_parsed"
  obtain c1 where save: "SaveResources (e_codec demo_env) (e_app demo_env) ?c = (c1, None)"
  proof -
    have "snd (SaveResources (e_codec demo_env) (e_app demo_env) ?c) = None" by code_simp
    then show thesis using that by (metis prod.collapse)
  qed
  let ?w = "stop_old ''node1'' w"
  let ?v = "with_store (fresh_store (e_codec demo_env) c1) ?w"
  have len: "length (heap ?w) = length (heap w)" by (rule stop_old_facts(4) [OF assms])
  have cfg: "cs_Config (store ?v (length (heap w))) = c1"
    using with_store_simps(6) [of "fresh_store (e_codec demo_env) c1" ?w] len by (simp add: fresh_store_def)
  have name: "ct_Name c1 = ''node1''"
    using SaveResources_keeps(5) [OF save] by (simp add: settle_config_def default_id_def demo_node_def
        empty_config_def apply_version_label_def Let_def)
  have val: "Validation c1 = None"
    using SaveResources_frame [of "e_codec demo_env" "e_app demo_env" ?c] save
    by (auto simp: erase_resources_def settle_config_def default_id_def demo_node_def
        empty_config_def apply_version_label_def Let_def dest: arg_cong [where f = Validation])
  obtain s where "secrets_for demo_env (length (heap w)) ?v = Ret (Inr s)"
    unfolding cfg name val
    by (simp add: NewSecrets_def NewCertificate_def GenServerCert_def genCert_def exportPrivateKey_def
        validation_context_def issuer_of_def demo_env_def demo_crypto_def Let_def)
  then show ?thesis
    using new_entry_succeeds [OF demo_parse save _ assms, of s] demo_settled_id by auto
qed

lemma demo_new_config:
  fixes w :: "map_snapshot gomap world"
  assumes "world_ok w"
  shows "\<exists>w'. NewConfigMap demo_env (demo_cm ''node'') w = Ret (None, w')"
proof -
  obtain w' where "new_entry demo_env (demo_cm ''node'') ''node1'' ''node'' w = Ret (None, w')"
    using demo_new_entry [OF assms] by blast
  then show ?thesis using demo_selected [of "''node''"] by (simp add: NewConfigMap_def demo_cm_def)
qed

lemma demo_ids: "entry_id demo_env (demo_cm ''node'') ` set (nilmap (cm_Data (demo_cm ''node''))) = {Some ''node1''}"
  using demo_parse demo_settled_id by (simp add: demo_cm_def entry_id_def)

theorem configmap_installs_witness:
  "\<exists>w'. NewConfigMap demo_env (demo_cm ''node'') demo_filed = Ret (None, w') \<and>
     entry_live (demo_cm ''node'') 1 w' ''node1'' \<and> isStoped (store w' 0)"
proof -
  let ?cm = "demo_cm ''node''"
  obtain w' where run: "NewConfigMap demo_env ?cm demo_filed = Ret (None, w')"
    using demo_new_config [OF demo_filed_ok(1)] by blast
  have len: "length (heap demo_filed) = 1" by (simp add: demo_filed_def demo_world_def)
  have "map_of (StoreMap demo_filed) ''node1'' = Some 0" by (simp add: demo_filed_def)
  moreover have "\<forall>k. if Some k \<in> {Some ''node1''}
      then entry_live ?cm 1 w' k \<and> (\<forall>b. map_of (StoreMap demo_filed) k = Some b \<longrightarrow> isStoped (store w' b))
      else map_of (StoreMap w') k = map_of (StoreMap demo_filed) k \<and>
        (\<forall>b. map_of (StoreMap demo_filed) k = Some b \<longrightarrow> store w' b = store demo_filed b)"
    using configmap_installs [OF demo_env_laws(1) demo_filed_ok demo_selected run, unfolded demo_ids Let_def len] by blast
  ultimately show ?thesis using run by (intro exI [of _ w']) (auto dest!: spec [of _ "''node1''"])
qed

text \<open>A ConfigMap whose first key is rejected and whose second key is not looked at.\<close>

definition demo_pair :: configmap where
  "demo_pair = (demo_cm ''bad'')\<lparr>cm_Data := Some [(''node1'', ''bad''), (''node2'', ''node'')]\<rparr>"

theorem failed_update_freezes_node_witness:
  "\<exists>e w'. NewConfigMap demo_env demo_pair demo_filed = Ret (Some e, w') \<and>
     StoreMap w' = [(''node1'', 0)] \<and> NewPod demo_env 0 w' = w' \<and> isStoped (store w' 0)"
proof -
  let ?parsed = "empty_config\<lparr>VersionLabelKey := ''version'', ct_Listeners := [YScalar ''bad'']\<rparr>"
  let ?c = "settle_config demo_pair ''node1'' ?parsed"
  have "cm_Name demo_pair = cm_Name (demo_cm ''bad'')" "cm_Labels demo_pair = cm_Labels (demo_cm ''bad'')"
    by (simp_all add: demo_pair_def)
  with demo_selected [of "''bad''"] have selected: "checkConfigMapLabels (e_app demo_env) demo_pair = Ret True"
    by (simp only: checkConfigMapLabels_def)
  have pair: "cm_Data demo_pair = Some ([] @ (''node1'', ''bad'') # [(''node2'', ''node'')])" by (simp add: demo_pair_def)
  have parse: "ParseConfigYaml (e_loader demo_env) ''node1'' ''bad'' = Ret (Inr ?parsed)"
    by (simp add: ParseConfigYaml_def demo_env_def demo_loader_def empty_config_def)
  have "snd (SaveResources (e_codec demo_env) (e_app demo_env) ?c) \<noteq> None" by code_simp
  then obtain err where err: "snd (SaveResources (e_codec demo_env) (e_app demo_env) ?c) = Some err" by auto
  have id: "ct_ID ?c = ''node1''" by code_simp
  have filed: "map_of (StoreMap demo_filed) (ct_ID ?c) = Some 0" unfolding id by (simp add: demo_filed_def)
  have none: "new_entries demo_env demo_pair [] demo_filed = Ret (None, demo_filed)" by simp
  have "Some (ct_ID ?c) \<notin> entry_id demo_env demo_pair ` set []" by simp
  from failed_update_freezes_node [OF demo_env_laws(1) demo_filed_ok selected pair none parse err filed this]
  show ?thesis by (fastforce simp: demo_filed_def)
qed

lemma demo_filed_entry: "(''node1'', 0) \<in> set (StoreMap demo_filed)" "owned_by (demo_cm t) (store demo_filed 0)"
  by (simp_all add: demo_filed_def owned_by_def demo_cm_def store_def with_store_def demo_world_def demo_owned_def)

theorem delete_configmap_exact_witness:
  "isStoped (store (DeleteConfigMap demo_env (demo_cm ''node'') demo_filed) 0) \<and>
   fst (GetSnapshot map_xds ''node1'' (Cache demo_filed)) \<noteq> None \<and>
   fst (GetSnapshot map_xds ''node1'' (Cache (DeleteConfigMap demo_env (demo_cm ''node'') demo_filed))) = None"
proof -
  have "fst (GetSnapshot map_xds ''node1'' (Cache demo_filed)) \<noteq> None" by (simp add: map_xds_def demo_filed_def)
  moreover have "e_xds demo_env = map_xds" by (simp add: demo_env_def)
  ultimately show ?thesis
    using delete_configmap_exact [OF demo_env_laws(2) demo_filed_ok demo_filed_entry(1), of "demo_cm ''node''"]
      demo_filed_entry(2) [of "''node''"] by (simp add: Let_def)
qed

theorem pending_push_after_delete_witness:
  "\<exists>w'. GPush 0 ''new endpoints'' \<in> set (gos demo_filed) \<and>
     run_go demo_env (GPush 0 ''new endpoints'') (DeleteConfigMap demo_env (demo_cm []) demo_filed) = Some w' \<and>
     StoreMap w' = [] \<and> (\<exists>snap. GetSnapshot map_xds ''node1'' (Cache w') = (Some snap, None))"
proof -
  let ?w = "DeleteConfigMap demo_env (demo_cm []) demo_filed"
  have X: "e_xds demo_env = map_xds" by (simp add: demo_env_def)
  have v: "cs_Version (store ?w 0) = ''''" "uuids ?w = 0" by code_simp+
  have "e_uuid demo_env 0 \<noteq> ''''" by (simp add: demo_env_def)
  with v obtain w' where w': "run_go demo_env (GPush 0 ''new endpoints'') ?w = Some w'"
    using Push_None_iff [of demo_env 0 "''new endpoints''" ?w] by (cases "Push demo_env 0 ''new endpoints'' ?w") auto
  have len: "0 < length (heap ?w)" by code_simp
  have "StoreMap w' = StoreMap ?w" using w' by (auto intro: Push_cases [OF _ len])
  moreover have "StoreMap ?w = []" by code_simp
  ultimately show ?thesis
    using pending_push_after_delete [OF demo_env_laws(2,3,4) demo_filed_ok demo_filed_entry w'] w'
    unfolding X by (simp add: demo_filed_def)
qed

theorem malformed_template_panics_witness:
  "NewConfigMap demo_env (demo_cm ''{{'') demo_filed = Panic ''unclosed action''"
  using malformed_template_panics [OF demo_selected, of "''{{''" "''node1''" "''{{''" "[]" "Err ''unclosed action''" demo_filed]
  by (simp add: demo_cm_def demo_env_def demo_loader_def)

end
