(* ===== verification/ControlPlane.thy ===== *)
theory ControlPlane
  imports Certs Metrics GoStd
begin

text \<open>
  \<^verbatim>\<open>pkg/controlplane\<close>: the callbacks of the xDS server (counters, the one-shot signal, the
  request and response logs), the access-log service, the cache's logger, and how the gRPC server
  is set up. gRPC and go-control-plane are parameters.
\<close>

section \<open>Callbacks\<close>

text \<open>
  A channel may be closed once; closing it again panics. \<open>cb_signal\<close> is the field of the struct,
  nil once the first request has been seen; \<open>chan_closed\<close> is the state of the channel made by
  \<^verbatim>\<open>Init\<close>. Counters are 64-bit. A line of the process log is represented by its fixed part. Log files are handles on paths; handles not closed stay open.
\<close>

record file_state =
  fs_content :: "string \<Rightarrow> string"
  fs_open :: "(nat \<times> string) list"
  fs_next :: nat

record cb_state =
  cb_signal :: bool
  chan_closed :: bool
  cb_fetches :: u64
  cb_requests :: u64
  cb_metrics :: metric_state
  cb_files :: file_state
  cb_log :: "string list"

record cb_env =
  cb_LogAccess :: bool
  cb_LogPath :: string
  OpenFile :: "string \<Rightarrow> goerr option"

definition cb_count :: "metric \<Rightarrow> cb_state \<Rightarrow> cb_state" where
  "cb_count m s = s\<lparr>cb_metrics := Inc m (cb_metrics s)\<rparr>"

definition cb_print :: "cb_env \<Rightarrow> string \<Rightarrow> cb_state \<Rightarrow> cb_state" where
  "cb_print e line s = (if cb_LogAccess e then s\<lparr>cb_log := cb_log s @ [line]\<rparr> else s)"

definition Report :: "cb_env \<Rightarrow> cb_state \<Rightarrow> cb_state" where
  "Report e s = cb_print e ''Report'' s"

definition OnStreamOpen :: "cb_env \<Rightarrow> cb_state \<Rightarrow> cb_state" where
  "OnStreamOpen e s = cb_print e ''OnStreamOpen'' (cb_count GrpcOnStreamOpen s)"

definition OnStreamClosed :: "cb_env \<Rightarrow> cb_state \<Rightarrow> cb_state" where
  "OnStreamClosed e s = cb_print e ''OnStreamClosed'' (cb_count GrpcOnStreamClosed s)"

text \<open>\<^verbatim>\<open>if cb.signal != nil { close(cb.signal); cb.signal = nil }\<close>\<close>

definition close_signal :: "cb_state \<Rightarrow> cb_state outcome" where
  "close_signal s =
     (if cb_signal s then
        (if chan_closed s then Panic ''close of closed channel''
         else Ret (s\<lparr>chan_closed := True, cb_signal := False\<rparr>))
      else Ret s)"

definition OnStreamRequest :: "cb_env \<Rightarrow> cb_state \<Rightarrow> cb_state outcome" where
  "OnStreamRequest e s =
     (let s = cb_print e ''OnStreamRequest'' (cb_count GrpcOnStreamRequest s);
          s = s\<lparr>cb_requests := cb_requests s + 1\<rparr>
      in close_signal s)"

definition OnFetchRequest :: "cb_env \<Rightarrow> cb_state \<Rightarrow> cb_state outcome" where
  "OnFetchRequest e s =
     (let s = cb_print e ''OnFetchRequest'' (cb_count GrpcOnFetchRequest s);
          s = s\<lparr>cb_fetches := cb_fetches s + 1\<rparr>
      in close_signal s)"

text \<open>A file that could not be opened is a nil pointer; writing and closing it are errors only.\<close>

type_synonym handle = "(nat \<times> string) option"

definition open_file :: "cb_env \<Rightarrow> string \<Rightarrow> file_state \<Rightarrow> handle \<times> file_state" where
  "open_file e name fs =
     (case OpenFile e name of
        Some err \<Rightarrow> (None, fs)
      | None \<Rightarrow> (Some (fs_next fs, name), fs\<lparr>fs_open := (fs_next fs, name) # fs_open fs, fs_next := Suc (fs_next fs)\<rparr>))"

definition write_file :: "handle \<Rightarrow> string \<Rightarrow> file_state \<Rightarrow> file_state" where
  "write_file h t fs =
     (case h of
        None \<Rightarrow> fs
      | Some (i, name) \<Rightarrow>
          if (i, name) \<in> set (fs_open fs)
          then fs\<lparr>fs_content := (fs_content fs)(name := fs_content fs name @ t)\<rparr> else fs)"

definition close_file :: "handle \<Rightarrow> file_state \<Rightarrow> file_state" where
  "close_file h fs = (case h of None \<Rightarrow> fs | Some x \<Rightarrow> fs\<lparr>fs_open := removeAll x (fs_open fs)\<rparr>)"

definition response_log :: "cb_env \<Rightarrow> string \<Rightarrow> string" where
  "response_log e nodeID = path_Join [cb_LogPath e, ''OnStreamResponse.'' @ nodeID @ ''.log'']"
definition request_log :: "cb_env \<Rightarrow> string \<Rightarrow> string" where
  "request_log e nodeID = path_Join [cb_LogPath e, ''OnStreamRequest.'' @ nodeID @ ''.log'']"

abbreviation nl :: string where "nl \<equiv> [CHR 0x0A]"

text \<open>
  Both deferred calls close the response log; they run in reverse order at the end of the handler,
  after \<^verbatim>\<open>Report\<close>.
\<close>

definition OnStreamResponse :: "cb_env \<Rightarrow> string \<Rightarrow> string \<Rightarrow> string \<Rightarrow> cb_state \<Rightarrow> cb_state" where
  "OnStreamResponse e nodeID discoveryRequest discoveryResponse s =
     (let s = cb_count GrpcOnStreamResponse s
      in if cb_LogAccess e then
           (case open_file e (response_log e nodeID) (cb_files s) of
              (fResponce, fs) \<Rightarrow>
                (case open_file e (request_log e nodeID) fs of
                   (fRequest, fs) \<Rightarrow>
                     (let fs = write_file fRequest
                            (nl @ ''DiscoveryRequest=>'' @ nl @ nl @ discoveryRequest @ nl @ nl) fs;
                          fs = write_file fResponce
                            (nl @ ''DiscoveryResponse=>'' @ nl @ nl @ discoveryResponse @ nl @ nl) fs;
                          s = Report e (s\<lparr>cb_files := fs\<rparr>)
                      in s\<lparr>cb_files := close_file fResponce (close_file fResponce (cb_files s))\<rparr>)))
         else Report e s)"

definition OnFetchResponse :: "cb_env \<Rightarrow> cb_state \<Rightarrow> cb_state" where
  "OnFetchResponse e s = cb_print e ''OnFetchResponse'' (cb_count GrpcOnFetchResponse s)"

definition OnStreamDeltaRequest :: "cb_env \<Rightarrow> cb_state \<Rightarrow> cb_state" where
  "OnStreamDeltaRequest e s = cb_print e ''DeltaDiscoveryRequest'' (cb_count GrpcOnStreamDeltaRequest s)"

definition OnStreamDeltaResponse :: "cb_env \<Rightarrow> cb_state \<Rightarrow> cb_state" where
  "OnStreamDeltaResponse e s = cb_print e ''DeltaDiscoveryResponse'' (cb_count GrpcOnStreamDeltaResponse s)"

definition OnStreamDeltaRequestOnStreamDeltaRequest :: "cb_env \<Rightarrow> cb_state \<Rightarrow> cb_state" where
  "OnStreamDeltaRequestOnStreamDeltaRequest e s =
     cb_print e ''DeltaDiscoveryRequest'' (cb_count GrpcOnStreamDeltaRequestOnStreamDeltaRequest s)"

definition OnDeltaStreamOpen :: "cb_env \<Rightarrow> cb_state \<Rightarrow> cb_state" where
  "OnDeltaStreamOpen e s = cb_print e ''OnDeltaStreamOpen'' (cb_count GrpcOnDeltaStreamOpen s)"

definition OnDeltaStreamClosed :: "cb_env \<Rightarrow> cb_state \<Rightarrow> cb_state" where
  "OnDeltaStreamClosed e s = cb_print e ''OnDeltaStreamClosed'' (cb_count GrpcOnDeltaStreamClosed s)"

text \<open>What the xDS server calls back with.\<close>

datatype cb_event =
    StreamOpen | StreamClosed | StreamRequest | StreamResponse string string string
  | FetchRequest | FetchResponse | StreamDeltaRequest | StreamDeltaResponse | StreamDeltaRequestTwice
  | DeltaStreamOpen | DeltaStreamClosed

fun cb_step :: "cb_env \<Rightarrow> cb_event \<Rightarrow> cb_state \<Rightarrow> cb_state outcome" where
  "cb_step e StreamOpen s = Ret (OnStreamOpen e s)"
| "cb_step e StreamClosed s = Ret (OnStreamClosed e s)"
| "cb_step e StreamRequest s = OnStreamRequest e s"
| "cb_step e (StreamResponse n q r) s = Ret (OnStreamResponse e n q r s)"
| "cb_step e FetchRequest s = OnFetchRequest e s"
| "cb_step e FetchResponse s = Ret (OnFetchResponse e s)"
| "cb_step e StreamDeltaRequest s = Ret (OnStreamDeltaRequest e s)"
| "cb_step e StreamDeltaResponse s = Ret (OnStreamDeltaResponse e s)"
| "cb_step e StreamDeltaRequestTwice s = Ret (OnStreamDeltaRequestOnStreamDeltaRequest e s)"
| "cb_step e DeltaStreamOpen s = Ret (OnDeltaStreamOpen e s)"
| "cb_step e DeltaStreamClosed s = Ret (OnDeltaStreamClosed e s)"


definition initial_callbacks :: cb_state where
  "initial_callbacks =
     \<lparr>cb_signal = True, chan_closed = False, cb_fetches = 0, cb_requests = 0, cb_metrics = (\<lambda>_. 0),
      cb_files = \<lparr>fs_content = (\<lambda>_. ''''), fs_open = [], fs_next = 0\<rparr>, cb_log = []\<rparr>"

section \<open>Facts about the callbacks\<close>

definition is_request :: "cb_event \<Rightarrow> bool" where
  "is_request ev \<longleftrightarrow> ev = StreamRequest \<or> ev = FetchRequest"

definition is_response :: "cb_event \<Rightarrow> bool" where
  "is_response ev \<longleftrightarrow> (case ev of StreamResponse _ _ _ \<Rightarrow> True | _ \<Rightarrow> False)"

definition signal_ok :: "cb_state \<Rightarrow> bool" where
  "signal_ok s \<longleftrightarrow> cb_signal s = (\<not> chan_closed s)"

lemmas cb_defs =
  cb_print_def cb_count_def Report_def OnStreamOpen_def OnStreamClosed_def OnStreamRequest_def
  OnFetchRequest_def OnStreamResponse_def OnFetchResponse_def OnStreamDeltaRequest_def
  OnStreamDeltaResponse_def OnStreamDeltaRequestOnStreamDeltaRequest_def OnDeltaStreamOpen_def
  OnDeltaStreamClosed_def close_signal_def Let_def

lemma cb_record_simps [simp]:
  "cb_signal (cb_print e l s) = cb_signal s" "chan_closed (cb_print e l s) = chan_closed s"
  "cb_requests (cb_print e l s) = cb_requests s" "cb_fetches (cb_print e l s) = cb_fetches s"
  "cb_files (cb_print e l s) = cb_files s"
  "cb_signal (cb_count m s) = cb_signal s" "chan_closed (cb_count m s) = chan_closed s"
  "cb_requests (cb_count m s) = cb_requests s" "cb_fetches (cb_count m s) = cb_fetches s"
  "cb_files (cb_count m s) = cb_files s"
  by (simp_all add: cb_print_def cb_count_def)

lemma OnStreamResponse_simps [simp]:
  "cb_signal (OnStreamResponse e n q r s) = cb_signal s"
  "chan_closed (OnStreamResponse e n q r s) = chan_closed s"
  "cb_requests (OnStreamResponse e n q r s) = cb_requests s"
  "cb_fetches (OnStreamResponse e n q r s) = cb_fetches s"
  by (simp_all add: OnStreamResponse_def Report_def Let_def split: prod.split)

lemma close_signal_ok:
  "signal_ok s \<Longrightarrow> close_signal s = Ret (s\<lparr>chan_closed := True, cb_signal := False\<rparr>)"
  by (cases s) (auto simp: close_signal_def signal_ok_def)

lemmas plain_defs =
  Report_def OnStreamOpen_def OnStreamClosed_def OnFetchResponse_def OnStreamDeltaRequest_def
  OnStreamDeltaResponse_def OnStreamDeltaRequestOnStreamDeltaRequest_def OnDeltaStreamOpen_def
  OnDeltaStreamClosed_def

lemma cb_step_facts:
  assumes "signal_ok s"
  obtains s' where "cb_step e ev s = Ret s'" "signal_ok s'"
    "chan_closed s' = (chan_closed s \<or> is_request ev)"
    "cb_requests s' = cb_requests s + (if ev = StreamRequest then 1 else 0)"
    "cb_fetches s' = cb_fetches s + (if ev = FetchRequest then 1 else 0)"
proof (cases ev)
  case StreamRequest
  have "OnStreamRequest e s = close_signal ((cb_print e ''OnStreamRequest'' (cb_count GrpcOnStreamRequest s))
      \<lparr>cb_requests := cb_requests s + 1\<rparr>)" by (simp add: OnStreamRequest_def Let_def)
  with assms that StreamRequest show thesis by (simp add: close_signal_ok signal_ok_def is_request_def)
next
  case FetchRequest
  have "OnFetchRequest e s = close_signal ((cb_print e ''OnFetchRequest'' (cb_count GrpcOnFetchRequest s))
      \<lparr>cb_fetches := cb_fetches s + 1\<rparr>)" by (simp add: OnFetchRequest_def Let_def)
  with assms that FetchRequest show thesis by (simp add: close_signal_ok signal_ok_def is_request_def)
qed (use assms that in \<open>simp_all add: plain_defs signal_ok_def is_request_def\<close>)

interpretation callbacks: machine "cb_step e" signal_ok
  by unfold_locales (use cb_step_facts in blast)

lemma cb_run_facts:
  assumes "signal_ok s" and "run_outcome (cb_step e) evs s = Ret s'"
  shows "chan_closed s' = (chan_closed s \<or> list_ex is_request evs) \<and>
    cb_requests s' = cb_requests s + of_nat (count_list evs StreamRequest) \<and>
    cb_fetches s' = cb_fetches s + of_nat (count_list evs FetchRequest)"
  using assms
proof (induction evs arbitrary: s)
  case (Cons ev evs)
  obtain s1 where s1: "cb_step e ev s = Ret s1" "signal_ok s1"
    "chan_closed s1 = (chan_closed s \<or> is_request ev)"
    "cb_requests s1 = cb_requests s + (if ev = StreamRequest then 1 else 0)"
    "cb_fetches s1 = cb_fetches s + (if ev = FetchRequest then 1 else 0)"
    by (rule cb_step_facts [OF Cons.prems(1)])
  with Cons.prems(2) have "run_outcome (cb_step e) evs s1 = Ret s'" by simp
  from Cons.IH [OF s1(2) this] s1 show ?case by (auto simp: algebra_simps)
qed simp

text \<open>
  Property (C30). Whatever sequence of callbacks the xDS server makes, the process never closes the
  signal channel twice; the channel is closed exactly when a stream or fetch request has been seen,
  and the two counters hold the number of such requests, modulo \<open>2\<^sup>6\<^sup>4\<close>.
\<close>

theorem callbacks_signal_once:
  "\<exists>s'. run_outcome (cb_step e) evs initial_callbacks = Ret s' \<and>
     chan_closed s' = list_ex is_request evs \<and> cb_signal s' = (\<not> chan_closed s') \<and>
     cb_requests s' = of_nat (count_list evs StreamRequest) \<and>
     cb_fetches s' = of_nat (count_list evs FetchRequest)"
proof -
  have ok: "signal_ok initial_callbacks" by (simp add: signal_ok_def initial_callbacks_def)
  from callbacks.run_safe [OF this] obtain s' where s': "run_outcome (cb_step e) evs initial_callbacks = Ret s'" "signal_ok s'"
    by blast
  with cb_run_facts [OF ok s'(1)] show ?thesis by (auto simp: signal_ok_def initial_callbacks_def)
qed

section \<open>Log files\<close>

definition handles_ok :: "file_state \<Rightarrow> bool" where
  "handles_ok fs \<longleftrightarrow> (\<forall>(i, name) \<in> set (fs_open fs). i < fs_next fs)"

lemma write_file_open [simp]:
  "fs_open (write_file h t fs) = fs_open fs" "fs_next (write_file h t fs) = fs_next fs"
  by (auto simp: write_file_def split: option.splits)

lemma response_files:
  assumes "cb_LogAccess e" and "\<And>p. OpenFile e p = None" and "handles_ok (cb_files s)"
  shows "fs_open (cb_files (OnStreamResponse e n q r s)) =
      (Suc (fs_next (cb_files s)), request_log e n) # fs_open (cb_files s)"
    and "fs_next (cb_files (OnStreamResponse e n q r s)) = Suc (Suc (fs_next (cb_files s)))"
proof -
  have "removeAll (fs_next (cb_files s), p) (fs_open (cb_files s)) = fs_open (cb_files s)" for p
    using assms(3) by (intro removeAll_id) (auto simp: handles_ok_def)
  with assms(1,2) show "fs_open (cb_files (OnStreamResponse e n q r s)) =
      (Suc (fs_next (cb_files s)), request_log e n) # fs_open (cb_files s)"
    "fs_next (cb_files (OnStreamResponse e n q r s)) = Suc (Suc (fs_next (cb_files s)))"
    by (simp_all add: cb_defs open_file_def close_file_def)
qed

lemma other_files:
  assumes "\<not> is_response ev" and "cb_step e ev s = Ret s'"
  shows "cb_files s' = cb_files s"
  using assms by (cases ev) (auto simp: plain_defs OnStreamRequest_def OnFetchRequest_def close_signal_def
      Let_def is_response_def split: if_splits)

lemma cb_run_files:
  assumes "cb_LogAccess e" and "\<And>p. OpenFile e p = None" and "signal_ok s" "handles_ok (cb_files s)"
    and "run_outcome (cb_step e) evs s = Ret s'"
  shows "length (fs_open (cb_files s')) = length (fs_open (cb_files s)) + length (filter is_response evs)"
  using assms(3-5)
proof (induction evs arbitrary: s)
  case (Cons ev evs)
  from Cons.prems obtain s1 where s1: "cb_step e ev s = Ret s1" "run_outcome (cb_step e) evs s1 = Ret s'" by auto
  have ok: "signal_ok s1" using cb_step_facts [OF Cons.prems(1), of e ev] s1(1) by (metis outcome.inject(1))
  show ?case
  proof (cases ev)
    case (StreamResponse n q r)
    with s1 have eq: "s1 = OnStreamResponse e n q r s" by simp
    note files = response_files [OF assms(1,2) Cons.prems(2), of n q r]
    have "handles_ok (cb_files s1)"
      using Cons.prems(2) unfolding eq handles_ok_def files by auto
    from Cons.IH [OF ok this s1(2)] files StreamResponse eq show ?thesis by (simp add: is_response_def)
  qed (use Cons.IH [OF ok _ s1(2)] Cons.prems(2) other_files [OF _ s1(1)] in \<open>simp_all add: is_response_def\<close>)
qed simp

text \<open>
  Property (C32). With access logging on, every response handled leaves one file open for ever: after
  any sequence of callbacks the number of open log files is the number of stream responses, because
  the request log is opened but the response log is closed twice.
\<close>

theorem response_logs_leak:
  assumes "cb_LogAccess e" and "\<forall>p. OpenFile e p = None"
  shows "\<exists>s'. run_outcome (cb_step e) evs initial_callbacks = Ret s' \<and>
    length (fs_open (cb_files s')) = length (filter is_response evs)"
proof -
  have ok: "signal_ok initial_callbacks" "handles_ok (cb_files initial_callbacks)" "fs_open (cb_files initial_callbacks) = []"
    by (simp_all add: signal_ok_def handles_ok_def initial_callbacks_def)
  from callbacks.run_safe [OF ok(1)] obtain s' where s': "run_outcome (cb_step e) evs initial_callbacks = Ret s'" by blast
  from cb_run_files [OF assms(1) _ ok(1,2) s'] assms(2) ok(3) s' show ?thesis by simp
qed

definition demo_cb_env :: cb_env where
  "demo_cb_env = \<lparr>cb_LogAccess = True, cb_LogPath = ''/tmp'', OpenFile = (\<lambda>_. None)\<rparr>"

theorem response_logs_leak_witness:
  "\<exists>s'. run_outcome (cb_step demo_cb_env) [StreamRequest, StreamResponse ''n'' ''q'' ''r'', StreamResponse ''n'' ''q'' ''r'']
      initial_callbacks = Ret s' \<and> length (fs_open (cb_files s')) = 2"
  using response_logs_leak [of demo_cb_env "[StreamRequest, StreamResponse ''n'' ''q'' ''r'', StreamResponse ''n'' ''q'' ''r'']"]
  by (simp add: is_response_def numeral_2_eq_2) (simp add: demo_cb_env_def)

text \<open>
  Property (C40). The node ID a client sends is part of a file name and is not checked: with the
  default log directory, an ID that starts with \<^verbatim>\<open>/../../\<close> makes the response log a file directly
  under the root, outside the log directory.
\<close>

theorem node_id_escapes_log_dir:
  assumes "cb_LogPath e = ''/tmp''" and "CHR ''/'' \<notin> set n"
  shows "response_log e (''/../../'' @ n) = ''/'' @ n @ ''.log''"
proof -
  have p: "''/tmp/OnStreamResponse./../../'' @ n @ ''.log'' =
      [] @ CHR ''/'' # ''tmp'' @ CHR ''/'' # ''OnStreamResponse.'' @ CHR ''/'' # ''..'' @ CHR ''/'' # ''..'' @ CHR ''/'' # n @ ''.log''"
    by simp
  have "Split (CHR ''/'') (''/tmp/OnStreamResponse./../../'' @ n @ ''.log'') =
      ['''', ''tmp'', ''OnStreamResponse.'', ''..'', ''..'', n @ ''.log'']"
    unfolding p using assms(2) by (subst Split_append_sep, simp)+ (simp add: Split_no_sep)
  moreover have "n @ ''.log'' \<noteq> ''''" "n @ ''.log'' \<noteq> ''.''" "n @ ''.log'' \<noteq> ''..''"
    by (auto simp: append_eq_Cons_conv)
  ultimately show ?thesis
    using assms(1) by (simp add: response_log_def path_Join_def path_Clean_def Let_def)
qed

theorem node_id_escapes_log_dir_witness:
  "response_log demo_cb_env ''/../../etc'' = ''/etc.log''"
  using node_id_escapes_log_dir [of demo_cb_env "''etc''"] by (simp add: demo_cb_env_def)

section \<open>Access logs\<close>

text \<open>
  \<^verbatim>\<open>accessLogService.go\<close>: a stream is a sequence of messages that ends with an error of
  \<^verbatim>\<open>Recv\<close>. Every field of a line is read nil-safely. \<open>now\<close> is the formatted time, numbered by the
  lines written so far.
\<close>

record http_entry =
  http_UpstreamCluster :: "string option"
  http_Request :: "(string \<times> string \<times> string \<times> string) option"
  http_ResponseCode :: "u32 option"

record tcp_entry =
  tcp_Common :: "(string \<times> string) option"

datatype log_entries = HttpLogs "http_entry option list" | TcpLogs "tcp_entry option list" | NoLogs

record als_msg =
  als_LogName :: "string option"
  als_LogEntries :: log_entries

abbreviation sp :: string where "sp \<equiv> '' ''"

definition http_line :: "string \<Rightarrow> string \<Rightarrow> http_entry \<Rightarrow> string" where
  "http_line logName now entry =
     (let common = (case http_UpstreamCluster entry of None \<Rightarrow> '''' | Some c \<Rightarrow> c);
          code = (case http_ResponseCode entry of None \<Rightarrow> 0 | Some c \<Rightarrow> c)
      in case (case http_Request entry of None \<Rightarrow> ('''', '''', '''', '''') | Some r \<Rightarrow> r) of
           (authority, pth, scheme, requestId) \<Rightarrow>
             ''['' @ logName @ now @ '']'' @ sp @ authority @ sp @ pth @ sp @ scheme @ sp @ dec32 code
               @ sp @ requestId @ sp @ common)"

definition tcp_line :: "string \<Rightarrow> string \<Rightarrow> tcp_entry \<Rightarrow> string" where
  "tcp_line logName now entry =
     (case (case tcp_Common entry of None \<Rightarrow> ('''', '''') | Some c \<Rightarrow> c) of
        (local, cluster) \<Rightarrow> ''['' @ logName @ now @ '']'' @ '' tcp '' @ local @ sp @ cluster)"

fun entry_lines :: "(string \<Rightarrow> 'e \<Rightarrow> string) \<Rightarrow> (nat \<Rightarrow> string) \<Rightarrow> 'e option list \<Rightarrow> string list \<Rightarrow> string list" where
  "entry_lines line now [] out = out"
| "entry_lines line now (None # es) out = entry_lines line now es out"
| "entry_lines line now (Some e # es) out = entry_lines line now es (out @ [line (now (length out)) e])"

fun message_lines :: "(nat \<Rightarrow> string) \<Rightarrow> string \<Rightarrow> log_entries \<Rightarrow> string list \<Rightarrow> string list" where
  "message_lines now logName (HttpLogs es) out = entry_lines (http_line logName) now es out"
| "message_lines now logName (TcpLogs es) out = entry_lines (tcp_line logName) now es out"
| "message_lines now logName NoLogs out = out"

fun StreamAccessLogs ::
  "(nat \<Rightarrow> string) \<Rightarrow> als_msg list \<Rightarrow> goerr \<Rightarrow> string \<Rightarrow> string list \<Rightarrow> string list \<times> goerr" where
  "StreamAccessLogs now [] err logName out = (out, Wrap ''error in stream.Recv()'' err)"
| "StreamAccessLogs now (msg # msgs) err logName out =
     (let logName = (case als_LogName msg of None \<Rightarrow> logName | Some n \<Rightarrow> n)
      in StreamAccessLogs now msgs err logName (message_lines now logName (als_LogEntries msg) out))"

text \<open>
  The declarative view: the entries of all messages in order, each with the log name in force, which
  is the last one received up to and including its message.
\<close>

datatype log_entry = HttpEntry http_entry | TcpEntry tcp_entry

definition present :: "'e option list \<Rightarrow> 'e list" where
  "present es = concat (map (case_option [] (\<lambda>e. [e])) es)"

definition entries_of :: "log_entries \<Rightarrow> log_entry list" where
  "entries_of l =
     (case l of HttpLogs es \<Rightarrow> map HttpEntry (present es) | TcpLogs es \<Rightarrow> map TcpEntry (present es) | NoLogs \<Rightarrow> [])"

definition log_name :: "string \<Rightarrow> als_msg list \<Rightarrow> nat \<Rightarrow> string" where
  "log_name first msgs k = last (first # present (map als_LogName (take (Suc k) msgs)))"

definition stream_entries :: "string \<Rightarrow> als_msg list \<Rightarrow> (string \<times> log_entry) list" where
  "stream_entries first msgs =
     concat (map (\<lambda>k. map (Pair (log_name first msgs k)) (entries_of (als_LogEntries (msgs ! k)))) [0..<length msgs])"

definition entry_line :: "(nat \<Rightarrow> string) \<Rightarrow> nat \<times> string \<times> log_entry \<Rightarrow> string" where
  "entry_line now x =
     (case x of (i, n, HttpEntry e) \<Rightarrow> http_line n (now i) e | (i, n, TcpEntry e) \<Rightarrow> tcp_line n (now i) e)"

lemma present_simps [simp]:
  "present [] = []" "present (None # es) = present es" "present (Some e # es) = e # present es"
  by (simp_all add: present_def)

lemma entry_lines_map:
  "entry_lines line now es out = out @ map (\<lambda>(i, e). line (now i) e) (enumerate (length out) (present es))"
  by (induction line now es out rule: entry_lines.induct) simp_all

lemma enumerate_map: "enumerate n (map f xs) = map (\<lambda>(i, x). (i, f x)) (enumerate n xs)"
  by (induction xs arbitrary: n) simp_all

lemma message_lines_map:
  "message_lines now n es out = out @ map (entry_line now) (enumerate (length out) (map (Pair n) (entries_of es)))"
  by (cases es) (simp_all add: entries_of_def entry_lines_map enumerate_map entry_line_def case_prod_beta)

lemma log_name_Cons [simp]:
  "log_name first (m # ms) 0 = (case als_LogName m of None \<Rightarrow> first | Some n \<Rightarrow> n)"
  "log_name first (m # ms) (Suc k) = log_name (case als_LogName m of None \<Rightarrow> first | Some n \<Rightarrow> n) ms k"
  by (simp_all add: log_name_def split: option.split)

lemma stream_entries_Cons:
  "stream_entries first (m # ms) =
     (let n = (case als_LogName m of None \<Rightarrow> first | Some n \<Rightarrow> n)
      in map (Pair n) (entries_of (als_LogEntries m)) @ stream_entries n ms)"
proof -
  have "[0..<length (m # ms)] = 0 # map Suc [0..<length ms]" by (simp add: upt_conv_Cons map_Suc_upt del: upt_Suc)
  then show ?thesis by (simp add: stream_entries_def Let_def o_def del: upt_Suc)
qed

lemma enumerate_append: "enumerate n (xs @ ys) = enumerate n xs @ enumerate (n + length xs) ys"
  by (induction xs arbitrary: n) simp_all

text \<open>
  Property (C31). The access-log service writes exactly one line per non-nil entry of the stream, in
  order, formatted by the kind of the entry with the last log name received up to its message, and
  ends with the wrapped error of the stream.
\<close>

theorem access_log_lines:
  "StreamAccessLogs now msgs err first out =
     (out @ map (entry_line now) (enumerate (length out) (stream_entries first msgs)),
      Wrap ''error in stream.Recv()'' err)"
proof (induction msgs arbitrary: first out)
  case Nil
  then show ?case by (simp add: stream_entries_def)
next
  case (Cons m ms)
  show ?case
    by (simp only: StreamAccessLogs.simps Let_def Cons message_lines_map stream_entries_Cons
        enumerate_append map_append append_assoc length_append length_map length_enumerate)
qed

section \<open>Logger\<close>

text \<open>\<^verbatim>\<open>logger.go\<close>: the cache logs only when access logging is on.\<close>

datatype level = LInfo | LDebug | LWarn | LError

definition Logger_log :: "level \<Rightarrow> app_config \<Rightarrow> string \<Rightarrow> (level \<times> string) list \<Rightarrow> (level \<times> string) list" where
  "Logger_log lvl app line out = (if LogAccess app then out @ [(lvl, line)] else out)"

definition Infof :: "app_config \<Rightarrow> string \<Rightarrow> (level \<times> string) list \<Rightarrow> (level \<times> string) list" where
  "Infof = Logger_log LInfo"
definition Debugf :: "app_config \<Rightarrow> string \<Rightarrow> (level \<times> string) list \<Rightarrow> (level \<times> string) list" where
  "Debugf = Logger_log LDebug"
definition Warnf :: "app_config \<Rightarrow> string \<Rightarrow> (level \<times> string) list \<Rightarrow> (level \<times> string) list" where
  "Warnf = Logger_log LWarn"
definition Errorf :: "app_config \<Rightarrow> string \<Rightarrow> (level \<times> string) list \<Rightarrow> (level \<times> string) list" where
  "Errorf = Logger_log LError"

section \<open>The gRPC server\<close>

datatype client_auth = NoClientCert | VerifyClientCertIfGiven | RequireAndVerifyClientCert

record tls_config =
  MinVersionTLS12 :: bool
  Leaf :: x509_certificate
  LeafKey :: rsa_key
  ClientAuth :: client_auth
  ClientCAs :: "x509_certificate list"
  RootCAs :: "x509_certificate list"

record grpc_options =
  Creds :: tls_config
  MaxConcurrentStreams :: nat
  KeepaliveTime :: int
  KeepaliveTimeout :: int
  EnforceMinTime :: int
  PermitWithoutStream :: bool

definition grpcKeepaliveTime :: int where "grpcKeepaliveTime = 30 * Second"
definition grpcKeepaliveTimeout :: int where "grpcKeepaliveTimeout = 5 * Second"
definition grpcKeepaliveMinTime :: int where "grpcKeepaliveMinTime = 30 * Second"
definition grpcMaxConcurrentStreams :: nat where "grpcMaxConcurrentStreams = 1000000"

text \<open>\<^verbatim>\<open>CertPool.AddCert\<close> panics on a nil certificate.\<close>

definition createGrpcServer :: "crypto \<Rightarrow> ca_state \<Rightarrow> (nat \<Rightarrow> int) \<Rightarrow> nat \<Rightarrow> grpc_options outcome" where
  "createGrpcServer K ca clock nonce =
     bind_outcome (NewCertificate K ca clock nonce [AppName] CertValidityMax)
       (\<lambda>r. case r of
          Inl err \<Rightarrow> Exit err
        | Inr (serverCert, _, serverKey, _) \<Rightarrow>
            (case GetLoadedRootCert ca of
               None \<Rightarrow> Panic ''adding nil Certificate to CertPool''
             | Some root \<Rightarrow>
                 (let certPool = [root];
                      grpcCred = \<lparr>MinVersionTLS12 = True, Leaf = serverCert, LeafKey = serverKey,
                        ClientAuth = RequireAndVerifyClientCert, ClientCAs = certPool, RootCAs = certPool\<rparr>
                  in Ret \<lparr>Creds = grpcCred, MaxConcurrentStreams = grpcMaxConcurrentStreams,
                       KeepaliveTime = grpcKeepaliveTime, KeepaliveTimeout = grpcKeepaliveTimeout,
                       EnforceMinTime = grpcKeepaliveMinTime, PermitWithoutStream = True\<rparr>)))"

datatype grpc_service = AccessLogs | EndpointDiscovery | ClusterDiscovery | RouteDiscovery | ListenerDiscovery | SecretDiscovery

record grpc_server =
  srv_options :: grpc_options
  srv_callbacks :: cb_state
  srv_services :: "grpc_service list"

definition controlplane_Init :: "crypto \<Rightarrow> ca_state \<Rightarrow> (nat \<Rightarrow> int) \<Rightarrow> nat \<Rightarrow> grpc_server outcome" where
  "controlplane_Init K ca clock nonce =
     (let cb = initial_callbacks
      in bind_outcome (createGrpcServer K ca clock nonce)
           (\<lambda>opts. Ret \<lparr>srv_options = opts, srv_callbacks = cb,
              srv_services = [AccessLogs, EndpointDiscovery, ClusterDiscovery, RouteDiscovery,
                ListenerDiscovery, SecretDiscovery]\<rparr>))"

text \<open>\<^verbatim>\<open>Start\<close>: \<^verbatim>\<open>Serve\<close> returns nil after a graceful stop.\<close>

definition controlplane_Start :: "(string \<Rightarrow> goerr option) \<Rightarrow> goerr option \<Rightarrow> app_config \<Rightarrow> unit outcome" where
  "controlplane_Start Listen Serve app =
     (case Listen (GrpcAddress app) of
        Some err \<Rightarrow> Exit err
      | None \<Rightarrow> (case Serve of Some err \<Rightarrow> Exit err | None \<Rightarrow> Ret ()))"

text \<open>
  Property (C37). The control plane never serves xDS without mutual TLS: when the server is set up,
  it requires and verifies client certificates against exactly the loaded root certificate, and its
  own certificate is one issued for the application name.
\<close>

theorem grpc_requires_client_certificates:
  assumes "x509_law K" and "controlplane_Init K ca clock nonce = Ret srv"
  shows "ClientAuth (Creds (srv_options srv)) = RequireAndVerifyClientCert \<and>
    Some (ClientCAs (Creds (srv_options srv))) = map_option (\<lambda>c. [c]) (caCert ca) \<and>
    DNSNames (Leaf (Creds (srv_options srv))) = [AppName] \<and> \<not> IsCA (Leaf (Creds (srv_options srv)))"
proof -
  from assms(2) obtain opts where opts: "createGrpcServer K ca clock nonce = Ret opts" "srv_options srv = opts"
    by (auto simp: controlplane_Init_def)
  then obtain r where r: "GenServerCert K clock nonce [AppName] (caCert ca) (caKey ca) CertValidityMax = Ret r"
    by (cases "GenServerCert K clock nonce [AppName] (caCert ca) (caKey ca) CertValidityMax")
      (simp_all add: createGrpcServer_def NewCertificate_def)
  with opts obtain cert pem key kpem where rr: "r = Inr (cert, pem, key, kpem)"
    by (cases r) (auto simp: createGrpcServer_def NewCertificate_def)
  from opts r rr obtain root where root: "caCert ca = Some root"
    by (cases "caCert ca") (simp_all add: createGrpcServer_def NewCertificate_def GetLoadedRootCert_def)
  have new: "GenServerCert K clock nonce [AppName] (caCert ca) (caKey ca) CertValidityMax = Ret (Inr (cert, pem, key, kpem))"
    using r rr by simp
  from opts new root have srv: "ClientAuth (Creds (srv_options srv)) = RequireAndVerifyClientCert"
    "ClientCAs (Creds (srv_options srv)) = [root]" "Leaf (Creds (srv_options srv)) = cert"
    by (auto simp: createGrpcServer_def NewCertificate_def GetLoadedRootCert_def Let_def)
  from GenServerCert_Inr [OF new] have
    "genCert K (server_template clock AppName [AppName] CertValidityMax) (caCert ca) (PublicKey K key) (caKey ca) = Inr (cert, pem)"
    by simp
  from genCert_Inr [OF this] obtain der where "CreateCertificate K (server_template clock AppName [AppName] CertValidityMax)
      (caCert ca) (PublicKey K key) (caKey ca) = Inr der" "ParseCertificate K der = Inr cert" by blast
  from x509_lawD [OF assms(1) this] srv root show ?thesis by (simp add: server_template_def)
qed

definition demo_grpc_crypto :: crypto where
  "demo_grpc_crypto = demo_crypto (server_template (\<lambda>_. 0) AppName [AppName] CertValidityMax)"

definition demo_ca :: ca_state where
  "demo_ca = \<lparr>caCert = Some (root_template (\<lambda>_. 0)), caCertBytes = ''ca'', caKey = Some ''key''\<rparr>"

theorem grpc_requires_client_certificates_witness:
  "\<exists>srv. controlplane_Init demo_grpc_crypto demo_ca (\<lambda>_. 0) 0 = Ret srv \<and>
     ClientAuth (Creds (srv_options srv)) = RequireAndVerifyClientCert \<and>
     ClientCAs (Creds (srv_options srv)) = [root_template (\<lambda>_. 0)]"
proof -
  have law: "x509_law demo_grpc_crypto" by (simp add: demo_grpc_crypto_def demo_crypto_law)
  obtain srv where srv: "controlplane_Init demo_grpc_crypto demo_ca (\<lambda>_. 0) 0 = Ret srv"
    by (simp add: controlplane_Init_def createGrpcServer_def NewCertificate_def GenServerCert_def genCert_def
        exportPrivateKey_def demo_grpc_crypto_def demo_crypto_def demo_ca_def GetLoadedRootCert_def Let_def)
  from grpc_requires_client_certificates [OF law srv] srv show ?thesis by (auto simp: demo_ca_def)
qed

end
