(* ===== verification/Internal.thy ===== *)
theory Internal
  imports ConfigMapsStore ControlPlane
begin

text \<open>
  \<^verbatim>\<open>internal/internal.go\<close>: initialisation, the wiring of the informer callbacks to the stores, the
  periodic synchronisation and the certificate rotation; and the interleaving of all of them as a
  step relation, over which the global invariants are proved.
\<close>

section \<open>Initialisation\<close>

record ('rc, 'cs) init_libs =
  il_readFile :: "string \<Rightarrow> goerr + string"
  il_unmarshal :: "string \<Rightarrow> app_config \<Rightarrow> app_config \<times> goerr option"
  il_ParseLevel :: "string \<Rightarrow> goerr option"
  il_stat :: "string \<Rightarrow> stat_result"
  il_BuildConfigFromFlags :: "string \<Rightarrow> goerr + 'rc"
  il_InClusterConfig :: "goerr + 'rc"
  il_NewForConfig :: "'rc \<Rightarrow> goerr + 'cs"
  il_crypto :: crypto
  il_clock :: "nat \<Rightarrow> int"

text \<open>The result is the loaded configuration, the Kubernetes client and the certificate authority.\<close>

definition internal_Init ::
  "('rc, 'cs) init_libs \<Rightarrow> app_config \<Rightarrow> (app_config \<times> ('rc, 'cs) kube_client \<times> ca_state) outcome" where
  "internal_Init l flags =
     (case Load (il_readFile l) (il_unmarshal l) flags of
        (_, Some err) \<Rightarrow> Exit err
      | (cfg, None) \<Rightarrow>
     (case il_ParseLevel l (LogLevel cfg) of
        Some err \<Rightarrow> Exit err
      | None \<Rightarrow>
     (case CheckConfig (il_stat l) cfg of
        Some err \<Rightarrow> Exit err
      | None \<Rightarrow>
          bind_outcome (api_Init (il_BuildConfigFromFlags l) (il_InClusterConfig l) (il_NewForConfig l) cfg)
            (\<lambda>client. case client of
               Inl err \<Rightarrow> Exit err
             | Inr client \<Rightarrow>
                 bind_outcome (certs_Init (il_crypto l) cfg (il_clock l) 0)
                   (\<lambda>ca. case ca of Inl err \<Rightarrow> Exit err | Inr ca \<Rightarrow> Ret (cfg, client, ca))))))"

section \<open>Callbacks\<close>

text \<open>What \<^verbatim>\<open>Start\<close> registers for each informer callback; an error of a ConfigMap is only logged.\<close>

definition run_callback :: "('s, 'c) env \<Rightarrow> callback \<Rightarrow> 'c world \<Rightarrow> 'c world outcome" where
  "run_callback E cb w =
     (case cb of
        OnNewPod p \<Rightarrow> Range_stores (\<lambda>a w. Ret (NewPod E a w)) w
      | OnDeletePod p \<Rightarrow> Range_stores (\<lambda>a w. Ret (DeletePod E a w)) w
      | OnNewConfig cm \<Rightarrow> bind_outcome (NewConfigMap E cm w) (\<lambda>(err, w). Ret w)
      | OnDeleteConfig cm \<Rightarrow> Ret (DeleteConfigMap E cm w)
      | OnNewEndpoints eps \<Rightarrow> Range_stores (\<lambda>a w. Ret (NewEndpoint E a w)) w)"

definition registered :: hooks where
  "registered = \<lparr>hasOnNewPod = True, hasOnDeletePod = True, hasOnNewConfig = True,
     hasOnDeleteConfig = True, hasOnNewEndpoints = True\<rparr>"

datatype informer_event =
    PodAdd kobj | PodUpdate kobj kobj | PodDelete kobj
  | ConfigAdd kobj | ConfigUpdate kobj kobj | ConfigDelete kobj
  | EndpointsAdd kobj | EndpointsUpdate kobj kobj

fun handle :: "hooks \<Rightarrow> informer_event \<Rightarrow> metric_state \<Rightarrow> handler_result" where
  "handle h (PodAdd x) = podInformer_AddFunc h x"
| "handle h (PodUpdate x y) = podInformer_UpdateFunc h x y"
| "handle h (PodDelete x) = podInformer_DeleteFunc h x"
| "handle h (ConfigAdd x) = configInformer_AddFunc h x"
| "handle h (ConfigUpdate x y) = configInformer_UpdateFunc h x y"
| "handle h (ConfigDelete x) = configInformer_DeleteFunc h x"
| "handle h (EndpointsAdd x) = endpointsInformer_AddFunc h x"
| "handle h (EndpointsUpdate x y) = endpointsInformer_UpdateFunc h x y"

definition deliver :: "('s, 'c) env \<Rightarrow> informer_event \<Rightarrow> 'c world \<Rightarrow> 'c world outcome" where
  "deliver E ev w =
     bind_outcome (handle registered ev (w_metrics w))
       (\<lambda>(m, cb). let w = w\<lparr>w_metrics := m\<rparr>
                  in case cb of None \<Rightarrow> Ret w | Some c \<Rightarrow> run_callback E c w)"

section \<open>Periodic jobs\<close>

text \<open>One pass of each loop; \<open>n\<close> passes run before the context is done.\<close>

definition sync_pass :: "('s, 'c) env \<Rightarrow> 'c world \<Rightarrow> 'c world outcome" where
  "sync_pass E w = Range_stores (Sync E) w"

fun syncAll :: "('s, 'c) env \<Rightarrow> nat \<Rightarrow> 'c world \<Rightarrow> 'c world outcome" where
  "syncAll E 0 w = Ret w"
| "syncAll E (Suc n) w = bind_outcome (sync_pass E w) (syncAll E n)"

text \<open>
  What the rotation does to one store when nothing interferes; \<open>Ret None\<close>: the push does not end. The store is
  locked twice, so in the interleaving below loading and pushing are two steps.
\<close>

definition rotate_entry :: "('s, 'c) env \<Rightarrow> nat \<Rightarrow> 'c world \<Rightarrow> 'c world option outcome" where
  "rotate_entry E a w =
     bind_outcome (LoadNewSecrets E a w)
       (\<lambda>(err, w). case err of
          Some e \<Rightarrow> Ret (Some w)
        | None \<Rightarrow> Ret (Push E a ''LoadNewSecrets'' w))"

fun rotate_stores :: "('s, 'c) env \<Rightarrow> nat list \<Rightarrow> 'c world \<Rightarrow> 'c world option outcome" where
  "rotate_stores E [] w = Ret (Some w)"
| "rotate_stores E (a # as) w =
     bind_outcome (rotate_entry E a w)
       (\<lambda>r. case r of None \<Rightarrow> Ret None | Some w \<Rightarrow> rotate_stores E as w)"

fun rotateCertificates :: "('s, 'c) env \<Rightarrow> nat \<Rightarrow> 'c world \<Rightarrow> 'c world option outcome" where
  "rotateCertificates E 0 w = Ret (Some w)"
| "rotateCertificates E (Suc n) w =
     bind_outcome (rotate_stores E (map snd (StoreMap w)) w)
       (\<lambda>r. case r of None \<Rightarrow> Ret None | Some w \<Rightarrow> rotateCertificates E n w)"

text \<open>\<^verbatim>\<open>Start\<close>: register the callbacks, run the informers, then schedule the two jobs.\<close>

datatype start_event = RegisterCallbacks hooks | Informers "start_action list" | GoRotate | GoSyncAll

definition internal_Start ::
  "(informer \<Rightarrow> goerr option) \<Rightarrow> (informer \<Rightarrow> bool) \<Rightarrow> start_event list outcome" where
  "internal_Start setErr synced =
     bind_outcome (RunKubeInformers setErr synced)
       (\<lambda>acts. Ret [RegisterCallbacks registered, Informers acts, GoRotate, GoSyncAll])"

section \<open>Interleaving\<close>

text \<open>
  The state of the running program: the world and the saves that have computed their endpoints but
  not yet taken the lock. The informer caches change on their own; a save of any store may compute
  its endpoints and commit them later, with anything in between; a started goroutine may run at
  any time. A synchronisation compares versions under the lock of its store, and a rotation takes that
  lock twice, to load the secrets and to push: each is a step, of any store, since a store a job
  has taken from the map may have been removed from it meanwhile. An informer event is a step. An
  update stops the old store some time before it files the new one, and a deletion sleeps between
  stopping a store and removing it: the stop of an old store and the beginning and the end of a drain
  are steps of their own, so that everything else may happen between them. The label of a step
  tells whether it belongs to the handling of a ConfigMap, and which.
\<close>

type_synonym 'c system = "'c world \<times> (nat \<times> resource list \<times> string list) list"

datatype sys_label =
    Background | Event informer_event
  | UpdateStops configmap string | DrainStarts configmap string | DrainEnds configmap string

inductive sys_step :: "('s, 'c) env \<Rightarrow> sys_label \<Rightarrow> 'c system \<Rightarrow> 'c system \<Rightarrow> bool" for E :: "('s, 'c) env" where
  cluster_changes: "sys_step E Background (w, P) (w\<lparr>kube := L\<rparr>, P)"
| save_computes: "a < length (heap w) \<Longrightarrow> prepared E a w = Some (ep, arr) \<Longrightarrow>
    sys_step E Background (w, P) (next_tick w, (a, ep, arr) # P)"
| save_commits: "(a, ep, arr) \<in> set P \<Longrightarrow> sys_step E Background (w, P) (commit_endpoints a ep arr w, P)"
| goroutine_runs: "g \<in> set (gos w) \<Longrightarrow> run_go E g (w\<lparr>gos := remove1 g (gos w)\<rparr>) = Some w' \<Longrightarrow>
    sys_step E Background (w, P) (w', P)"
| store_syncs: "a < length (heap w) \<Longrightarrow> sync_version E a w = Ret w' \<Longrightarrow> sys_step E Background (w, P) (w', P)"
| secrets_load: "a < length (heap w) \<Longrightarrow> LoadNewSecrets E a w = Ret (err, w') \<Longrightarrow>
    sys_step E Background (w, P) (w', P)"
| rotation_pushes: "a < length (heap w) \<Longrightarrow> Push E a ''LoadNewSecrets'' w = Some w' \<Longrightarrow>
    sys_step E Background (w, P) (w', P)"
| event_arrives: "deliver E ev w = Ret w' \<Longrightarrow> sys_step E (Event ev) (w, P) (w', P)"
| update_stops: "checkConfigMapLabels (e_app E) cm = Ret True \<Longrightarrow> entry \<in> set (nilmap (cm_Data cm)) \<Longrightarrow>
    entry_id E cm entry = Some n \<Longrightarrow> sys_step E (UpdateStops cm n) (w, P) (stop_old n w, P)"
| drain_starts: "(n, a) \<in> set (StoreMap w) \<Longrightarrow> owned_by cm (store w a) \<Longrightarrow>
    sys_step E (DrainStarts cm n) (w, P) (Stop a w, P)"
| drain_ends: "(n, a) \<in> set (StoreMap w) \<Longrightarrow> owned_by cm (store w a) \<Longrightarrow> isStoped (store w a) \<Longrightarrow>
    sys_step E (DrainEnds cm n) (w, P) (end_drain E n a w, P)"

definition initial_world :: "'c \<Rightarrow> listers \<Rightarrow> 'c world" where
  "initial_world c L =
     \<lparr>heap = [], StoreMap = [], Cache = c, kube = L, gos = [], uuids = 0, ticks = 0, w_metrics = (\<lambda>_. 0)\<rparr>"

inductive reachable :: "('s, 'c) env \<Rightarrow> 'c system \<Rightarrow> bool" for E :: "('s, 'c) env" where
  start: "\<forall>n. fst (GetSnapshot (e_xds E) n c) = None \<Longrightarrow> reachable E (initial_world c L, [])"
| next_step: "reachable E s \<Longrightarrow> sys_step E l s t \<Longrightarrow> reachable E t"

section \<open>The invariant\<close>

definition good :: "('s, 'c) env \<Rightarrow> 'c world \<Rightarrow> bool" where
  "good E w \<longleftrightarrow> world_ok w \<and> keyed w \<and> (\<forall>a < length (heap w). traced E (store w a)) \<and> cache_ok E w"

text \<open>The invariant is kept, no store is lost and no store changes its configuration.\<close>

definition grows :: "('s, 'c) env \<Rightarrow> 'c world \<Rightarrow> 'c world \<Rightarrow> bool" where
  "grows E w w' \<longleftrightarrow> good E w' \<and> length (heap w) \<le> length (heap w') \<and>
     (\<forall>a < length (heap w). cs_Config (store w' a) = cs_Config (store w a))"

definition env_laws :: "('s, 'c) env \<Rightarrow> bool" where
  "env_laws E \<longleftrightarrow> cache_laws (e_xds E) \<and> order_law E"

lemma good_addr: "good E w \<Longrightarrow> (n, a) \<in> set (StoreMap w) \<Longrightarrow> a < length (heap w) \<and> ct_ID (cs_Config (store w a)) = n"
  unfolding good_def world_ok_def keyed_def by force

lemma good_traced: "good E w \<Longrightarrow> a < length (heap w) \<Longrightarrow> traced E (store w a)"
  by (simp add: good_def)

lemma good_keyed:
  assumes "good E w" and "world_ok w'" and "set (StoreMap w') \<subseteq> set (StoreMap w)"
    and "length (heap w) \<le> length (heap w')"
    and "\<And>a. a < length (heap w) \<Longrightarrow> cs_Config (store w' a) = cs_Config (store w a)"
    and "\<And>a. a < length (heap w') \<Longrightarrow> traced E (store w' a)" and "cache_ok E w'"
  shows "grows E w w'"
proof -
  have "ct_ID (cs_Config (store w' a)) = n" if "(n, a) \<in> set (StoreMap w')" for n a
    using good_addr [OF assms(1), of n a] assms(3,5) that by auto
  with assms show ?thesis by (auto simp: grows_def good_def keyed_def)
qed

text \<open>A step that serves no new snapshot.\<close>

lemma good_frame:
  assumes "good E w" and "world_ok w'" and "set (StoreMap w') \<subseteq> set (StoreMap w)"
    and "length (heap w) \<le> length (heap w')"
    and cfg: "\<And>a. a < length (heap w) \<Longrightarrow> cs_Config (store w' a) = cs_Config (store w a)"
    and "\<And>a. a < length (heap w') \<Longrightarrow> traced E (store w' a)"
    and served: "\<And>n s. fst (GetSnapshot (e_xds E) n (Cache w')) = Some s \<Longrightarrow> fst (GetSnapshot (e_xds E) n (Cache w)) = Some s"
  shows "grows E w w'"
proof (rule good_keyed [OF assms(1-6)])
  have ok: "cache_ok E w" using assms(1) by (simp add: good_def)
  show "cache_ok E w'" unfolding cache_ok_def
  proof (intro allI impI)
    fix n s assume "fst (GetSnapshot (e_xds E) n (Cache w')) = Some s"
    from served [OF this] ok obtain a where "a < length (heap w)" "ct_ID (cs_Config (store w a)) = n"
      "served_from E (cs_Config (store w a)) s" unfolding cache_ok_def by blast
    with assms(4) cfg show "\<exists>a < length (heap w'). ct_ID (cs_Config (store w' a)) = n \<and> served_from E (cs_Config (store w' a)) s"
      by (intro exI [of _ a]) simp
  qed
qed

lemma good_same_but:
  assumes "good E w" and "world_ok w'" and "same_but a w w'" and "a < length (heap w) \<Longrightarrow> traced E (store w' a)"
  shows "grows E w w'"
proof (rule good_frame [OF assms(1,2)])
  show "cs_Config (store w' b) = cs_Config (store w b)" for b
    using assms(3) by (cases "b = a") (auto simp: same_but_def)
  show "traced E (store w' b)" if "b < length (heap w')" for b
    using assms that by (cases "b = a") (auto simp: same_but_def good_traced)
qed (use assms(3) in \<open>auto simp: same_but_def\<close>)

lemma grows_refl: "good E w \<Longrightarrow> grows E w w"
  by (simp add: grows_def)

lemma grows_trans: "grows E w1 w2 \<Longrightarrow> grows E w2 w3 \<Longrightarrow> grows E w1 w3"
  by (auto simp: grows_def)

lemma good_metrics [simp]: "good E (w\<lparr>w_metrics := m\<rparr>) = good E w"
  by (simp add: good_def world_ok_def keyed_def store_def cache_ok_def)

lemma save_good:
  "env_laws E \<Longrightarrow> good E w \<Longrightarrow> a < length (heap w) \<Longrightarrow> grows E w (saveLastEndpoints E a w)"
  by (rule good_same_but [OF _ save_ok same_but_save]) (auto simp: env_laws_def good_def save_traced)

lemma NewPod_good:
  "env_laws E \<Longrightarrow> good E w \<Longrightarrow> a < length (heap w) \<Longrightarrow> grows E w (NewPod E a w)"
  by (simp add: NewPod_def save_good grows_refl)

lemma sync_version_good:
  assumes "good E w" "a < length (heap w)" "sync_version E a w = Ret w'"
  shows "grows E w w'"
proof (rule good_same_but [OF assms(1)])
  show "world_ok w'" using sync_version_ok assms by (auto simp: good_def)
  show "same_but a w w'" by (rule same_but_sync_version [OF assms(3)])
  show "traced E (store w' a)" by (rule sync_version_traced [OF good_traced [OF assms(1,2)] assms(3)])
qed

lemma Push_good:
  assumes "env_laws E" "good E w" "a < length (heap w)" "Push E a reason w = Some w'"
  shows "grows E w w'"
proof -
  obtain v where v: "store w' a = (store w a)\<lparr>cs_Version := v\<rparr>" "\<And>b. b \<noteq> a \<Longrightarrow> store w' b = store w b"
    "length (heap w') = length (heap w)" "StoreMap w' = StoreMap w"
    by (rule Push_cases [OF assms(4,3)]) blast
  show ?thesis
  proof (rule good_keyed [OF assms(2)])
    show "world_ok w'" using Push_ok assms(2-4) by (auto simp: good_def)
    show "cache_ok E w'" using Push_cache_ok [OF _ _ assms(3) _ assms(4)] assms by (auto simp: good_def env_laws_def)
    show "cs_Config (store w' b) = cs_Config (store w b)" for b using v by (cases "b = a") auto
    show "traced E (store w' b)" if "b < length (heap w')" for b
      using v good_traced [OF assms(2), of b] that by (cases "b = a") auto
  qed (use v in auto)
qed

lemma LoadNewSecrets_good:
  assumes "good E w" "LoadNewSecrets E a w = Ret (e, w')"
  shows "grows E w w'"
proof (rule good_frame [OF assms(1)])
  have ok: "world_ok w" using assms(1) by (simp add: good_def)
  note f = LoadNewSecrets_ok [OF ok assms(2)]
  show "world_ok w'" "set (StoreMap w') \<subseteq> set (StoreMap w)" "length (heap w) \<le> length (heap w')" using f by auto
  show "cs_Config (store w' b) = cs_Config (store w b)" for b
    using assms(2) by (cases rule: LoadNewSecrets_cases [of E w a]) (auto simp: store_upd_store)
  show "traced E (store w' b)" if "b < length (heap w')" for b
    using assms that good_traced [OF assms(1), of b]
    by (cases rule: LoadNewSecrets_cases [of E w a]) (auto simp: store_upd_store)
  show "fst (GetSnapshot (e_xds E) n (Cache w)) = Some s" if "fst (GetSnapshot (e_xds E) n (Cache w')) = Some s" for n s
    using that f by simp
qed

lemma rotate_entry_good:
  assumes "env_laws E" "good E w" "a < length (heap w)" "rotate_entry E a w = Ret (Some w')"
  shows "grows E w w'"
proof -
  from assms(4) obtain e w1 where e: "LoadNewSecrets E a w = Ret (e, w1)"
    "(case e of Some err \<Rightarrow> Ret (Some w1) | None \<Rightarrow> Ret (Push E a ''LoadNewSecrets'' w1)) = Ret (Some w')"
    by (auto simp: rotate_entry_def simp del: split_paired_Ex)
  note g = LoadNewSecrets_good [OF assms(2) e(1)]
  with e(2) Push_good [OF assms(1), of w1 a "''LoadNewSecrets''" w'] assms(3) show ?thesis
    by (cases e) (auto simp: grows_def)
qed

lemma range_good:
  assumes "\<And>a w w'. good E w \<Longrightarrow> a < length (heap w) \<Longrightarrow> op a w = Ret w' \<Longrightarrow> grows E w w'"
    and "good E w" and "\<forall>a \<in> set as. a < length (heap w)" and "run_outcome op as w = Ret w'"
  shows "grows E w w'"
  using assms(2-4)
proof (induction "as" arbitrary: w)
  case Nil
  then show ?case by (simp add: grows_refl)
next
  case (Cons a as)
  then obtain w1 where w1: "op a w = Ret w1" "run_outcome op as w1 = Ret w'" by auto
  have g: "grows E w w1" using assms(1) [OF Cons.prems(1) _ w1(1)] Cons.prems(2) by simp
  then have "\<forall>b \<in> set as. b < length (heap w1)" using Cons.prems(2) by (auto simp: grows_def)
  with g have "grows E w1 w'" using Cons.IH [OF _ _ w1(2)] by (simp add: grows_def)
  with g show ?case by (rule grows_trans)
qed

lemma Range_good:
  assumes "\<And>a w w'. good E w \<Longrightarrow> a < length (heap w) \<Longrightarrow> op a w = Ret w' \<Longrightarrow> grows E w w'"
    and "good E w" and "Range_stores op w = Ret w'"
  shows "grows E w w'"
proof (rule range_good [of E op, OF assms(1,2)])
  show "run_outcome op (map snd (StoreMap w)) w = Ret w'" using assms(3) by (simp add: Range_stores_def)
  show "\<forall>a \<in> set (map snd (StoreMap w)). a < length (heap w)" using good_addr [OF assms(2)] by auto
qed

section \<open>ConfigMap events keep the invariant\<close>

lemma stop_old_good: "good E w \<Longrightarrow> grows E w (stop_old n w)"
  by (rule good_frame) (auto simp: good_def stop_old_facts)

lemma New_store_good:
  assumes "env_laws E" "good E w" "New_store E c w = Ret (r, w')"
  shows "grows E w w' \<and> StoreMap w' = StoreMap w \<and> (\<forall>a. r = Inr a \<longrightarrow> a < length (heap w') \<and> cs_Config (store w' a) = c)"
proof -
  have "order_law E" "world_ok w" using assms by (auto simp: env_laws_def good_def)
  note N = New_store_ok [OF this assms(3)]
  have "traced E (store w' a)" if "a < length (heap w')" for a
    using that N New_store_traced [OF assms(3)] good_traced [OF assms(2), of a] by (auto simp: less_Suc_eq)
  then have "grows E w w'" by (intro good_frame [OF assms(2)]) (use N in auto)
  with N show ?thesis by simp
qed

lemma file_good:
  assumes "good E w" "a < length (heap w)" "ct_ID (cs_Config (store w a)) = n"
  shows "grows E w (w\<lparr>StoreMap := AList.update n a (StoreMap w)\<rparr>)"
  using assms set_update_subset [of n a "StoreMap w"]
  by (auto simp: grows_def good_def file_ok keyed_def cache_ok_def)

lemma new_entry_good:
  assumes laws: "env_laws E" and good: "good E w" and run: "new_entry E cm n text w = Ret (e, w')"
  shows "grows E w w'"
proof -
  obtain q where q: "ParseConfigYaml (e_loader E) n text = Ret q"
    using run by (cases "ParseConfigYaml (e_loader E) n text") (auto simp: new_entry_def)
  show ?thesis
  proof (cases q)
    case (Inl err)
    with q run good show ?thesis by (auto simp: new_entry_def grows_refl)
  next
    case (Inr c)
    let ?c = "settle_config cm n c"
    let ?w1 = "stop_old (ct_ID ?c) w"
    have p: "ParseConfigYaml (e_loader E) n text = Ret (Inr c)" using q Inr by simp
    have g1: "grows E w ?w1" by (rule stop_old_good [OF good])
    obtain c1 r where s: "SaveResources (e_codec E) (e_app E) ?c = (c1, r)" by force
    show ?thesis
    proof (cases r)
      case (Some err)
      with run s g1 show ?thesis by (simp add: new_entry_parsed [OF p] Let_def)
    next
      case None
      with run s obtain r2 w2 where N: "New_store E c1 ?w1 = Ret (r2, w2)"
        and body: "(case r2 of Inl err \<Rightarrow> Ret (Some err, w2)
          | Inr a \<Rightarrow> Ret (None, w2\<lparr>StoreMap := AList.update (ct_ID c1) a (StoreMap w2)\<rparr>)) = Ret (e, w')"
        by (auto simp: new_entry_parsed [OF p] Let_def simp del: split_paired_Ex)
      have g2: "good E ?w1" using g1 by (simp add: grows_def)
      note N' = New_store_good [OF laws g2 N]
      show ?thesis
      proof (cases r2)
        case (Inl err)
        with body N' g1 show ?thesis by (auto intro: grows_trans)
      next
        case (Inr a)
        with N' have "grows E w2 (w2\<lparr>StoreMap := AList.update (ct_ID c1) a (StoreMap w2)\<rparr>)"
          by (intro file_good) (auto simp: grows_def)
        with body N' g1 Inr show ?thesis by (auto intro: grows_trans)
      qed
    qed
  qed
qed

lemma new_entries_good:
  "env_laws E \<Longrightarrow> good E w \<Longrightarrow> new_entries E cm entries w = Ret (e, w') \<Longrightarrow> grows E w w'"
proof (induction entries arbitrary: w)
  case (Cons entry entries)
  obtain n t where en: "entry = (n, t)" by force
  from Cons.prems(3) obtain r w1 where r: "new_entry E cm n t w = Ret (r, w1)"
    "(case r of Some err \<Rightarrow> Ret (Some err, w1) | None \<Rightarrow> new_entries E cm entries w1) = Ret (e, w')"
    by (auto simp: en simp del: split_paired_Ex)
  note g = new_entry_good [OF Cons.prems(1,2) r(1)]
  with r(2) Cons.IH [OF Cons.prems(1), of w1] show ?case
    by (cases r) (auto simp: grows_def)
qed (simp add: grows_refl)

lemma delete_only_unfiles:
  fixes w :: "'c world" and E :: "('s, 'c) env"
  shows "set (StoreMap (DeleteConfigMap E cm w)) \<subseteq> set (StoreMap w)"
proof -
  have "set (StoreMap (delete_entry E cm x v)) \<subseteq> set (StoreMap v)" for x and v :: "'c world"
    using set_delete_subset [of "fst x" "StoreMap v"]
    by (auto simp: delete_entry_def end_drain_def Let_def Stop_def split: prod.splits if_splits)
  then have "set (StoreMap (fold (delete_entry E cm) xs v)) \<subseteq> set (StoreMap v)" for xs and v :: "'c world"
    by (induction xs arbitrary: v) (auto, meson subsetD)
  then show ?thesis by (simp add: DeleteConfigMap_def)
qed

lemma delete_traced: "traced E (store (DeleteConfigMap E' cm w) a) = traced E (store w a)"
proof -
  have "traced E (store (delete_entry E' cm x v) a) = traced E (store v a)" for x v
    by (auto simp: delete_entry_def end_drain_def Let_def Stop_def store_upd_store split: prod.split)
  then have "traced E (store (fold (delete_entry E' cm) xs v) a) = traced E (store v a)" for xs v
    by (induction xs arbitrary: v) simp_all
  then show ?thesis by (simp add: DeleteConfigMap_def)
qed

lemma delete_good:
  assumes "env_laws E" "good E w"
  shows "grows E w (DeleteConfigMap E cm w)"
proof -
  have ok: "world_ok w" "keyed w" using assms(2) by (auto simp: good_def)
  have d: "distinct (map fst (StoreMap w))" using ok(1) by (simp add: world_ok_def wf_gomap_def)
  have es: "\<forall>(n, a) \<in> set (StoreMap w). a < length (heap w) \<and> ct_ID (cs_Config (store w a)) = n"
    using good_addr [OF assms(2)] by auto
  have laws: "cache_laws (e_xds E)" using assms(1) by (simp add: env_laws_def)
  note all = delete_all [where cm = cm, OF laws d es, unfolded Let_def, folded DeleteConfigMap_def]
  let ?w = "DeleteConfigMap E cm w"
  have frame: "a < length (heap w) \<Longrightarrow> world_ok ?w \<and> length (heap ?w) = length (heap w) \<and>
      cs_Config (store ?w a) = cs_Config (store w a)" for a by (rule delete_frame [OF ok(1)])
  have snap: "fst (GetSnapshot (e_xds E) n (Cache ?w)) = None \<or>
      GetSnapshot (e_xds E) n (Cache ?w) = GetSnapshot (e_xds E) n (Cache w)" for n
    using all by blast
  have served: "fst (GetSnapshot (e_xds E) n (Cache w)) = Some s" if "fst (GetSnapshot (e_xds E) n (Cache ?w)) = Some s" for n s
    using snap [of n] that by auto
  have "traced E (store ?w a)" if "a < length (heap w)" for a
    using good_traced [OF assms(2) that] by (simp add: delete_traced)
  moreover have "set (StoreMap ?w) \<subseteq> set (StoreMap w)" by (rule delete_only_unfiles)
  moreover have "world_ok ?w \<and> length (heap ?w) = length (heap w)"
  proof (cases "heap w = []")
    case True
    then have "StoreMap w = []" using es by (cases "StoreMap w") auto
    then show ?thesis using ok(1) by (simp add: DeleteConfigMap_def)
  qed (use frame [of 0] in simp)
  ultimately show ?thesis using frame assms(2) served by (intro good_frame) auto
qed

lemma stop_listed: "good E w \<Longrightarrow> (n, a) \<in> set (StoreMap w) \<Longrightarrow> Stop a w = stop_old n w"
  by (simp add: stop_old_def good_def world_ok_def wf_gomap_def)

lemma end_drain_good:
  assumes "env_laws E" and "good E w" and "(n, a) \<in> set (StoreMap w)"
  shows "grows E w (end_drain E n a w)"
proof (rule good_frame [OF assms(2)])
  have id: "ct_ID (cs_Config (store w a)) = n" using good_addr [OF assms(2,3)] by simp
  have laws: "cache_laws (e_xds E)" using assms(1) by (simp add: env_laws_def)
  have ok: "world_ok w" using assms(2) by (simp add: good_def)
  show files: "set (StoreMap (end_drain E n a w)) \<subseteq> set (StoreMap w)"
    using set_delete_subset [of n "StoreMap w"] by (simp add: end_drain_def Let_def)
  then show "world_ok (end_drain E n a w)"
    using ok by (auto simp: world_ok_def end_drain_def Let_def wf_gomap_def distinct_delete)
  show "fst (GetSnapshot (e_xds E) m (Cache w)) = Some s"
    if "fst (GetSnapshot (e_xds E) m (Cache (end_drain E n a w))) = Some s" for m s
    using that by (cases "m = n") (simp_all add: end_drain_def Let_def id cache_clear [OF laws] cache_clear_other [OF laws])
  show "traced E (store (end_drain E n a w) b)" if "b < length (heap (end_drain E n a w))" for b
    using good_traced [OF assms(2), of b] that by (simp add: end_drain_def Let_def)
qed (simp_all add: end_drain_def Let_def)

section \<open>Safety of every interleaving\<close>

lemma NewEndpoint_good: "env_laws E \<Longrightarrow> good E w \<Longrightarrow> a < length (heap w) \<Longrightarrow> grows E w (NewEndpoint E a w)"
  by (simp add: NewEndpoint_def NewPod_good)

lemma DeletePod_good: "env_laws E \<Longrightarrow> good E w \<Longrightarrow> a < length (heap w) \<Longrightarrow> grows E w (DeletePod E a w)"
  by (simp add: DeletePod_def NewPod_good)

lemma callback_good:
  assumes "env_laws E" "good E w" "run_callback E cb w = Ret w'"
  shows "grows E w w'"
proof (cases cb)
  case (OnNewPod p)
  with assms Range_good [of E "\<lambda>a w. Ret (NewPod E a w)" w w'] NewPod_good [OF assms(1)] show ?thesis
    by (auto simp: run_callback_def)
next
  case (OnDeletePod p)
  with assms Range_good [of E "\<lambda>a w. Ret (DeletePod E a w)" w w'] DeletePod_good [OF assms(1)] show ?thesis
    by (auto simp: run_callback_def)
next
  case (OnNewEndpoints p)
  with assms Range_good [of E "\<lambda>a w. Ret (NewEndpoint E a w)" w w'] NewEndpoint_good [OF assms(1)] show ?thesis
    by (auto simp: run_callback_def)
next
  case (OnNewConfig cm)
  with assms obtain e where "NewConfigMap E cm w = Ret (e, w')"
    by (auto simp: run_callback_def simp del: split_paired_Ex)
  then have "(\<exists>e. new_entries E cm (nilmap (cm_Data cm)) w = Ret (e, w')) \<or> w' = w"
    by (auto simp: NewConfigMap_def split: if_splits)
  with new_entries_good [OF assms(1,2)] assms(2) show ?thesis by (auto simp: grows_refl)
next
  case (OnDeleteConfig cm)
  with assms delete_good [OF assms(1,2)] show ?thesis by (auto simp: run_callback_def)
qed

lemma deliver_good:
  assumes "env_laws E" "good E w" "deliver E ev w = Ret w'"
  shows "grows E w w'"
proof -
  from assms(3) obtain m cb where "(case cb of None \<Rightarrow> Ret (w\<lparr>w_metrics := m\<rparr>)
      | Some c \<Rightarrow> run_callback E c (w\<lparr>w_metrics := m\<rparr>)) = Ret w'"
    by (auto simp: deliver_def Let_def simp del: split_paired_Ex)
  with callback_good [OF assms(1), of "w\<lparr>w_metrics := m\<rparr>"] assms(2) show ?thesis
    by (cases cb) (auto simp: grows_def store_def)
qed

definition pending_ok :: "('s, 'c) env \<Rightarrow> 'c system \<Rightarrow> bool" where
  "pending_ok E s \<longleftrightarrow>
     (\<forall>(a, ep, arr) \<in> set (snd s). a < length (heap (fst s)) \<and> computed E (cs_Config (store (fst s) a)) ep \<and>
        (\<exists>m. wf_gomap m \<and> \<not> isInvalidIP m \<and> ep = publishEp m \<and> arr = sort (publishEpArray m)))"

lemma step_pending: "pending_ok E (w, P) \<Longrightarrow> grows E w w' \<Longrightarrow> pending_ok E (w', P)"
  unfolding pending_ok_def grows_def by fastforce

lemma goroutine_good:
  assumes "env_laws E" "good E w" "g \<in> set (gos w)" "run_go E g (w\<lparr>gos := remove1 g (gos w)\<rparr>) = Some w'"
  shows "grows E w w'"
proof -
  let ?w = "w\<lparr>gos := remove1 g (gos w)\<rparr>"
  have ok: "good E ?w"
    using assms(2) set_remove1_subset [of g "gos w"] by (auto simp: good_def world_ok_def keyed_def cache_ok_def)
  have a: "go_addr g < length (heap ?w)" using assms(2,3) by (simp add: good_def world_ok_def)
  show ?thesis
    using Push_good [OF assms(1) ok, of "go_addr g"] save_good [OF assms(1) ok, of "go_addr g"] a assms(4)
    by (cases g) (auto simp: grows_def)
qed

lemma step_grows:
  assumes laws: "env_laws E" and good: "good E w" and pend: "pending_ok E (w, P)"
    and step: "sys_step E l (w, P) (w', P')"
  shows "grows E w w' \<and> pending_ok E (w', P')"
proof -
  have keep: ?thesis if "grows E w w'" "P' = P" using that step_pending [OF pend] by simp
  from step show ?thesis
  proof cases
    case (cluster_changes L)
    then show ?thesis using good
      by (intro keep) (auto simp: grows_def good_def world_ok_def keyed_def cache_ok_def store_def)
  next
    case (save_computes a ep arr)
    then have eq: "w' = next_tick w" "P' = (a, ep, arr) # P" "a < length (heap w)"
      and p: "prepared E a w = Some (ep, arr)" by auto
    have "order_law E" "store_ok (store w a)"
      using laws good eq(3) by (auto simp: env_laws_def good_def world_okD)
    note made = prepared_Some [OF this p] prepared_computed [OF good_traced [OF good eq(3)] p]
    have "grows E w w'" using good by (simp add: eq(1) grows_def good_def keyed_def cache_ok_def)
    then show ?thesis using made eq pend by (auto simp: pending_ok_def)
  next
    case (save_commits a ep arr)
    then have eq: "w' = commit_endpoints a ep arr w" "P' = P" "(a, ep, arr) \<in> set P" by auto
    have made: "a < length (heap w)" "computed E (cs_Config (store w a)) ep"
      "\<exists>m. wf_gomap m \<and> \<not> isInvalidIP m \<and> ep = publishEp m \<and> arr = sort (publishEpArray m)"
      using pend eq(3) unfolding pending_ok_def by auto
    have "world_ok w'" using commit_ok [of w a ep arr] good made by (simp add: eq(1) good_def)
    moreover have "traced E (store w' a)" using commit_traced [OF good_traced [OF good made(1)] made(2)] by (simp add: eq(1))
    ultimately have "grows E w w'" using good_same_but [OF good, of w' a] same_but_commit [of a w ep arr] by (simp add: eq(1))
    then show ?thesis using eq(2) by (rule keep)
  next
    case (goroutine_runs g)
    then show ?thesis using goroutine_good [OF laws good] by (intro keep) auto
  next
    case (store_syncs a)
    then show ?thesis using sync_version_good [OF good] by (intro keep) auto
  next
    case (secrets_load a err)
    then show ?thesis using LoadNewSecrets_good [OF good] by (intro keep) auto
  next
    case (rotation_pushes a)
    then show ?thesis using Push_good [OF laws good] by (intro keep) auto
  next
    case (event_arrives ev)
    then show ?thesis using deliver_good [OF laws good] by (intro keep) auto
  next
    case (update_stops cm entry n)
    then show ?thesis using stop_old_good [OF good] by (intro keep) auto
  next
    case (drain_starts n a cm)
    then show ?thesis using stop_old_good [OF good] stop_listed [OF good] by (intro keep) auto
  next
    case (drain_ends n a cm)
    then show ?thesis using end_drain_good [OF laws good] by (intro keep) auto
  qed
qed

lemma reachable_good:
  assumes "env_laws E" and "reachable E s"
  shows "good E (fst s) \<and> pending_ok E s"
  using assms(2)
proof induction
  case (start c L)
  then show ?case
    by (simp add: good_def world_ok_def keyed_def cache_ok_def pending_ok_def initial_world_def)
next
  case (next_step s l t)
  obtain w P w' P' where "s = (w, P)" "t = (w', P')" by fastforce
  with step_grows [OF assms(1)] next_step show ?case unfolding grows_def by (metis fst_conv)
qed

text \<open>
  Property (C3). A node is only ever served its own configuration: in every interleaving of informer
  events, saves, pushes, synchronisations, certificate rotations, stops and drains, the snapshot served
  to a node was made from the configuration of one of the program's stores whose ID is that node's,
  and from endpoints that are either none yet or the ones computed for this configuration in some state
  of the cluster, with every address a valid IP address. Every store in the map is filed under the ID of its configuration.
\<close>

theorem served_snapshots_safe:
  assumes "env_laws E" and "reachable E (w, P)"
  shows "(\<forall>n s. fst (GetSnapshot (e_xds E) n (Cache w)) = Some s \<longrightarrow>
      (\<exists>a < length (heap w). ct_ID (cs_Config (store w a)) = n \<and>
        (\<exists>v ep secs. GetConfigSnapshot (e_xds E) v (cs_Config (store w a)) ep secs = Inr s \<and>
           (ep = [] \<or> computed E (cs_Config (store w a)) ep) \<and>
           (\<forall>(c, v1, v2) \<in> set (cluster_members (assignments ep)). ParseIP (GetAddress v2))))) \<and>
    (\<forall>(n, a) \<in> set (StoreMap w). a < length (heap w) \<and> ct_ID (cs_Config (store w a)) = n)"
proof -
  have g: "good E w" using reachable_good [OF assms] by simp
  have ips: "\<forall>(c, v1, v2) \<in> set (cluster_members (assignments ep)). ParseIP (GetAddress v2)" if "valid_endpoints ep" for ep
    using that by (auto simp: valid_endpoints_def isInvalidIP_def list_ex_iff)
  have "\<exists>v ep secs. GetConfigSnapshot (e_xds E) v cfg ep secs = Inr s \<and> (ep = [] \<or> computed E cfg ep) \<and>
      (\<forall>(c, v1, v2) \<in> set (cluster_members (assignments ep)). ParseIP (GetAddress v2))" if "served_from E cfg s" for cfg s
    using that ips unfolding served_from_def by blast
  note from_store = this
  have ok: "cache_ok E w" using g by (simp add: good_def)
  show ?thesis
  proof (intro conjI allI impI)
    fix n s assume "fst (GetSnapshot (e_xds E) n (Cache w)) = Some s"
    with ok obtain a where a: "a < length (heap w)" "ct_ID (cs_Config (store w a)) = n"
      "served_from E (cs_Config (store w a)) s" unfolding cache_ok_def by blast
    from a(1,2) from_store [OF a(3)] show "\<exists>a < length (heap w). ct_ID (cs_Config (store w a)) = n \<and>
        (\<exists>v ep secs. GetConfigSnapshot (e_xds E) v (cs_Config (store w a)) ep secs = Inr s \<and>
           (ep = [] \<or> computed E (cs_Config (store w a)) ep) \<and>
           (\<forall>(c, v1, v2) \<in> set (cluster_members (assignments ep)). ParseIP (GetAddress v2)))" by blast
  qed (use good_addr [OF g] in auto)
qed

lemma demo_env_env_laws: "env_laws demo_env"
  using demo_env_laws by (simp add: env_laws_def)

lemma demo_started: "reachable demo_env (initial_world [] demo_listers, [])"
  by (rule start) (simp add: demo_env_def map_xds_def)

abbreviation demo_start :: "map_snapshot gomap world" where
  "demo_start \<equiv> initial_world [] demo_listers"

text \<open>The ConfigMap arrives, a store is made for its node and pushes.\<close>

lemma demo_installed:
  "\<exists>w. reachable demo_env (w, []) \<and> map_of (StoreMap w) ''node1'' = Some 0 \<and> 0 < length (heap w) \<and>
     deliver demo_env (ConfigAdd (KConfigMap (demo_cm ''node''))) demo_start = Ret w"
proof -
  let ?start = "demo_start\<lparr>w_metrics := Inc ConfigmapsstoreAddFunc (w_metrics demo_start)\<rparr>"
  have ok: "world_ok ?start" by (simp add: world_ok_def initial_world_def)
  then obtain w where w: "NewConfigMap demo_env (demo_cm ''node'') ?start = Ret (None, w)"
    using demo_new_config by blast
  have run: "deliver demo_env (ConfigAdd (KConfigMap (demo_cm ''node''))) demo_start = Ret w"
    using w by (simp add: deliver_def handler_defs registered_def run_callback_def)
  obtain e where e: "new_entry demo_env (demo_cm ''node'') ''node1'' ''node'' ?start = Ret (None, e)"
    using demo_new_entry [OF ok] by blast
  have data: "nilmap (cm_Data (demo_cm ''node'')) = [(''node1'', ''node'')]" by (simp add: demo_cm_def)
  from w e have "e = w" unfolding NewConfigMap_def demo_selected data by simp
  obtain id where "entry_id demo_env (demo_cm ''node'') (''node1'', ''node'') = Some id"
    "StoreMap e = AList.update id (length (heap ?start)) (StoreMap ?start)"
    "length (heap e) = Suc (length (heap ?start))"
    by (rule new_entry_ok [OF demo_env_laws(1) ok e]) blast
  moreover have "entry_id demo_env (demo_cm ''node'') (''node1'', ''node'') = Some ''node1''"
    using demo_parse demo_settled_id by (simp add: entry_id_def)
  ultimately have "map_of (StoreMap w) ''node1'' = Some 0 \<and> 0 < length (heap w)"
    using \<open>e = w\<close> by (simp add: initial_world_def)
  with run next_step [OF demo_started event_arrives [OF run]] show ?thesis by blast
qed

lemma demo_pushes: "\<exists>w'. Push demo_env a reason w = Some w'"
proof -
  have "e_uuid demo_env (uuids w) \<noteq> e_uuid demo_env (Suc (uuids w))" by (simp add: demo_env_def)
  then have "\<exists>k. uuids w \<le> k \<and> e_uuid demo_env k \<noteq> cs_Version (store w a)" by (metis le_refl le_SucI)
  then show ?thesis
    using Push_None_iff [of demo_env a reason w] by (cases "Push demo_env a reason w") auto
qed

theorem served_snapshots_safe_witness:
  "\<exists>w snap. reachable demo_env (w, []) \<and> fst (GetSnapshot map_xds ''node1'' (Cache w)) = Some snap \<and>
     (\<exists>a < length (heap w). ct_ID (cs_Config (store w a)) = ''node1'' \<and>
        (\<exists>v ep secs. GetConfigSnapshot map_xds v (cs_Config (store w a)) ep secs = Inr snap))"
proof -
  obtain w where w: "reachable demo_env (w, [])" "map_of (StoreMap w) ''node1'' = Some 0" "0 < length (heap w)"
    using demo_installed by blast
  then have id: "ct_ID (cs_Config (store w 0)) = ''node1''"
    using served_snapshots_safe [OF demo_env_env_laws w(1)] map_of_SomeD [OF w(2)] by blast
  obtain w' where w': "Push demo_env 0 ''LoadNewSecrets'' w = Some w'" using demo_pushes by blast
  have r: "reachable demo_env (w', [])" by (rule next_step [OF w(1) rotation_pushes [OF w(3) w']])
  have X: "e_xds demo_env = map_xds" by (simp add: demo_env_def)
  obtain snap where snap: "fst (GetSnapshot map_xds ''node1'' (Cache w')) = Some snap"
    using Push_serves [OF demo_env_laws(2-4) w(3) w', unfolded id X] by (metis fst_conv)
  with served_snapshots_safe [OF demo_env_env_laws r, unfolded X] r show ?thesis by blast
qed

section \<open>Events, synchronisation and rotation\<close>

text \<open>
  Property (C17). A stopped store is out of the game: no pod, endpoint or synchronisation event
  changes it or touches the snapshots, even while it is still listed in the store map.
\<close>

theorem stopped_store_untouched:
  assumes "isStoped (store w b)" and "\<forall>cm. cb \<noteq> OnNewConfig cm \<and> cb \<noteq> OnDeleteConfig cm"
    and "run_callback E cb w = Ret w' \<or> sync_pass E w = Ret w'"
  shows "store w' b = store w b \<and> Cache w' = Cache w \<and> StoreMap w' = StoreMap w"
  using assms(3)
proof
  assume "sync_pass E w = Ret w'"
  then show ?thesis unfolding sync_pass_def
    using on_sync.broadcast_stopped [OF _ assms(1)] on_sync.broadcast_keeps by blast
next
  assume run: "run_callback E cb w = Ret w'"
  consider "Range_stores (\<lambda>a w. Ret (NewPod E a w)) w = Ret w'"
    | "Range_stores (\<lambda>a w. Ret (DeletePod E a w)) w = Ret w'"
    | "Range_stores (\<lambda>a w. Ret (NewEndpoint E a w)) w = Ret w'"
    using run assms(2) by (cases cb) (auto simp: run_callback_def)
  then show ?thesis
  proof cases
    case 1
    with on_pod.broadcast_stopped [OF 1 assms(1)] on_pod.broadcast_keeps [OF 1] show ?thesis by blast
  next
    case 2
    with on_delete.broadcast_stopped [OF 2 assms(1)] on_delete.broadcast_keeps [OF 2] show ?thesis by blast
  next
    case 3
    with on_endpoint.broadcast_stopped [OF 3 assms(1)] on_endpoint.broadcast_keeps [OF 3] show ?thesis by blast
  qed
qed

theorem stopped_store_untouched_witness:
  "\<exists>w'. run_callback demo_env (OnNewPod (demo_pod ''p'' ''10.0.0.9'' ''True'')) (Stop 0 demo_filed) = Ret w' \<and>
     store w' 0 = store (Stop 0 demo_filed) 0 \<and> snd ` set (StoreMap w') = {0}"
proof -
  let ?w = "Stop 0 demo_filed" and ?cb = "OnNewPod (demo_pod ''p'' ''10.0.0.9'' ''True'')"
  have st: "isStoped (store ?w 0)" by (simp add: Stop_def store_upd_store demo_filed_def demo_world_def)
  have sm: "StoreMap ?w = [(''node1'', 0)]" by (simp add: Stop_def demo_filed_def)
  have run: "run_callback demo_env ?cb ?w = Ret ?w"
    using st sm by (simp add: run_callback_def Range_stores_def NewPod_def hasStoped_def)
  from stopped_store_untouched [OF st, of ?cb demo_env ?w] run sm show ?thesis by auto
qed

text \<open>
  A deletion the informer learns about late ends the process: client-go hands
  \<^verbatim>\<open>DeleteFunc\<close> a tombstone instead of the object, and the type assertion of both handlers is fatal.
\<close>

theorem tombstone_is_fatal:
  "deliver E (PodDelete (DeletedFinalStateUnknown k)) w = Exit errAssertion \<and>
   deliver E (ConfigDelete (DeletedFinalStateUnknown k)) w = Exit errAssertion"
  by (simp add: deliver_def handler_defs)

text \<open>
  Property (C20). Synchronising a running store whose endpoints can be computed before its first
  snapshot is in the cache ends the process: the error of \<^verbatim>\<open>GetSnapshot\<close> is only logged and the nil
  snapshot is used.
\<close>

theorem sync_without_snapshot_panics:
  assumes "order_law E" and "world_ok w" and "a < length (heap w)" and "\<not> isStoped (store w a)"
    and "prepared E a w \<noteq> None"
    and "fst (GetSnapshot (e_xds E) (ct_ID (cs_Config (store w a))) (Cache w)) = None"
  shows "Sync E a w = Panic ''nil pointer dereference''"
  using save_not_nil [OF assms(1,2,5,3)] same_but_save [of a w E] assms(4,6)
  by (simp add: Sync_def hasStoped_def sync_version_def same_but_def)

theorem sync_without_snapshot_panics_witness:
  "Sync demo_env 0 demo_one = Panic ''nil pointer dereference''"
proof (rule sync_without_snapshot_panics [OF demo_env_laws(1) demo_one_ok demo_prepared])
  show "fst (GetSnapshot (e_xds demo_env) (ct_ID (cs_Config (store demo_one 0))) (Cache demo_one)) = None"
    by (simp add: demo_env_def map_xds_def demo_one_def with_store_def demo_world_def)
qed

text \<open>
  Property (C15). A rotation either leaves the store as it was, when issuing fails, or gives it the
  new secrets and serves its node a snapshot with a fresh version that contains them together with
  the configuration and endpoints the store already had.
\<close>

theorem rotation_serves_new_secrets:
  assumes "cache_laws (e_xds E)" and "version_law (e_xds E)" and "calls_succeed (e_xds E)"
    and "a < length (heap w)" and "rotate_entry E a w = Ret (Some w')"
  shows "(\<exists>err. secrets_for E a w = Ret (Inl err) \<and> w' = next_tick w) \<or>
    (\<exists>s v snap. secrets_for E a w = Ret (Inr s) \<and> v \<noteq> cs_Version (store w a) \<and>
       store w' a = (store w a)\<lparr>cs_secrets := s, cs_Version := v\<rparr> \<and>
       GetConfigSnapshot (e_xds E) v (cs_Config (store w a)) (published (store w a)) s = Inr snap \<and>
       GetSnapshot (e_xds E) (ct_ID (cs_Config (store w a))) (Cache w') = (Some snap, None))"
proof (cases rule: LoadNewSecrets_cases [of E w a])
  case (fail err)
  with assms(5) show ?thesis by (simp add: rotate_entry_def)
next
  case (made s)
  let ?w = "upd_store a (\<lambda>cs. cs\<lparr>cs_secrets := s\<rparr>) (next_tick w)"
  have st: "store ?w a = (store w a)\<lparr>cs_secrets := s\<rparr>" and len: "a < length (heap ?w)"
    using assms(4) by (simp_all add: store_upd_store)
  from made assms(5) have push: "Push E a ''LoadNewSecrets'' ?w = Some w'" by (simp add: rotate_entry_def)
  obtain v where v: "v \<noteq> cs_Version (store ?w a)" "store w' a = (store ?w a)\<lparr>cs_Version := v\<rparr>"
    by (rule Push_cases [OF push len]) blast
  obtain snap where snap: "GetSnapshot (e_xds E) (ct_ID (cs_Config (store ?w a))) (Cache w') = (Some snap, None)"
    "snapshot_of E (store w' a) = Inr snap"
    by (rule Push_serves [OF assms(1-3) len push]) blast
  show ?thesis
    using made(1) v snap unfolding st
    by (intro disjI2 exI [of _ s] exI [of _ v] exI [of _ snap]) (simp add: snapshot_of_def published_def)
qed

lemma demo_rotates: "\<exists>w' s. secrets_for demo_env 0 demo_one = Ret (Inr s) \<and> rotate_entry demo_env 0 demo_one = Ret (Some w')"
proof -
  have cfg: "cs_Config (store demo_one 0) = demo_node" by code_simp
  have name: "ct_Name demo_node = ''node1''" and val: "Validation demo_node = None"
    by (simp_all add: demo_node_def empty_config_def)
  obtain s where s: "secrets_for demo_env 0 demo_one = Ret (Inr s)"
    unfolding cfg name val
    by (simp add: NewSecrets_def NewCertificate_def GenServerCert_def genCert_def exportPrivateKey_def
        validation_context_def issuer_of_def demo_env_def demo_crypto_def Let_def)
  let ?w = "upd_store 0 (\<lambda>cs. cs\<lparr>cs_secrets := s\<rparr>) (next_tick demo_one)"
  have "uuids ?w = uuids demo_one" "cs_Version (store ?w 0) = cs_Version (store demo_one 0)"
    using demo_one_ok(2) by (simp_all add: store_upd_store)
  then have "Push demo_env 0 ''LoadNewSecrets'' ?w \<noteq> None"
    using demo_uuid by (simp add: Push_None_iff)
  then show ?thesis using s LoadNewSecrets_eq(2) [OF s] by (auto simp: rotate_entry_def)
qed

theorem rotation_serves_new_secrets_witness:
  "\<exists>w' s v snap. rotate_entry demo_env 0 demo_one = Ret (Some w') \<and>
     store w' 0 = (store demo_one 0)\<lparr>cs_secrets := s, cs_Version := v\<rparr> \<and>
     GetSnapshot map_xds ''node1'' (Cache w') = (Some snap, None)"
proof -
  obtain w' s where w': "rotate_entry demo_env 0 demo_one = Ret (Some w')" "secrets_for demo_env 0 demo_one = Ret (Inr s)"
    using demo_rotates by blast
  have id: "ct_ID (cs_Config (store demo_one 0)) = ''node1''" by code_simp
  have X: "e_xds demo_env = map_xds" by (simp add: demo_env_def)
  from rotation_serves_new_secrets [OF demo_env_laws(2,3,4) demo_one_ok(2) w'(1), unfolded id X w'(2)]
  show ?thesis using w'(1) by auto
qed

end
