(* ===== verification/MainCmd.thy ===== *)
theory MainCmd
  imports Internal
begin

text \<open>
  \<^verbatim>\<open>cmd/main/main.go\<close>: the entry point, how a program instance is started, the leader election and the
  signal handler. A run is the trace of what it did and how it ended: \<open>Ret ()\<close> is exit status 0,
  \<open>Exit\<close> a fatal log (status 1). Once \<^verbatim>\<open>main\<close> has registered its exit handler, a fatal log cancels the
  context and sleeps the grace period before the process ends, while the other goroutines run on.
\<close>

definition defaultLeaseDuration :: int where "defaultLeaseDuration = 15 * Second"
definition defaultRenewDeadline :: int where "defaultRenewDeadline = 10 * Second"
definition defaultRetryPeriod :: int where "defaultRetryPeriod = 2 * Second"

record lease_lock =
  lk_Name :: string
  lk_Namespace :: string
  lk_Identity :: string

record election =
  el_Lock :: lease_lock
  el_ReleaseOnCancel :: bool
  el_LeaseDuration :: int
  el_RenewDeadline :: int
  el_RetryPeriod :: int

datatype step =
    PrintVersion string | ConfigOK string | Initialised app_config | SetMaster nat | GoWebStart
  | GoElection election | InformersStarted "start_event list" | ControlPlaneReady grpc_server
  | GoControlplaneStart | GoWebStartTLS | AwaitDone | GraceSleep int | FatalLog goerr | CancelContext

type_synonym 'a run = "step list \<times> 'a outcome"

definition run_then :: "'a run \<Rightarrow> ('a \<Rightarrow> 'b run) \<Rightarrow> 'b run" where
  "run_then r f =
     (case r of
        (t, Ret x) \<Rightarrow> (case f x of (t', y) \<Rightarrow> (t @ t', y))
      | (t, Exit e) \<Rightarrow> (t, Exit e)
      | (t, Panic p) \<Rightarrow> (t, Panic p))"

text \<open>The function given to \<^verbatim>\<open>log.RegisterExitHandler\<close>, run by a fatal log before the exit.\<close>

definition exit_handler :: "int \<Rightarrow> step list" where
  "exit_handler gracePeriod = [CancelContext, GraceSleep gracePeriod]"

definition with_exit_handler :: "int \<Rightarrow> 'a run \<Rightarrow> 'a run" where
  "with_exit_handler gracePeriod r =
     (case r of (t, Exit e) \<Rightarrow> (t @ FatalLog e # exit_handler gracePeriod, Exit e) | _ \<Rightarrow> r)"

definition quiet :: "'a outcome \<Rightarrow> 'a run" where "quiet m = ([], m)"
definition emit :: "step list \<Rightarrow> unit run" where "emit t = (t, Ret ())"

text \<open>The functions of the other packages that \<^verbatim>\<open>main\<close> calls; \<open>ck\<close> and \<open>nonce\<close> are the clock and randomness.\<close>

record ('rc, 'cs) main_env =
  me_libs :: "('rc, 'cs) init_libs"
  me_loader :: loader
  me_version :: string
  me_setErr :: "informer \<Rightarrow> goerr option"
  me_synced :: "informer \<Rightarrow> bool"
  me_clock :: "nat \<Rightarrow> int"
  me_nonce :: nat

definition program_start :: "('rc, 'cs) main_env \<Rightarrow> ca_state \<Rightarrow> unit run" where
  "program_start M ca =
     run_then (quiet (internal_Start (me_setErr M) (me_synced M)))
       (\<lambda>evs. run_then (emit [InformersStarted evs])
       (\<lambda>_. run_then (quiet (controlplane_Init (il_crypto (me_libs M)) ca (me_clock M) (me_nonce M)))
       (\<lambda>srv. emit [ControlPlaneReady srv, GoControlplaneStart, GoWebStartTLS])))"

definition GetLeaseLock :: "string \<Rightarrow> string \<Rightarrow> lease_lock" where
  "GetLeaseLock podNamespace podName =
     \<lparr>lk_Name = AppName, lk_Namespace = podNamespace, lk_Identity = podName\<rparr>"

definition RunLeaderElection :: "app_config \<Rightarrow> unit run" where
  "RunLeaderElection cfg =
     (if length (Namespace cfg) = 0 then ([], Exit (Err ''-namespace is not set''))
      else if length (PodName cfg) = 0 then ([], Exit (Err ''-pod is not set''))
      else emit [GoElection
        \<lparr>el_Lock = GetLeaseLock (Namespace cfg) (PodName cfg), el_ReleaseOnCancel = True,
         el_LeaseDuration = defaultLeaseDuration, el_RenewDeadline = defaultRenewDeadline,
         el_RetryPeriod = defaultRetryPeriod\<rparr>])"

text \<open>The handler reads the grace period when it runs, after \<^verbatim>\<open>config.Load\<close> whether or not that failed.\<close>

definition main_cmd :: "('rc, 'cs) main_env \<Rightarrow> bool \<Rightarrow> string \<Rightarrow> app_config \<Rightarrow> unit run" where
  "main_cmd M version validate flags =
     (if version then emit [PrintVersion (me_version M)]
      else if validate \<noteq> '''' then
        run_then (quiet (ValidateConfig (il_readFile (me_libs M)) (me_loader M) flags validate))
          (\<lambda>_. emit [ConfigOK validate])
      else
        with_exit_handler (GracePeriod (fst (Load (il_readFile (me_libs M)) (il_unmarshal (me_libs M)) flags)))
          (run_then (quiet (internal_Init (me_libs M) flags))
          (\<lambda>(cfg, client, ca).
             run_then (emit [Initialised cfg, SetMaster 0, GoWebStart])
             (\<lambda>_. run_then (if LeaderElection cfg then RunLeaderElection cfg else program_start M ca)
             (\<lambda>_. emit [AwaitDone, GraceSleep (GracePeriod cfg)])))))"

section \<open>Signals\<close>

text \<open>
  The goroutine of \<^verbatim>\<open>main\<close>: it waits for a signal or the end of the context, cancels on a signal, and
  ends the process on the next signal.
\<close>

datatype sig_phase = WaitFirst | WaitSecond
datatype sig_event = Interrupt | ContextDone

definition signal_step :: "sig_event \<Rightarrow> sig_phase \<times> bool \<Rightarrow> (sig_phase \<times> bool) outcome" where
  "signal_step ev s =
     (case s of
        (WaitFirst, cancelled) \<Rightarrow>
          (case ev of Interrupt \<Rightarrow> Ret (WaitSecond, True) | ContextDone \<Rightarrow> Ret (WaitSecond, cancelled))
      | (WaitSecond, cancelled) \<Rightarrow>
          (case ev of Interrupt \<Rightarrow> Exit (Err ''exit 1'') | ContextDone \<Rightarrow> Ret s))"

section \<open>The life of an elected process\<close>








section \<open>What a run does\<close>

lemma run_then_simps [simp]:
  "run_then (emit t) f = (t @ fst (f ()), snd (f ()))"
  "run_then (quiet (Ret x)) g = g x"
  "run_then (quiet (Exit e)) g = ([], Exit e)"
  "run_then (quiet (Panic m)) g = ([], Panic m)"
  by (simp_all add: run_then_def emit_def quiet_def split: prod.split)

lemma snd_emit [simp]: "snd (emit t) = Ret ()" "fst (emit t) = t"
  by (simp_all add: emit_def)

lemma run_then_Ret:
  "run_then r f = (t, Ret y) \<longleftrightarrow> (\<exists>t1 x t2. r = (t1, Ret x) \<and> f x = (t2, Ret y) \<and> t = t1 @ t2)"
  by (cases r; cases "snd r") (auto simp: run_then_def split: prod.splits)

lemma with_exit_handler_Ret [simp]: "with_exit_handler g r = (t, Ret x) \<longleftrightarrow> r = (t, Ret x)"
  by (auto simp: with_exit_handler_def split: prod.splits outcome.splits)

lemma program_start_Ret:
  "program_start M ca = (t, Ret ()) \<longleftrightarrow>
     (\<exists>evs srv. internal_Start (me_setErr M) (me_synced M) = Ret evs \<and>
        controlplane_Init (il_crypto (me_libs M)) ca (me_clock M) (me_nonce M) = Ret srv \<and>
        t = [InformersStarted evs, ControlPlaneReady srv, GoControlplaneStart, GoWebStartTLS])"
proof -
  have q: "quiet m = (t1, Ret x) \<longleftrightarrow> t1 = [] \<and> m = Ret x" "emit t = (t1, Ret u) \<longleftrightarrow> t1 = t" for m t1 x t u
    by (auto simp: quiet_def emit_def)
  show ?thesis unfolding program_start_def run_then_Ret q by auto
qed

text \<open>
  Property (C34). A run that comes to its orderly end has initialised, announced that it is not the
  master and started the metrics server, in this order; with leader election it has then joined the
  election of its namespace under its pod name and started neither the informers nor the xDS server
  itself; without, it has started the informers before setting up and serving xDS.
\<close>

theorem main_starts_in_order:
  assumes "main_cmd M False '''' flags = (t, Ret ())"
  shows "\<exists>cfg client ca mid. internal_Init (me_libs M) flags = Ret (cfg, client, ca) \<and>
    t = [Initialised cfg, SetMaster 0, GoWebStart] @ mid @ [AwaitDone, GraceSleep (GracePeriod cfg)] \<and>
    (if LeaderElection cfg
     then Namespace cfg \<noteq> '''' \<and> PodName cfg \<noteq> '''' \<and> (\<exists>el. mid = [GoElection el] \<and>
       el_Lock el = GetLeaseLock (Namespace cfg) (PodName cfg) \<and>
       el_RetryPeriod el < el_RenewDeadline el \<and> el_RenewDeadline el < el_LeaseDuration el)
     else \<exists>evs srv. mid = [InformersStarted evs, ControlPlaneReady srv, GoControlplaneStart, GoWebStartTLS] \<and>
       internal_Start (me_setErr M) (me_synced M) = Ret evs)"
proof -
  from assms obtain cfg client ca t2 where
    init: "internal_Init (me_libs M) flags = Ret (cfg, client, ca)"
    and mid: "(if LeaderElection cfg then RunLeaderElection cfg else program_start M ca) = (t2, Ret ())"
    and t: "t = [Initialised cfg, SetMaster 0, GoWebStart] @ t2 @ [AwaitDone, GraceSleep (GracePeriod cfg)]"
    unfolding main_cmd_def run_then_Ret by (auto simp: quiet_def emit_def run_then_def split: prod.splits outcome.splits if_splits)
  have "Namespace cfg \<noteq> '''' \<and> PodName cfg \<noteq> '''' \<and> (\<exists>el. t2 = [GoElection el] \<and>
       el_Lock el = GetLeaseLock (Namespace cfg) (PodName cfg) \<and>
       el_RetryPeriod el < el_RenewDeadline el \<and> el_RenewDeadline el < el_LeaseDuration el)" if "LeaderElection cfg"
    using mid that
    by (auto simp: RunLeaderElection_def emit_def defaultRetryPeriod_def defaultRenewDeadline_def
        defaultLeaseDuration_def Second_def split: if_splits)
  moreover have "\<exists>evs srv. t2 = [InformersStarted evs, ControlPlaneReady srv, GoControlplaneStart, GoWebStartTLS] \<and>
       internal_Start (me_setErr M) (me_synced M) = Ret evs" if "\<not> LeaderElection cfg"
    using mid that by (auto simp: program_start_Ret)
  ultimately show ?thesis using init t by auto
qed








text \<open>After the first event, a signal ends the process and nothing else does.\<close>

lemma signals_end:
  "run_outcome signal_step evs (WaitSecond, c) = (if Interrupt \<in> set evs then Exit (Err ''exit 1'') else Ret (WaitSecond, c))"
proof (induction evs)
  case (Cons ev evs)
  then show ?case by (cases ev) (simp_all add: signal_step_def)
qed simp

lemma signals_from_start:
  "run_outcome signal_step (ev # evs) (WaitFirst, False) =
     (if Interrupt \<in> set evs then Exit (Err ''exit 1'') else Ret (WaitSecond, ev = Interrupt))"
  by (cases ev) (simp_all add: signal_step_def signals_end)

section \<open>An example process\<close>

definition demo_main :: "crypto \<Rightarrow> (unit, unit) main_env" where
  "demo_main K =
     \<lparr>me_libs = \<lparr>il_readFile = (\<lambda>f. Inl (Err ''no such file'')), il_unmarshal = (\<lambda>t c. (c, None)),
        il_ParseLevel = (\<lambda>l. None), il_stat = (\<lambda>f. StatOk), il_BuildConfigFromFlags = (\<lambda>f. Inr ()),
        il_InClusterConfig = Inr (), il_NewForConfig = (\<lambda>rc. Inr ()), il_crypto = K, il_clock = (\<lambda>_. 0)\<rparr>,
      me_loader = demo_loader, me_version = ''dev'', me_setErr = (\<lambda>i. None), me_synced = (\<lambda>i. True),
      me_clock = (\<lambda>_. 0), me_nonce = 0\<rparr>"

theorem main_starts_in_order_witness:
  "\<exists>t el. main_cmd (demo_main (demo_crypto (root_template (\<lambda>_. 0)))) False '''' (default_config (\<lambda>_. ''pod-1'') ''dev'') = (t, Ret ()) \<and>
     GoElection el \<in> set t \<and> lk_Identity (el_Lock el) = ''pod-1''"
proof -
  let ?M = "demo_main (demo_crypto (root_template (\<lambda>_. 0)))" and ?f = "default_config (\<lambda>_. ''pod-1'') ''dev''"
  obtain client ca where init: "internal_Init (me_libs ?M) ?f = Ret (?f, client, ca)"
    by (simp add: internal_Init_def demo_main_def Load_def CheckConfig_def check_file_def default_config_def
        getEnvDefault_def api_Init_def newClient_def certs_Init_def GenCARoot_def genCert_def exportPrivateKey_def
        demo_crypto_def Let_def wrap_def)
  have f: "LeaderElection ?f" "Namespace ?f = ''pod-1''" "PodName ?f = ''pod-1''"
    by (simp_all add: default_config_def getEnvDefault_def)
  have run: "main_cmd ?M False '''' ?f = (fst (main_cmd ?M False '''' ?f), Ret ())"
    using init f by (simp add: main_cmd_def RunLeaderElection_def with_exit_handler_def prod_eq_iff)
  from main_starts_in_order [OF run] init f obtain el where
    "GoElection el \<in> set (fst (main_cmd ?M False '''' ?f))" "lk_Identity (el_Lock el) = ''pod-1''"
    by (auto simp: GetLeaseLock_def)
  with run show ?thesis by metis
qed


end
