(* ===== verification/Url.thy ===== *)
theory Url
  imports GoStd
begin

text \<open>
  The parts of \<^verbatim>\<open>net/url\<close> and \<^verbatim>\<open>net/http\<close> that the web server and the command-line client meet on:
  percent encoding, form values, the parsed form of a request, and the path cleaning and pattern
  matching of \<^verbatim>\<open>ServeMux\<close>. The round trip from \<^verbatim>\<open>Values.Encode\<close> to \<^verbatim>\<open>ParseForm\<close> is proved here.
\<close>

section \<open>Percent encoding\<close>

definition unreserved :: "char \<Rightarrow> bool" where
  "unreserved c =
     (let n = (of_char c :: nat)
      in 48 \<le> n \<and> n \<le> 57 \<or> 65 \<le> n \<and> n \<le> 90 \<or> 97 \<le> n \<and> n \<le> 122 \<or> c \<in> set ''-_.~'')"

definition upperhex :: "nat \<Rightarrow> char" where
  "upperhex n = (if n < 10 then char_of (48 + n) else char_of (55 + n))"

definition unhex :: "char \<Rightarrow> nat option" where
  "unhex c =
     (let n = (of_char c :: nat)
      in if 48 \<le> n \<and> n \<le> 57 then Some (n - 48)
         else if 97 \<le> n \<and> n \<le> 102 then Some (n - 87)
         else if 65 \<le> n \<and> n \<le> 70 then Some (n - 55)
         else None)"

definition escape_char :: "char \<Rightarrow> string" where
  "escape_char c =
     (if unreserved c then [c]
      else if c = CHR '' '' then ''+''
      else [CHR ''%'', upperhex (of_char c div 16), upperhex (of_char c mod 16)])"

definition QueryEscape :: "string \<Rightarrow> string" where
  "QueryEscape s = concat (map escape_char s)"

text \<open>The error quotes up to three bytes from the bad percent sign on.\<close>

definition EscapeError :: "string \<Rightarrow> goerr" where
  "EscapeError s = Err (''invalid URL escape '' @ take 3 s)"

fun QueryUnescape :: "string \<Rightarrow> goerr + string" where
  "QueryUnescape [] = Inr []"
| "QueryUnescape (c # s) =
     (if c = CHR ''%'' then
        (case s of
           a # b # t \<Rightarrow>
             (case (unhex a, unhex b) of
                (Some x, Some y) \<Rightarrow> map_sum id (Cons (char_of (x * 16 + y))) (QueryUnescape t)
              | _ \<Rightarrow> Inl (EscapeError (c # s)))
         | _ \<Rightarrow> Inl (EscapeError (c # s)))
      else map_sum id (Cons (if c = CHR ''+'' then CHR '' '' else c)) (QueryUnescape s))"

text \<open>A path segment: no plus signs, and a bad escape is kept as it is.\<close>

fun pathUnescape :: "string \<Rightarrow> string" where
  "pathUnescape (c # a # b # t) =
     (if c = CHR ''%'' then
        (case (unhex a, unhex b) of
           (Some x, Some y) \<Rightarrow> char_of (x * 16 + y) # pathUnescape t
         | _ \<Rightarrow> c # pathUnescape (a # b # t))
      else c # pathUnescape (a # b # t))"
| "pathUnescape s = s"

section \<open>Form values\<close>

text \<open>\<^verbatim>\<open>url.Values\<close>; \<open>Get\<close> is the first value or the empty string.\<close>

type_synonym form = "string list gomap"

definition form_Get :: "form \<Rightarrow> string \<Rightarrow> string" where
  "form_Get f k = (case slot f k of [] \<Rightarrow> '''' | v # _ \<Rightarrow> v)"

fun Join :: "char \<Rightarrow> string list \<Rightarrow> string" where
  "Join sep [] = ''''"
| "Join sep [s] = s"
| "Join sep (s # ss) = s @ sep # Join sep ss"

definition form_pairs :: "form \<Rightarrow> (string \<times> string) list" where
  "form_pairs f = concat (map (\<lambda>k. map (Pair k) (slot f k)) (sort (map fst f)))"

definition escape_pair :: "string \<times> string \<Rightarrow> string" where
  "escape_pair kv = QueryEscape (fst kv) @ CHR ''='' # QueryEscape (snd kv)"

definition form_Encode :: "form \<Rightarrow> string" where
  "form_Encode f = Join (CHR ''&'') (map escape_pair (form_pairs f))"

definition Cut :: "char \<Rightarrow> string \<Rightarrow> string \<times> string" where
  "Cut sep s = (takeWhile (\<lambda>c. c \<noteq> sep) s, drop 1 (dropWhile (\<lambda>c. c \<noteq> sep) s))"

fun first_error :: "goerr option \<Rightarrow> goerr \<Rightarrow> goerr option" where
  "first_error None e = Some e"
| "first_error (Some e) _ = Some e"

definition parse_piece :: "string \<Rightarrow> form \<times> goerr option \<Rightarrow> form \<times> goerr option" where
  "parse_piece piece s =
     (case s of (m, err) \<Rightarrow>
        if CHR '';'' \<in> set piece then (m, Some (Err ''invalid semicolon separator in query''))
        else if piece = '''' then (m, err)
        else
          (case Cut (CHR ''='') piece of (key, val) \<Rightarrow>
             (case QueryUnescape key of
                Inl e \<Rightarrow> (m, first_error err e)
              | Inr k \<Rightarrow>
                  (case QueryUnescape val of
                     Inl e \<Rightarrow> (m, first_error err e)
                   | Inr v \<Rightarrow> (mapappend k [v] m, err)))))"

definition ParseQuery :: "string \<Rightarrow> form \<times> goerr option" where
  "ParseQuery q = fold parse_piece (Split (CHR ''&'') q) ([], None)"

section \<open>Requests\<close>

text \<open>
  The fields of a server-side request that the program reads, directly or through \<^verbatim>\<open>ServeMux\<close> and
  \<^verbatim>\<open>ParseForm\<close>: \<open>rq_EscapedPath\<close> is \<^verbatim>\<open>r.URL.EscapedPath()\<close>, \<open>rq_form_body\<close> the body when its media
  type is \<^verbatim>\<open>application/x-www-form-urlencoded\<close>.
\<close>

record request =
  rq_Method :: string
  rq_EscapedPath :: string
  rq_RawQuery :: string
  rq_form_body :: "string option"
  rq_BasicAuth :: "(string \<times> string) option"

definition URL_Path :: "request \<Rightarrow> string" where
  "URL_Path r = pathUnescape (rq_EscapedPath r)"

definition maxFormSize :: nat where "maxFormSize = 10 * 2 ^ 20"

definition parsePostForm :: "request \<Rightarrow> form \<times> goerr option" where
  "parsePostForm r =
     (case rq_form_body r of
        None \<Rightarrow> ([], None)
      | Some b \<Rightarrow>
          if length b > maxFormSize then ([], Some (Err ''http: POST too large''))
          else ParseQuery b)"

definition copyValues :: "form \<Rightarrow> form \<Rightarrow> form" where
  "copyValues dst src = fold (\<lambda>(k, vs). mapappend k vs) src dst"

text \<open>The values of the body come before those of the query; the first error is returned.\<close>

definition ParseForm :: "request \<Rightarrow> form \<times> goerr option" where
  "ParseForm r =
     (case (if rq_Method r \<in> {''POST'', ''PUT'', ''PATCH''} then parsePostForm r else ([], None)) of
        (post, err) \<Rightarrow>
          (case ParseQuery (rq_RawQuery r) of
             (query, err') \<Rightarrow>
               (copyValues post query, case err of None \<Rightarrow> err' | Some e \<Rightarrow> Some e)))"

section \<open>Path patterns\<close>

text \<open>\<^verbatim>\<open>cleanPath\<close> of \<^verbatim>\<open>net/http\<close>.\<close>

definition cleanPath :: "string \<Rightarrow> string" where
  "cleanPath p =
     (if p = '''' then ''/''
      else let p = (if HasPrefix p ''/'' then p else ''/'' @ p);
               np = path_Clean p
           in if last p = CHR ''/'' \<and> np \<noteq> ''/'' then np @ ''/'' else np)"

text \<open>
  The segments a path is matched by, each unescaped; the last one is \<^verbatim>\<open>"/"\<close> when the path ends in a
  slash. A pattern ending in a slash matches any non-empty rest.
\<close>

definition path_segments :: "string \<Rightarrow> string list" where
  "path_segments p =
     (case Split (CHR ''/'') p of
        [] \<Rightarrow> []
      | _ # segs \<Rightarrow>
          if segs \<noteq> [] \<and> last segs = '''' then map pathUnescape (butlast segs) @ [''/'']
          else map pathUnescape segs)"

definition is_multi :: "string \<Rightarrow> bool" where
  "is_multi pat \<longleftrightarrow> HasSuffix pat ''/''"

definition pattern_matches :: "string \<Rightarrow> string \<Rightarrow> bool" where
  "pattern_matches pat p =
     (let segs = path_segments p; ps = path_segments pat
      in if is_multi pat then take (length ps - 1) segs = butlast ps \<and> length ps \<le> length segs
         else segs = ps)"

text \<open>Literal patterns win; among the others, the longest.\<close>

definition best_match :: "string list \<Rightarrow> string \<Rightarrow> string option" where
  "best_match pats p =
     (case filter (\<lambda>pat. pattern_matches pat p) pats of
        [] \<Rightarrow> None
      | ms \<Rightarrow>
          (case filter (\<lambda>pat. \<not> is_multi pat) ms of
             m # _ \<Rightarrow> Some m
           | [] \<Rightarrow> Some (foldl (\<lambda>m pat. if length m < length pat then pat else m) (hd ms) ms)))"

definition exactMatch :: "string option \<Rightarrow> string \<Rightarrow> bool" where
  "exactMatch m p =
     (case m of
        None \<Rightarrow> False
      | Some pat \<Rightarrow>
          \<not> is_multi pat \<or>
          (HasSuffix p ''/'' \<or> p = '''') \<and> length (path_segments pat) = length (filter (\<lambda>c. c = CHR ''/'') p))"

definition slash_redirect :: "string list \<Rightarrow> string \<Rightarrow> bool" where
  "slash_redirect pats p \<longleftrightarrow>
     \<not> exactMatch (best_match pats p) p \<and> \<not> HasSuffix p ''/'' \<and> p \<noteq> '''' \<and>
     exactMatch (best_match pats (p @ ''/'')) (p @ ''/'')"

datatype mux_target = MuxHandler string | MuxRedirect string | MuxNotFound

definition mux_find :: "string list \<Rightarrow> request \<Rightarrow> mux_target" where
  "mux_find pats r =
     (let target = (\<lambda>p. case best_match pats p of Some pat \<Rightarrow> MuxHandler pat | None \<Rightarrow> MuxNotFound);
          escaped = rq_EscapedPath r
      in if rq_Method r = ''CONNECT'' then
           (if slash_redirect pats escaped then MuxRedirect (cleanPath (URL_Path r) @ ''/'')
            else target escaped)
         else
           (let p = cleanPath escaped
            in if slash_redirect pats p then MuxRedirect (cleanPath (URL_Path r) @ ''/'')
               else if p \<noteq> escaped then MuxRedirect p
               else target p))"

section \<open>The round trip of form values\<close>

lemma upperhex_facts:
  assumes "n < 16"
  shows "unhex (upperhex n) = Some n \<and> unreserved (upperhex n)"
proof -
  have "\<forall>n \<in> set [0..<16]. unhex (upperhex n) = Some n \<and> unreserved (upperhex n)"
    by (simp add: upt_conv_Cons upperhex_def unhex_def unreserved_def)
  with assms show ?thesis by simp
qed

lemma char_halves: "char_of ((of_char c :: nat) div 16 * 16 + of_char c mod 16) = c"
  by simp

lemma halves_small: "(of_char c :: nat) div 16 < 16" "(of_char c :: nat) mod 16 < 16"
proof -
  have "(of_char c :: nat) < 16 * 16" using nat_of_char_less_256 [of c] by simp
  then show "(of_char c :: nat) div 16 < 16" by (rule less_mult_imp_div_less)
  show "(of_char c :: nat) mod 16 < 16" by simp
qed

lemma unreserved_plain: "unreserved c \<Longrightarrow> c \<noteq> CHR ''%'' \<and> c \<noteq> CHR ''+''"
  by (auto simp: unreserved_def)

lemma QueryUnescape_escape_char: "QueryUnescape (escape_char c @ s) = map_sum id (Cons c) (QueryUnescape s)"
proof -
  consider "unreserved c" | "\<not> unreserved c" "c = CHR '' ''" | "\<not> unreserved c" "c \<noteq> CHR '' ''" by blast
  then show ?thesis
  proof cases
    case 3
    then show ?thesis
      using upperhex_facts [OF halves_small(1) [of c]] upperhex_facts [OF halves_small(2) [of c]]
      by (simp add: escape_char_def)
  qed (use unreserved_plain [of c] in \<open>simp_all add: escape_char_def\<close>)
qed

lemma QueryUnescape_QueryEscape [simp]: "QueryUnescape (QueryEscape s) = Inr s"
  by (induction s) (simp_all add: QueryEscape_def QueryUnescape_escape_char)

lemma QueryEscape_chars:
  assumes "c \<in> set (QueryEscape s)"
  shows "unreserved c \<or> c = CHR ''%'' \<or> c = CHR ''+''"
proof -
  have "unreserved c \<or> c = CHR ''%'' \<or> c = CHR ''+''" if "c \<in> set (escape_char d)" for d
    using that upperhex_facts [OF halves_small(1) [of d]] upperhex_facts [OF halves_small(2) [of d]]
    by (auto simp: escape_char_def split: if_splits)
  with assms show ?thesis by (auto simp: QueryEscape_def)
qed

lemma QueryEscape_no_sep: "c \<in> set ''&=;'' \<Longrightarrow> c \<notin> set (QueryEscape s)"
  using QueryEscape_chars [of c s] by (auto simp: unreserved_def)

lemma Split_Join: "ss \<noteq> [] \<Longrightarrow> \<forall>s \<in> set ss. sep \<notin> set s \<Longrightarrow> Split sep (Join sep ss) = ss"
  by (induction sep ss rule: Join.induct) (simp_all add: Split_no_sep Split_append_sep)

lemma Cut_sep: "sep \<notin> set a \<Longrightarrow> Cut sep (a @ sep # b) = (a, b)"
  by (induction a) (auto simp: Cut_def)

lemma parse_piece_escape: "parse_piece (escape_pair kv) (m, err) = (mapappend (fst kv) [snd kv] m, err)"
  by (simp add: parse_piece_def escape_pair_def QueryEscape_no_sep Cut_sep)

lemma fold_pieces:
  "fold parse_piece (map escape_pair kvs) (m, err) = (fold (\<lambda>(k, v). mapappend k [v]) kvs m, err)"
  by (induction kvs arbitrary: m) (simp_all add: parse_piece_escape case_prod_beta)

lemma ParseQuery_pairs:
  "ParseQuery (Join (CHR ''&'') (map escape_pair kvs)) = (fold (\<lambda>(k, v). mapappend k [v]) kvs [], None)"
proof (cases "kvs = []")
  case True
  then show ?thesis by (simp add: ParseQuery_def parse_piece_def)
next
  case False
  have "\<forall>s \<in> set (map escape_pair kvs). CHR ''&'' \<notin> set s"
    using QueryEscape_no_sep [of "CHR ''&''"] by (auto simp: escape_pair_def)
  with False have "Split (CHR ''&'') (Join (CHR ''&'') (map escape_pair kvs)) = map escape_pair kvs"
    by (intro Split_Join) auto
  then show ?thesis by (simp add: ParseQuery_def fold_pieces)
qed

lemma slot_fold: "slot (fold (\<lambda>(k, v). mapappend k [v]) kvs m) j = slot m j @ map snd (filter (\<lambda>kv. fst kv = j) kvs)"
  by (induction kvs arbitrary: m) (auto simp: slot_mapappend)

lemma slot_missing: "j \<notin> fst ` set f \<Longrightarrow> slot f j = []"
  by (simp add: slot_def map_of_eq_None_iff [THEN iffD2])

lemma filter_key_pairs:
  "distinct ks \<Longrightarrow> filter (\<lambda>kv. fst kv = j) (concat (map (\<lambda>k. map (Pair k) (g k)) ks)) = (if j \<in> set ks then map (Pair j) (g j) else [])"
  by (induction ks) (auto simp: filter_empty_conv filter_True intro: filter_True)

lemma ParseQuery_Encode:
  assumes "wf_gomap f"
  shows "\<exists>g. ParseQuery (form_Encode f) = (g, None) \<and> (\<forall>k. slot g k = slot f k)"
proof -
  let ?g = "fold (\<lambda>(k, v). mapappend k [v]) (form_pairs f) []"
  have "distinct (sort (map fst f))" using assms by (simp add: wf_gomap_def)
  then have "slot ?g k = slot f k" for k
    using slot_missing [of k f] by (auto simp: slot_fold form_pairs_def filter_key_pairs o_def)
  then show ?thesis by (simp add: form_Encode_def ParseQuery_pairs)
qed

section \<open>What a matched path is\<close>

lemma unhex_slash [simp]: "unhex (CHR ''/'') = None"
  by (simp add: unhex_def)

lemma pathUnescape_slash: "pathUnescape (a @ CHR ''/'' # b) = pathUnescape a @ pathUnescape (CHR ''/'' # b)"
  by (induction a rule: pathUnescape.induct; cases b) (auto split: option.split)

lemma pathUnescape_Cons_slash [simp]: "pathUnescape (CHR ''/'' # s) = CHR ''/'' # pathUnescape s"
  by (cases s rule: pathUnescape.cases) auto

lemma pathUnescape_Join:
  "ss \<noteq> [] \<Longrightarrow> CHR ''/'' # pathUnescape (Join (CHR ''/'') ss) = concat (map (\<lambda>s. CHR ''/'' # pathUnescape s) ss)"
  by (induction "CHR ''/''" ss rule: Join.induct) (simp_all add: pathUnescape_slash)

lemma Join_Split [simp]: "Join sep (Split sep s) = s"
proof (induction s)
  case (Cons c s)
  have "Join sep ((d # p) # ps) = d # Join sep (p # ps)" "Join sep ([] # p # ps) = sep # Join sep (p # ps)" for d p ps
    by (cases ps; simp)+
  with Cons show ?case by (cases "Split sep s") auto
qed simp

text \<open>A path that starts with a slash and does not end in one is, unescaped, its segments.\<close>

lemma path_segments_literal:
  assumes "HasPrefix p ''/''" and "''/'' \<notin> set (path_segments p)"
  shows "pathUnescape p = concat (map (\<lambda>s. CHR ''/'' # s) (path_segments p))"
proof -
  obtain q where q: "p = CHR ''/'' # q" using assms(1) by (auto simp: HasPrefix_iff)
  have "path_segments p = map pathUnescape (Split (CHR ''/'') q)"
    using assms(2) by (auto simp: path_segments_def q split: if_splits)
  then show ?thesis
    using pathUnescape_Join [of "Split (CHR ''/'') q"] by (simp add: q o_def)
qed

lemma foldl_pick: "(\<And>m x. f m x = m \<or> f m x = x) \<Longrightarrow> foldl f m xs \<in> insert m (set xs)"
  by (induction xs arbitrary: m) (simp, metis foldl_Cons insert_iff list.simps(15))

lemma best_match_Some:
  assumes "best_match pats p = Some pat"
  shows "pat \<in> set pats \<and> pattern_matches pat p"
proof -
  let ?ms = "filter (\<lambda>pat. pattern_matches pat p) pats"
  have ne: "?ms \<noteq> []" using assms by (auto simp: best_match_def)
  have "foldl (\<lambda>m pat. if length m < length pat then pat else m) (hd ?ms) ?ms \<in> insert (hd ?ms) (set ?ms)"
    by (rule foldl_pick) simp
  moreover have "hd ?ms \<in> set ?ms" using ne by (rule hd_in_set)
  ultimately have "foldl (\<lambda>m pat. if length m < length pat then pat else m) (hd ?ms) ?ms \<in> set ?ms" by auto
  moreover have "m \<in> set ?ms" if "filter (\<lambda>pat. \<not> is_multi pat) ?ms = m # r" for m r
    using that by (metis filter_is_subset list.set_intros(1) subsetD)
  moreover have "best_match pats p = (case filter (\<lambda>pat. \<not> is_multi pat) ?ms of m # _ \<Rightarrow> Some m
      | [] \<Rightarrow> Some (foldl (\<lambda>m pat. if length m < length pat then pat else m) (hd ?ms) ?ms))"
    using ne unfolding best_match_def by (cases ?ms) (simp_all only: list.case)
  ultimately have "pat \<in> set ?ms"
    using assms by (cases "filter (\<lambda>pat. \<not> is_multi pat) ?ms") (simp_all only: list.case option.inject)
  then show ?thesis by simp
qed

lemma mux_find_Handler: "mux_find pats r = MuxHandler pat \<Longrightarrow> best_match pats (rq_EscapedPath r) = Some pat"
  by (auto simp: mux_find_def Let_def split: if_splits option.splits)

text \<open>
  The path of a request is empty, starts with a slash, or is the single \<^verbatim>\<open>*\<close> of \<^verbatim>\<open>OPTIONS *\<close>; a request
  that reaches a literal pattern has, unescaped, that pattern as its path.
\<close>

definition rooted :: "request \<Rightarrow> bool" where
  "rooted r \<longleftrightarrow> HasPrefix (rq_EscapedPath r) ''/'' \<or> rq_EscapedPath r = '''' \<or> rq_EscapedPath r = ''*''"

lemma mux_find_literal:
  assumes "mux_find pats r = MuxHandler pat" and "rooted r" and "\<not> is_multi pat"
    and "''/'' \<notin> set (path_segments pat)" and "path_segments pat \<noteq> []"
    and "concat (map (\<lambda>s. CHR ''/'' # s) (path_segments pat)) = pat"
  shows "URL_Path r = pat"
proof -
  let ?p = "rq_EscapedPath r"
  have segs: "path_segments ?p = path_segments pat"
    using best_match_Some [OF mux_find_Handler [OF assms(1)]] assms(3) by (simp add: pattern_matches_def Let_def)
  have "path_segments '''' = []" "path_segments ''*'' = []" by (simp_all add: path_segments_def)
  with segs assms(2,5) have "HasPrefix ?p ''/''" by (auto simp: rooted_def)
  with path_segments_literal [of ?p] segs assms(4,6) show ?thesis by (simp add: URL_Path_def)
qed

end
