(* ===== verification/Web.thy ===== *)
theory Web
  imports ConfigStore Url
begin

text \<open>
  \<^verbatim>\<open>pkg/web/web.go\<close>: the route table, the two muxes made from it, the basic-auth wrapper and every
  handler of the program. What \<^verbatim>\<open>encoding/json\<close>, \<^verbatim>\<open>time.ParseDuration\<close>, pprof and the metrics page
  render is a parameter. A write error is only logged, so writing a response always succeeds here.
\<close>

section \<open>Responses\<close>

text \<open>The first \<^verbatim>\<open>WriteHeader\<close> fixes the status; a \<^verbatim>\<open>Write\<close> without one makes it 200.\<close>

record response =
  rs_Status :: "nat option"
  rs_Header :: "string gomap"
  rs_Body :: string

definition new_response :: response where
  "new_response = \<lparr>rs_Status = None, rs_Header = [], rs_Body = ''''\<rparr>"

definition Header_Set :: "string \<Rightarrow> string \<Rightarrow> response \<Rightarrow> response" where
  "Header_Set k v r = r\<lparr>rs_Header := AList.update k v (rs_Header r)\<rparr>"

definition WriteHeader :: "nat \<Rightarrow> response \<Rightarrow> response" where
  "WriteHeader code r = (case rs_Status r of None \<Rightarrow> r\<lparr>rs_Status := Some code\<rparr> | Some _ \<Rightarrow> r)"

definition Write :: "string \<Rightarrow> response \<Rightarrow> response" where
  "Write b r = (let r = WriteHeader 200 r in r\<lparr>rs_Body := rs_Body r @ b\<rparr>)"

definition http_Error :: "string \<Rightarrow> nat \<Rightarrow> response \<Rightarrow> response" where
  "http_Error msg code r =
     Write (msg @ [CHR 0x0A])
       (WriteHeader code
         (Header_Set ''X-Content-Type-Options'' ''nosniff''
           (Header_Set ''Content-Type'' ''text/plain; charset=utf-8'' r)))"

lemmas response_defs = new_response_def Header_Set_def WriteHeader_def Write_def http_Error_def Let_def

section \<open>Routes\<close>

definition basicRealm :: string where "basicRealm = AppName"
definition adminPrefix :: string where "adminPrefix = ''/api/admin''"
definition serverReadTimeout :: int where "serverReadTimeout = 5 * Second"
definition serverRequestTimeout :: int where "serverRequestTimeout = 5 * Second"
definition serverWriteTimeout :: int where "serverWriteTimeout = 10 * Second"
definition timeoutMessage :: string where "timeoutMessage = ''Server timeout after 5s''"

datatype page =
    HandlerHelp | HandlerReady | HandlerHealthz | HandlerStatus | HandlerConfigDump
  | HandlerConfigEndpoints | HandlerZone | HandlerVersion | HandlerCerts
  | PprofIndex | PprofCmdline | PprofProfile | PprofSymbol | PprofTrace | MetricsHandler

record web_route =
  r_path :: string
  r_description :: string
  r_handlerFunc :: "page option"
  r_handler :: "page option"
  r_httpShema :: bool

definition func_route :: "string \<Rightarrow> string \<Rightarrow> page \<Rightarrow> web_route" where
  "func_route p d f =
     \<lparr>r_path = p, r_description = d, r_handlerFunc = Some f, r_handler = None, r_httpShema = False\<rparr>"

definition getRoutes :: "web_route list" where
  "getRoutes =
     [func_route ''/api/help'' ''Help'' HandlerHelp,
      func_route ''/api/ready'' ''Route for application rediness probe'' HandlerReady,
      func_route ''/api/healthz'' ''Route for application health probe'' HandlerHealthz,
      func_route ''/api/admin/status'' ''Status all nodes in SnapshotCache '' HandlerStatus,
      func_route ''/api/admin/config_dump'' ''All dumps of configs that loaded to control-plane'' HandlerConfigDump,
      func_route ''/api/config_endpoints'' ''All endpoints in configs'' HandlerConfigEndpoints,
      func_route ''/api/zone'' ''Get pod zone'' HandlerZone,
      func_route ''/api/version'' ''Get version'' HandlerVersion,
      \<lparr>r_path = ''/api/metrics'', r_description = ''Get metrics'', r_handlerFunc = None,
       r_handler = Some MetricsHandler, r_httpShema = True\<rparr>,
      func_route ''/api/admin/certs'' ''Generate cert'' HandlerCerts,
      func_route ''/debug/pprof/'' '''' PprofIndex,
      func_route ''/debug/pprof/cmdline'' '''' PprofCmdline,
      func_route ''/debug/pprof/profile'' '''' PprofProfile,
      func_route ''/debug/pprof/symbol'' '''' PprofSymbol,
      func_route ''/debug/pprof/trace'' '''' PprofTrace]"

text \<open>\<^verbatim>\<open>ServeMux\<close> panics on a nil handler, an invalid pattern and a pattern registered twice.\<close>

type_synonym mux = "(string \<times> page) list"

definition mux_Handle :: "string \<Rightarrow> page option \<Rightarrow> mux \<Rightarrow> mux outcome" where
  "mux_Handle pat h m =
     (case h of
        None \<Rightarrow> Panic ''http: nil handler''
      | Some h \<Rightarrow>
          if pat = '''' \<or> cleanPath pat \<noteq> pat then Panic ''http: invalid pattern''
          else if pat \<in> fst ` set m then Panic ''http: pattern conflict''
          else Ret (m @ [(pat, h)]))"

definition register :: "bool \<Rightarrow> web_route \<Rightarrow> mux \<Rightarrow> mux outcome" where
  "register onlyHTTPShema rt m =
     (if \<not> onlyHTTPShema \<or> r_httpShema rt = onlyHTTPShema then
        (if r_handler rt \<noteq> None then mux_Handle (r_path rt) (r_handler rt) m
         else mux_Handle (r_path rt) (r_handlerFunc rt) m)
      else Ret m)"

definition GetHandler :: "bool \<Rightarrow> mux outcome" where
  "GetHandler onlyHTTPShema = run_outcome (register onlyHTTPShema) getRoutes []"

section \<open>Authorisation and dispatch\<close>

definition authorised :: "app_config \<Rightarrow> request \<Rightarrow> bool" where
  "authorised cfg r \<longleftrightarrow>
     (case rq_BasicAuth r of
        None \<Rightarrow> False
      | Some (user, pass) \<Rightarrow> user = WebAdminUser cfg \<and> pass = WebAdminPassword cfg)"

definition unauthorised :: response where
  "unauthorised =
     Write ''Unauthorised''
       (WriteHeader 401
         (Header_Set ''Www-Authenticate'' (''Basic realm=\"'' @ basicRealm @ ''\"'') new_response))"

datatype target = Unauthorised | Page page | Moved string | PageNotFound

definition mux_ServeHTTP :: "mux \<Rightarrow> request \<Rightarrow> target" where
  "mux_ServeHTTP m r =
     (case mux_find (map fst m) r of
        MuxHandler pat \<Rightarrow> (case map_of m pat of Some h \<Rightarrow> Page h | None \<Rightarrow> PageNotFound)
      | MuxRedirect p \<Rightarrow> Moved p
      | MuxNotFound \<Rightarrow> PageNotFound)"

definition auth :: "app_config \<Rightarrow> mux \<Rightarrow> request \<Rightarrow> target" where
  "auth cfg m r =
     (if HasPrefix (URL_Path r) adminPrefix \<and> \<not> authorised cfg r then Unauthorised
      else mux_ServeHTTP m r)"

section \<open>Handlers\<close>

record api_version =
  Version :: string
  GoVersion :: string
  Goroutines :: nat
  GOMAXPROCS :: nat
  GOGC :: string
  GODEBUG :: string

record endpoints_results =
  er_Name :: string
  er_Version :: string
  er_LastSaved :: "string list option"

record 's web_lib =
  MarshalConfigs :: "config_type list \<Rightarrow> goerr + string"
  MarshalEndpoints :: "endpoints_results list \<Rightarrow> goerr + string"
  MarshalStatus :: "(string \<times> 's option) list \<Rightarrow> goerr + string"
  MarshalVersion :: "api_version \<Rightarrow> goerr + string"
  ParseDuration :: "string \<Rightarrow> goerr + int"
  apiPods :: "string \<Rightarrow> string \<Rightarrow> goerr + pod"
  apiNodes :: "string \<Rightarrow> goerr + node"
  OtherPage :: "page \<Rightarrow> request \<Rightarrow> metric_state \<Rightarrow> response"
  go_runtime :: api_version
  gitVersion :: string

definition help_row :: "web_route \<Rightarrow> string" where
  "help_row rt =
     (if length (r_description rt) > 0
      then ''<tr><td>'' @ r_description rt @ ''</td><td><a href='' @ [CHR 0x27] @ r_path rt @ [CHR 0x27]
             @ ''>'' @ r_path rt @ ''</a></td></tr>''
      else '''')"

definition handlerHelp :: response where
  "handlerHelp =
     Write (''<table border='' @ [CHR 0x27] @ ''1'' @ [CHR 0x27] @ '' cellpadding='' @ [CHR 0x27] @ ''8'' @ [CHR 0x27] @ ''>''
              @ concat (map help_row getRoutes) @ ''</table>'')
       (Header_Set ''Content-Type'' ''text/html'' new_response)"

definition handlerReady :: response where
  "handlerReady = Write ''ready'' new_response"

definition handlerHealthz :: response where
  "handlerHealthz = Write ''LIVE'' new_response"

text \<open>The end the three listing handlers share: no results is an error, bad JSON an empty body.\<close>

definition write_results :: "('a list \<Rightarrow> goerr + string) \<Rightarrow> 'a list \<Rightarrow> response \<Rightarrow> response" where
  "write_results marshal results w =
     (if length results = 0 then http_Error ''no results'' 500 w
      else (case marshal results of Inl err \<Rightarrow> Write '''' w | Inr b \<Rightarrow> Write b w))"

definition json_response :: response where
  "json_response = Header_Set ''Content-Type'' ''application/json'' new_response"

definition wanted :: "string \<Rightarrow> string \<Rightarrow> bool" where
  "wanted qid ident \<longleftrightarrow> length qid = 0 \<or> ident = qid"

definition handlerConfigDump :: "'s web_lib \<Rightarrow> request \<Rightarrow> 'c world \<Rightarrow> response" where
  "handlerConfigDump L r w =
     (let qid = form_Get (fst (ParseForm r)) ''id'';
          results = map (\<lambda>(_, a). cs_Config (store w a))
            (filter (\<lambda>(_, a). wanted qid (ct_ID (cs_Config (store w a)))) (StoreMap w))
      in write_results (MarshalConfigs L) results json_response)"

definition handlerConfigEndpoints :: "'s web_lib \<Rightarrow> request \<Rightarrow> 'c world \<Rightarrow> response" where
  "handlerConfigEndpoints L r w =
     (let qid = form_Get (fst (ParseForm r)) ''id'';
          results = map (\<lambda>(_, a). \<lparr>er_Name = ct_ID (cs_Config (store w a)),
              er_Version = cs_Version (store w a), er_LastSaved = lastEndpointsArray (store w a)\<rparr>)
            (filter (\<lambda>(_, a). wanted qid (ct_ID (cs_Config (store w a)))) (StoreMap w))
      in write_results (MarshalEndpoints L) results json_response)"

text \<open>An error of \<^verbatim>\<open>GetSnapshot\<close> is logged and the nil snapshot listed.\<close>

definition handlerStatus :: "('s, 'c) env \<Rightarrow> 's web_lib \<Rightarrow> request \<Rightarrow> 'c world \<Rightarrow> response" where
  "handlerStatus E L r w =
     (let statusKeys = GetStatusKeys (e_xds E) (Cache w);
          qid = form_Get (fst (ParseForm r)) ''id'';
          results = map (\<lambda>nodeID. (nodeID, fst (GetSnapshot (e_xds E) nodeID (Cache w))))
            (filter (wanted qid) statusKeys)
      in write_results (MarshalStatus L) results json_response)"

text \<open>The zone is looked up with calls to the API server, not in the informer caches.\<close>

definition handlerZone :: "app_config \<Rightarrow> 's web_lib \<Rightarrow> request \<Rightarrow> response" where
  "handlerZone cfg L r =
     (case ParseForm r of
        (_, Some err) \<Rightarrow> http_Error (Error err) 500 new_response
      | (f, None) \<Rightarrow>
          Write (GetZoneByPodName (apiPods L) (apiNodes L) cfg
                   (form_Get f ''namespace'') (form_Get f ''pod'')) new_response)"

definition handlerVersion :: "'s web_lib \<Rightarrow> response" where
  "handlerVersion L =
     (case MarshalVersion L ((go_runtime L)\<lparr>Version := gitVersion L\<rparr>) of
        Inl err \<Rightarrow> Write '''' json_response
      | Inr resultJSON \<Rightarrow> Write resultJSON json_response)"

text \<open>A failed issue is only logged: the nil slices are written.\<close>

definition handlerCerts ::
  "('s, 'c) env \<Rightarrow> 's web_lib \<Rightarrow> request \<Rightarrow> 'c world \<Rightarrow> (response \<times> 'c world) outcome" where
  "handlerCerts E L r w =
     (let rw = Header_Set ''Content-Type'' ''text/plain'' new_response;
          f = fst (ParseForm r);
          name = form_Get f ''name'';
          duration = form_Get f ''duration''
      in if length name = 0 then Ret (http_Error ''no name'' 400 rw, w)
         else if length duration = 0 then Ret (http_Error ''no duration'' 400 rw, w)
         else (case ParseDuration L duration of
             Inl err \<Rightarrow> Ret (http_Error (Error (Wrap ''error in parsing duration'' err)) 400 rw, w)
           | Inr certDuration \<Rightarrow>
               bind_outcome
                 (NewCertificate (e_crypto E) (e_ca E) (e_clock E (ticks w)) (ticks w) [name] certDuration)
                 (\<lambda>c. Ret (case c of
                      Inl err \<Rightarrow> Write '''' (Write '''' rw)
                    | Inr (_, crtBytes, _, keyBytes) \<Rightarrow> Write keyBytes (Write crtBytes rw),
                    next_tick w))))"

fun serve_page ::
  "('s, 'c) env \<Rightarrow> 's web_lib \<Rightarrow> page \<Rightarrow> request \<Rightarrow> 'c world \<Rightarrow> (response \<times> 'c world) outcome" where
  "serve_page E L HandlerHelp r w = Ret (handlerHelp, w)"
| "serve_page E L HandlerReady r w = Ret (handlerReady, w)"
| "serve_page E L HandlerHealthz r w = Ret (handlerHealthz, w)"
| "serve_page E L HandlerStatus r w = Ret (handlerStatus E L r w, w)"
| "serve_page E L HandlerConfigDump r w = Ret (handlerConfigDump L r w, w)"
| "serve_page E L HandlerConfigEndpoints r w = Ret (handlerConfigEndpoints L r w, w)"
| "serve_page E L HandlerZone r w = Ret (handlerZone (e_app E) L r, w)"
| "serve_page E L HandlerVersion r w = Ret (handlerVersion L, w)"
| "serve_page E L HandlerCerts r w = handlerCerts E L r w"
| "serve_page E L pg r w = Ret (OtherPage L pg r (w_metrics w), w)"

text \<open>The answers of \<^verbatim>\<open>net/http\<close> itself carry no data of the program; the redirect has no body here.\<close>

definition serve ::
  "('s, 'c) env \<Rightarrow> 's web_lib \<Rightarrow> mux \<Rightarrow> request \<Rightarrow> 'c world \<Rightarrow> (response \<times> 'c world) outcome" where
  "serve E L m r w =
     (case auth (e_app E) m r of
        Unauthorised \<Rightarrow> Ret (unauthorised, w)
      | Page h \<Rightarrow> serve_page E L h r w
      | Moved p \<Rightarrow> Ret (WriteHeader 301 (Header_Set ''Location'' p new_response), w)
      | PageNotFound \<Rightarrow> Ret (http_Error ''404 page not found'' 404 new_response, w))"

text \<open>\<^verbatim>\<open>http.TimeoutHandler\<close>: what a handler wrote is sent only if it ends in time.\<close>

definition TimeoutHandler :: "int \<Rightarrow> int \<Rightarrow> string \<Rightarrow> response \<Rightarrow> response" where
  "TimeoutHandler took limit msg r =
     (if took < limit then WriteHeader 200 r else Write msg (WriteHeader 503 new_response))"

section \<open>Servers\<close>

record http_server =
  sv_Addr :: string
  sv_Handler :: mux
  sv_RequestTimeout :: int
  sv_ReadTimeout :: int
  sv_WriteTimeout :: int
  sv_Certificate :: "(bytes \<times> bytes) option"

definition new_server :: "string \<Rightarrow> mux \<Rightarrow> (bytes \<times> bytes) option \<Rightarrow> http_server" where
  "new_server addr m cert =
     \<lparr>sv_Addr = addr, sv_Handler = m, sv_RequestTimeout = serverRequestTimeout,
      sv_ReadTimeout = serverReadTimeout, sv_WriteTimeout = serverWriteTimeout, sv_Certificate = cert\<rparr>"

text \<open>
  \<^verbatim>\<open>ListenAndServe\<close> returns only with an error, \<^verbatim>\<open>ErrServerClosed\<close> after the \<^verbatim>\<open>Shutdown\<close> that the
  context's end triggers; the program makes it fatal in every case.
\<close>

definition web_Start :: "(http_server \<Rightarrow> goerr) \<Rightarrow> app_config \<Rightarrow> unit outcome" where
  "web_Start ListenAndServe cfg =
     bind_outcome (GetHandler True)
       (\<lambda>m. Exit (ListenAndServe (new_server (WebHTTPAddress cfg) m None)))"

definition web_StartTLS ::
  "(http_server \<Rightarrow> goerr) \<Rightarrow> (bytes \<Rightarrow> bytes \<Rightarrow> goerr option) \<Rightarrow> crypto \<Rightarrow> ca_state \<Rightarrow> (nat \<Rightarrow> int) \<Rightarrow> nat
     \<Rightarrow> app_config \<Rightarrow> unit outcome" where
  "web_StartTLS ListenAndServeTLS X509KeyPair K ca clock nonce cfg =
     bind_outcome (NewCertificate K ca clock nonce [AppName] CertValidityYear)
       (\<lambda>c. case c of
          Inl err \<Rightarrow> Exit err
        | Inr (_, serverCertBytes, _, serverKeyBytes) \<Rightarrow>
            (case X509KeyPair serverCertBytes serverKeyBytes of
               Some err \<Rightarrow> Exit err
             | None \<Rightarrow>
                 bind_outcome (GetHandler False)
                   (\<lambda>m. Exit (ListenAndServeTLS
                      (new_server (WebHTTPSAddress cfg) m (Some (serverCertBytes, serverKeyBytes)))))))"

section \<open>Facts about dispatch\<close>

definition route_page :: "web_route \<Rightarrow> page" where
  "route_page rt = (case r_handler rt of Some h \<Rightarrow> h | None \<Rightarrow> the (r_handlerFunc rt))"

definition all_pages :: mux where
  "all_pages = map (\<lambda>rt. (r_path rt, route_page rt)) getRoutes"

definition metrics_page :: mux where
  "metrics_page = [(''/api/metrics'', MetricsHandler)]"

lemma GetHandler_eq: "GetHandler False = Ret all_pages" "GetHandler True = Ret metrics_page"
  by code_simp+

definition admin_page :: "page \<Rightarrow> bool" where
  "admin_page h \<longleftrightarrow> h \<in> {HandlerStatus, HandlerConfigDump, HandlerCerts}"

definition get_request :: "string \<Rightarrow> (string \<times> string) option \<Rightarrow> request" where
  "get_request p creds =
     \<lparr>rq_Method = ''GET'', rq_EscapedPath = p, rq_RawQuery = '''', rq_form_body = None, rq_BasicAuth = creds\<rparr>"

lemma get_request_simps [simp]:
  "rq_Method (get_request p c) = ''GET''" "rq_EscapedPath (get_request p c) = p"
  "rq_BasicAuth (get_request p c) = c" "URL_Path (get_request p c) = pathUnescape p"
  by (simp_all add: get_request_def URL_Path_def)

text \<open>The pattern an admin page is filed under, and that it is a literal one.\<close>

lemma admin_pattern:
  assumes "map_of all_pages pat = Some h" and "admin_page h"
  shows "HasPrefix pat adminPrefix \<and> \<not> is_multi pat \<and> ''/'' \<notin> set (path_segments pat) \<and>
    path_segments pat \<noteq> [] \<and> concat (map (\<lambda>s. CHR ''/'' # s) (path_segments pat)) = pat"
proof -
  have "list_all (\<lambda>(pat, h). admin_page h \<longrightarrow> HasPrefix pat adminPrefix \<and> \<not> is_multi pat \<and>
      ''/'' \<notin> set (path_segments pat) \<and> path_segments pat \<noteq> [] \<and>
      concat (map (\<lambda>s. CHR ''/'' # s) (path_segments pat)) = pat) all_pages"
    by code_simp
  with assms map_of_SomeD [OF assms(1)] show ?thesis by (auto simp: list_all_iff)
qed

lemma mux_ServeHTTP_Page:
  "mux_ServeHTTP m r = Page h \<longleftrightarrow> (\<exists>pat. mux_find (map fst m) r = MuxHandler pat \<and> map_of m pat = Some h)"
  by (auto simp: mux_ServeHTTP_def split: mux_target.splits option.splits)

lemma admin_page_path:
  assumes "mux_ServeHTTP all_pages r = Page h" and "admin_page h" and "rooted r"
  shows "HasPrefix (URL_Path r) adminPrefix"
proof -
  obtain pat where pat: "mux_find (map fst all_pages) r = MuxHandler pat" "map_of all_pages pat = Some h"
    using assms(1) by (auto simp: mux_ServeHTTP_Page)
  from admin_pattern [OF pat(2) assms(2)] mux_find_literal [OF pat(1) assms(3)] show ?thesis by simp
qed

lemma metrics_only:
  assumes "mux_ServeHTTP metrics_page r = Page h"
  shows "h = MetricsHandler"
  using assms by (auto simp: mux_ServeHTTP_Page metrics_page_def split: if_splits)

lemma every_route_served:
  "list_all (\<lambda>rt. mux_ServeHTTP all_pages (get_request (r_path rt) c) = Page (route_page rt)) getRoutes"
proof -
  have "list_all (\<lambda>rt. mux_ServeHTTP all_pages (get_request (r_path rt) None) = Page (route_page rt)) getRoutes"
    by code_simp
  moreover have "mux_ServeHTTP m (get_request p c) = mux_ServeHTTP m (get_request p None)" for m p
    unfolding mux_ServeHTTP_def mux_find_def get_request_simps by (rule refl)
  ultimately show ?thesis by (simp add: list_all_iff)
qed

lemma route_of_page: "\<exists>rt \<in> set getRoutes. route_page rt = h"
  by (cases h) (simp_all add: getRoutes_def func_route_def route_page_def)

lemma open_path:
  assumes "rt \<in> set getRoutes" and "\<not> admin_page (route_page rt)"
  shows "\<not> HasPrefix (pathUnescape (r_path rt)) adminPrefix \<and> HasPrefix (r_path rt) ''/''"
proof -
  have "list_all (\<lambda>rt. \<not> admin_page (route_page rt) \<longrightarrow>
      \<not> HasPrefix (pathUnescape (r_path rt)) adminPrefix \<and> HasPrefix (r_path rt) ''/'') getRoutes"
    by code_simp
  with assms show ?thesis by (auto simp: list_all_iff)
qed

lemma serve_page_state:
  "serve_page E L h r w = Ret (rs, w') \<Longrightarrow> \<not> admin_page h \<Longrightarrow> w' = w"
  by (cases h) (simp_all add: admin_page_def)

text \<open>
  Property (C6). On the HTTPS server the three admin pages, and only they, need credentials: some
  request without them reaches a page exactly when the page is not an admin page, and such a
  request, whatever it asks for, gets its answer without changing the state.
\<close>

theorem admin_pages_need_credentials:
  assumes "GetHandler False = Ret m"
  shows "((\<exists>r. rooted r \<and> \<not> authorised cfg r \<and> auth cfg m r = Page h) \<longleftrightarrow>
      h \<notin> {HandlerStatus, HandlerConfigDump, HandlerCerts}) \<and>
    (rooted r \<longrightarrow> \<not> authorised (e_app E) r \<longrightarrow> serve E L m r w = Ret (rs, w') \<longrightarrow> w' = w)"
proof (intro conjI iffI impI)
  have m: "m = all_pages" using assms GetHandler_eq by simp
  have gate: "\<not> admin_page h" if "rooted r" "\<not> authorised cfg r" "auth cfg m r = Page h" for cfg r h
    using that admin_page_path [of r h] by (auto simp: auth_def m split: if_splits)
  show "h \<notin> {HandlerStatus, HandlerConfigDump, HandlerCerts}"
    if "\<exists>r. rooted r \<and> \<not> authorised cfg r \<and> auth cfg m r = Page h"
    using gate that unfolding admin_page_def by blast
  show "\<exists>r. rooted r \<and> \<not> authorised cfg r \<and> auth cfg m r = Page h"
    if "h \<notin> {HandlerStatus, HandlerConfigDump, HandlerCerts}"
  proof -
    obtain rt where rt: "rt \<in> set getRoutes" "route_page rt = h" using route_of_page by blast
    have "\<not> admin_page (route_page rt)" using that rt(2) by (simp add: admin_page_def)
    from open_path [OF rt(1) this] every_route_served [of None] rt show ?thesis
      by (intro exI [of _ "get_request (r_path rt) None"])
        (simp add: rooted_def auth_def m authorised_def list_all_iff)
  qed
  show "w' = w" if "rooted r" "\<not> authorised (e_app E) r" "serve E L m r w = Ret (rs, w')"
    using gate [OF that(1,2)] serve_page_state [of E L _ r w rs w'] that(3)
    by (auto simp: serve_def split: target.splits)
qed

theorem admin_pages_need_credentials_witness:
  "\<exists>m. GetHandler False = Ret m \<and>
     \<not> (\<exists>r. rooted r \<and> \<not> authorised demo_app r \<and> auth demo_app m r = Page HandlerCerts)"
  using admin_pages_need_credentials [OF GetHandler_eq(1)] GetHandler_eq(1) by blast

text \<open>
  Property (C39). The plain HTTP server gives out nothing but the metrics: registering its routes
  does not panic, and every request is refused, redirected, not found, or the metrics page.
\<close>

theorem http_serves_metrics_only:
  "\<exists>m. GetHandler True = Ret m \<and>
     (auth cfg m r = Unauthorised \<or> (\<exists>p. auth cfg m r = Moved p) \<or> auth cfg m r = PageNotFound \<or>
      auth cfg m r = Page MetricsHandler) \<and>
     auth cfg m (get_request ''/api/metrics'' None) = Page MetricsHandler"
proof -
  have "auth cfg metrics_page (get_request ''/api/metrics'' None) = Page MetricsHandler"
  proof -
    have "mux_ServeHTTP metrics_page (get_request ''/api/metrics'' None) = Page MetricsHandler"
      "\<not> HasPrefix (URL_Path (get_request ''/api/metrics'' None)) adminPrefix" by code_simp+
    then show ?thesis by (simp add: auth_def)
  qed
  moreover have "mux_ServeHTTP metrics_page r = Page h \<Longrightarrow> h = MetricsHandler" for h by (rule metrics_only)
  ultimately show ?thesis
    by (intro exI [of _ metrics_page]) (cases "mux_ServeHTTP metrics_page r"; auto simp: GetHandler_eq auth_def)
qed

section \<open>The admin password and the issued certificates\<close>

lemma serve_route:
  assumes "rt \<in> set getRoutes" and "\<not> HasPrefix (pathUnescape (r_path rt)) adminPrefix \<or> authorised (e_app E) (get_request (r_path rt) c)"
  shows "serve E L all_pages (get_request (r_path rt) c) w = serve_page E L (route_page rt) (get_request (r_path rt) c) w"
  using assms every_route_served [of c] by (auto simp: serve_def auth_def list_all_iff)

text \<open>
  What is relied on of \<^verbatim>\<open>encoding/json\<close>: marshalling an \<^verbatim>\<open>APIVersion\<close> succeeds, and a reader of the field
  \<^verbatim>\<open>Version\<close> finds what was marshalled.
\<close>

definition version_json :: "'s web_lib \<Rightarrow> (string \<Rightarrow> string) \<Rightarrow> bool" where
  "version_json L read \<longleftrightarrow> (\<forall>v. \<exists>b. MarshalVersion L v = Inr b \<and> read b = Version v)"

lemma handlerVersion_body:
  assumes "version_json L read"
  shows "read (rs_Body (handlerVersion L)) = gitVersion L"
proof -
  obtain b where "MarshalVersion L ((go_runtime L)\<lparr>Version := gitVersion L\<rparr>) = Inr b" "read b = gitVersion L"
    using assms unfolding version_json_def by (metis api_version.select_convs(1) api_version.surjective api_version.update_convs(1))
  then show ?thesis by (simp add: handlerVersion_def json_response_def response_defs)
qed

lemma admin_route:
  assumes "rt \<in> set getRoutes" and "admin_page (route_page rt)"
  shows "HasPrefix (pathUnescape (r_path rt)) adminPrefix"
proof -
  have "list_all (\<lambda>rt. admin_page (route_page rt) \<longrightarrow> HasPrefix (pathUnescape (r_path rt)) adminPrefix) getRoutes"
    by code_simp
  with assms show ?thesis by (auto simp: list_all_iff)
qed

text \<open>
  Property (C23). With the default options the admin password is public: the answer of \<^verbatim>\<open>/api/version\<close> to
  a request without credentials is JSON with the version, and the user \<^verbatim>\<open>admin\<close> with what a reader finds
  there as the password is let in to each of the three admin pages, which refuse a request without
  credentials.
\<close>

theorem default_password_is_public:
  assumes "e_app E = default_config getenv (gitVersion L)" and "GetHandler False = Ret m" and "version_json L read"
  shows "\<exists>rs. serve E L m (get_request ''/api/version'' None) w = Ret (rs, w) \<and>
    (\<forall>h \<in> {HandlerStatus, HandlerConfigDump, HandlerCerts}. \<exists>rt \<in> set getRoutes.
       auth (e_app E) m (get_request (r_path rt) None) = Unauthorised \<and>
       auth (e_app E) m (get_request (r_path rt) (Some (''admin'', read (rs_Body rs)))) = Page h)"
proof (intro exI [of _ "handlerVersion L"] conjI ballI)
  have m: "m = all_pages" using assms(2) GetHandler_eq by simp
  have v: "func_route ''/api/version'' ''Get version'' HandlerVersion \<in> set getRoutes" by (simp add: getRoutes_def)
  have "\<not> HasPrefix (pathUnescape ''/api/version'') adminPrefix" by code_simp
  with serve_route [OF v, of E None L w] show
    "serve E L m (get_request ''/api/version'' None) w = Ret (handlerVersion L, w)"
    by (simp add: m func_route_def route_page_def)
  fix h assume "h \<in> {HandlerStatus, HandlerConfigDump, HandlerCerts}"
  then have h: "admin_page h" by (simp add: admin_page_def)
  obtain rt where rt: "rt \<in> set getRoutes" "route_page rt = h" using route_of_page by blast
  have "authorised (e_app E) (get_request p (Some (''admin'', read (rs_Body (handlerVersion L)))))" for p
    by (simp add: handlerVersion_body [OF assms(3)] assms(1) authorised_def default_config_def)
  moreover have "\<not> authorised (e_app E) (get_request p None)" for p by (simp add: authorised_def)
  ultimately show "\<exists>rt \<in> set getRoutes. auth (e_app E) m (get_request (r_path rt) None) = Unauthorised \<and>
      auth (e_app E) m (get_request (r_path rt) (Some (''admin'', read (rs_Body (handlerVersion L))))) = Page h"
    using rt h admin_route [OF rt(1)] every_route_served by (intro bexI [of _ rt]) (auto simp: auth_def m list_all_iff)
qed

text \<open>A library in which JSON is a list of the names and the only duration is a day.\<close>

definition demo_lib :: "map_snapshot web_lib" where
  "demo_lib =
     \<lparr>MarshalConfigs = (\<lambda>cs. Inr (concat (map ct_ID cs))),
      MarshalEndpoints = (\<lambda>es. Inr (concat (map er_Name es))),
      MarshalStatus = (\<lambda>ss. Inr (concat (map fst ss))),
      MarshalVersion = (\<lambda>v. Inr (Version v)),
      ParseDuration = (\<lambda>d. if d = ''24h'' then Inr (24 * Hour) else Inl (Err ''time: invalid duration'')),
      apiPods = (\<lambda>ns n. if ns = ''ns 1'' \<and> n = ''p&1'' then Inr (demo_pod ''p&1'' ''10.0.0.1'' ''True'') else Inl (Err ''not found'')),
      apiNodes = (\<lambda>n. Inr \<lparr>node_Name = n, node_Labels = Some [(''topology.kubernetes.io/zone'', ''zone-a'')]\<rparr>),
      OtherPage = (\<lambda>h r m. new_response),
      go_runtime = \<lparr>Version = '''', GoVersion = ''go1.24'', Goroutines = 1, GOMAXPROCS = 1, GOGC = '''', GODEBUG = ''''\<rparr>,
      gitVersion = ''v1.2.3''\<rparr>"

theorem default_password_is_public_witness:
  "\<exists>m rs. GetHandler False = Ret m \<and>
     serve (demo_env\<lparr>e_app := default_config (\<lambda>_. '''') ''v1.2.3''\<rparr>) demo_lib m
       (get_request ''/api/version'' None) demo_one = Ret (rs, demo_one) \<and>
     (\<exists>rt \<in> set getRoutes. auth (default_config (\<lambda>_. '''') ''v1.2.3'') m
        (get_request (r_path rt) (Some (''admin'', rs_Body rs))) = Page HandlerCerts)"
proof -
  let ?E = "demo_env\<lparr>e_app := default_config (\<lambda>_. '''') ''v1.2.3''\<rparr>"
  have app: "e_app ?E = default_config (\<lambda>_. '''') (gitVersion demo_lib)" by (simp add: demo_lib_def)
  have "version_json demo_lib id" by (simp add: version_json_def demo_lib_def)
  from default_password_is_public [OF app GetHandler_eq(1) this, of demo_one] obtain rs where
    rs: "serve ?E demo_lib all_pages (get_request ''/api/version'' None) demo_one = Ret (rs, demo_one)"
    and pages: "\<forall>h \<in> {HandlerStatus, HandlerConfigDump, HandlerCerts}. \<exists>rt \<in> set getRoutes.
      auth (e_app ?E) all_pages (get_request (r_path rt) None) = Unauthorised \<and>
      auth (e_app ?E) all_pages (get_request (r_path rt) (Some (''admin'', id (rs_Body rs)))) = Page h"
    by (elim exE conjE)
  have "HandlerCerts \<in> {HandlerStatus, HandlerConfigDump, HandlerCerts}" by simp
  from bspec [OF pages this] obtain rt where rt: "rt \<in> set getRoutes"
    "auth (e_app ?E) all_pages (get_request (r_path rt) (Some (''admin'', id (rs_Body rs)))) = Page HandlerCerts"
    by (elim bexE conjE)
  with rs show ?thesis
    using GetHandler_eq(1) by (intro exI [of _ all_pages] exI [of _ rs] bexI [of _ rt] conjI) simp_all
qed

text \<open>
  Property (C38). The certificate page answers 200 whether or not it could issue: with a name and a
  readable duration it writes a certificate for exactly that name, ending that long from now, that is
  no authority, together with its key; or, when issuing fails, nothing at all.
\<close>

theorem certs_page_answers:
  assumes "x509_law (e_crypto E)" and "form_Get (fst (ParseForm r)) ''name'' = name" and "name \<noteq> ''''"
    and "form_Get (fst (ParseForm r)) ''duration'' = d" and "d \<noteq> ''''" and "ParseDuration L d = Inr t"
  shows "\<exists>rs. handlerCerts E L r w = Ret (rs, next_tick w) \<and> rs_Status rs = Some 200 \<and>
    (rs_Body rs = '''' \<and> (\<exists>err. NewCertificate (e_crypto E) (e_ca E) (e_clock E (ticks w)) (ticks w) [name] t = Ret (Inl err)) \<or>
     (\<exists>c pem k kpem. NewCertificate (e_crypto E) (e_ca E) (e_clock E (ticks w)) (ticks w) [name] t = Ret (Inr (c, pem, k, kpem)) \<and>
        rs_Body rs = pem @ kpem \<and> DNSNames c = [name] \<and> \<not> IsCA c \<and>
        NotAfter c = whole_second (e_clock E (ticks w) 2 + t)))"
proof -
  let ?new = "NewCertificate (e_crypto E) (e_ca E) (e_clock E (ticks w)) (ticks w) [name] t"
  obtain q where q: "?new = Ret q"
    by (cases ?new) (auto simp: NewCertificate_def GenServerCert_def Let_def split: sum.splits)
  show ?thesis
  proof (cases q)
    case (Inl err)
    with q assms show ?thesis by (simp add: handlerCerts_def response_defs)
  next
    case (Inr i)
    obtain c pem k kpem where i: "i = (c, pem, k, kpem)" by (metis prod_cases4)
    have "genCert (e_crypto E) (server_template (e_clock E (ticks w)) (hd [name]) [name] t) (caCert (e_ca E))
         (PublicKey (e_crypto E) k) (caKey (e_ca E)) = Inr (c, pem)"
      using GenServerCert_Inr q unfolding Inr i NewCertificate_def by blast
    then obtain der where der: "CreateCertificate (e_crypto E) (server_template (e_clock E (ticks w)) (hd [name]) [name] t)
        (caCert (e_ca E)) (PublicKey (e_crypto E) k) (caKey (e_ca E)) = Inr der" "ParseCertificate (e_crypto E) der = Inr c"
      using genCert_Inr by blast
    have "DNSNames c = [name] \<and> \<not> IsCA c \<and> NotAfter c = whole_second (e_clock E (ticks w) 2 + t)"
      using x509_lawD [OF assms(1) der] by (simp add: server_template_def)
    with q Inr i assms show ?thesis by (simp add: handlerCerts_def response_defs)
  qed
qed

theorem certs_page_answers_witness:
  "\<exists>rs. handlerCerts demo_env demo_lib
       ((get_request ''/api/admin/certs'' None)\<lparr>rq_RawQuery := ''name=other&duration=24h''\<rparr>) demo_one = Ret (rs, next_tick demo_one) \<and>
     rs_Status rs = Some 200 \<and> rs_Body rs = ''''"
proof -
  let ?r = "(get_request ''/api/admin/certs'' None)\<lparr>rq_RawQuery := ''name=other&duration=24h''\<rparr>"
  have f: "form_Get (fst (ParseForm ?r)) ''name'' = ''other''" "form_Get (fst (ParseForm ?r)) ''duration'' = ''24h''"
    by code_simp+
  have law: "x509_law (e_crypto demo_env)" by (simp add: demo_env_def demo_crypto_law)
  have d: "ParseDuration demo_lib ''24h'' = Inr (24 * Hour)" by (simp add: demo_lib_def)
  have "NewCertificate (e_crypto demo_env) ca clock n [''other''] t \<noteq> Ret (Inr i)" for ca clock n t i
    by (simp add: demo_env_def demo_crypto_def NewCertificate_def GenServerCert_def genCert_def server_template_def)
  with certs_page_answers [OF law f(1) _ f(2) _ d, of demo_one] show ?thesis by fastforce
qed

end
