(* ===== verification/Cli.thy ===== *)
theory Cli
  imports Url AppConfig
begin

text \<open>
  \<^verbatim>\<open>cmd/cli/main.go\<close>: the command-line client that runs in a pod's init container or lifecycle hook. It
  waits for the control plane, asks it one question, or drains the local Envoy. The network and the
  files are parameters; the state keeps what was sent, with the time slept before, and the response
  bodies still open.
\<close>

section \<open>Flags and environment\<close>

definition serverPort :: int where "serverPort = 18081"
definition serverAdminPort :: int where "serverAdminPort = 18000"
definition defaultTimeout :: int where "defaultTimeout = 10 * Second"

record cli_flags =
  action :: string
  namespace :: string
  pod_flag :: string
  server :: string
  port :: int
  wait :: bool
  envoyLogLevel :: string
  drainEnvoy :: bool
  timeout :: int
  envoyAdminPort :: int
  tlsInsecure :: bool
  tlsCA :: string
  tlsClientCrt :: string
  tlsClientKey :: string

definition cli_defaults :: "(string \<Rightarrow> string) \<Rightarrow> cli_flags" where
  "cli_defaults getenv =
     \<lparr>action = ''/api/zone'', namespace = getenv ''MY_POD_NAMESPACE'', pod_flag = getenv ''HOSTNAME'',
      server = ''envoy-control-plane'', port = serverPort, wait = True, envoyLogLevel = '''',
      drainEnvoy = False, timeout = defaultTimeout, envoyAdminPort = serverAdminPort, tlsInsecure = False,
      tlsCA = ''/certs/CA.crt'', tlsClientCrt = ''/certs/envoy.crt'', tlsClientKey = ''/certs/envoy.key''\<rparr>"

record client_tls =
  tc_Certificates :: "opaque list"
  tc_RootCAs :: "string list"
  tc_InsecureSkipVerify :: bool

record cli_request =
  q_Method :: string
  q_URL :: string
  q_ContentType :: string
  q_Body :: string

record cli_reply =
  StatusCode :: nat
  ReadAll :: "goerr + string"

text \<open>
  \<open>net_Do n\<close> is the answer to the \<open>n\<close>-th request; \<open>net_URL\<close> is the error of \<^verbatim>\<open>NewRequest\<close> for a URL
  that does not parse.
\<close>

record cli_net =
  net_URL :: "string \<Rightarrow> goerr option"
  net_Do :: "nat \<Rightarrow> client_tls \<Rightarrow> cli_request \<Rightarrow> goerr + cli_reply"
  LoadX509KeyPair :: "string \<Rightarrow> string \<Rightarrow> goerr + opaque"
  cli_ReadFile :: "string \<Rightarrow> goerr + string"

record cli_state =
  sent :: "(int \<times> cli_request) list"
  slept :: int
  open_bodies :: nat
  stdout :: string

definition cli_start :: cli_state where
  "cli_start = \<lparr>sent = [], slept = 0, open_bodies = 0, stdout = ''''\<rparr>"

type_synonym cli_result = "cli_state \<times> unit outcome"

definition and_then :: "cli_result \<Rightarrow> (cli_state \<Rightarrow> cli_result) \<Rightarrow> cli_result" where
  "and_then r f = (case r of (s, Ret _) \<Rightarrow> f s | (s, Exit e) \<Rightarrow> (s, Exit e) | (s, Panic p) \<Rightarrow> (s, Panic p))"

definition dec_int :: "int \<Rightarrow> string" where
  "dec_int i = (if i < 0 then ''-'' @ dec (nat (- i)) else dec (nat i))"

definition record_request :: "cli_request \<Rightarrow> cli_state \<Rightarrow> cli_state" where
  "record_request q s = s\<lparr>sent := sent s @ [(slept s, q)]\<rparr>"

definition do_sleep :: "int \<Rightarrow> cli_state \<Rightarrow> cli_state" where
  "do_sleep d s = s\<lparr>slept := slept s + d\<rparr>"

section \<open>Waiting for the control plane\<close>

definition server_url :: "cli_flags \<Rightarrow> string \<Rightarrow> string" where
  "server_url F path = ''https://'' @ server F @ '':'' @ dec_int (port F) @ path"

definition ready_request :: "cli_flags \<Rightarrow> cli_request" where
  "ready_request F =
     \<lparr>q_Method = ''GET'', q_URL = server_url F ''/api/ready'', q_ContentType = '''', q_Body = ''''\<rparr>"

text \<open>
  The loop may not end. A URL that does not parse leaves a nil request, and \<^verbatim>\<open>Do\<close> dereferences it.
  The bodies are closed by deferred calls, so only when the function returns.
\<close>

partial_function (option) waitForAPI ::
  "cli_net \<Rightarrow> client_tls \<Rightarrow> cli_flags \<Rightarrow> nat \<Rightarrow> cli_state \<Rightarrow> cli_result option" where
  "waitForAPI N tls F deferred s =
     (case net_URL N (server_url F ''/api/ready'') of
        Some err \<Rightarrow> Some (s, Panic ''nil pointer dereference'')
      | None \<Rightarrow>
          (let resp = net_Do N (length (sent s)) tls (ready_request F);
               s = record_request (ready_request F) s
           in case resp of
                Inl err \<Rightarrow> waitForAPI N tls F deferred (do_sleep Second s)
              | Inr rp \<Rightarrow>
                  if StatusCode rp = 200 then Some (s\<lparr>open_bodies := open_bodies s - deferred\<rparr>, Ret ())
                  else waitForAPI N tls F (Suc deferred)
                         (do_sleep Second (s\<lparr>open_bodies := Suc (open_bodies s)\<rparr>))))"

section \<open>Talking to Envoy\<close>

definition admin_request :: "cli_flags \<Rightarrow> string \<Rightarrow> cli_request" where
  "admin_request F path =
     \<lparr>q_Method = ''POST'', q_URL = ''http://127.0.0.1:'' @ dec_int (envoyAdminPort F) @ path,
      q_ContentType = '''', q_Body = ''''\<rparr>"

definition requestEnvoyAdmin ::
  "cli_net \<Rightarrow> client_tls \<Rightarrow> cli_flags \<Rightarrow> string \<Rightarrow> cli_state \<Rightarrow> cli_result" where
  "requestEnvoyAdmin N tls F path s =
     (let q = admin_request F path
      in case net_URL N (q_URL q) of
           Some err \<Rightarrow> (s, Exit err)
         | None \<Rightarrow>
             (let s1 = record_request q s
              in case net_Do N (length (sent s)) tls q of
                   Inl err \<Rightarrow> (s1, Exit err)
                 | Inr resp \<Rightarrow> (case ReadAll resp of Inl err \<Rightarrow> (s1, Exit err) | Inr body \<Rightarrow> (s1, Ret ()))))"

definition drain_envoy :: "cli_net \<Rightarrow> client_tls \<Rightarrow> cli_flags \<Rightarrow> cli_state \<Rightarrow> cli_result" where
  "drain_envoy N tls F s =
     and_then (requestEnvoyAdmin N tls F ''/drain_listeners?graceful'' s)
       (\<lambda>s. and_then (requestEnvoyAdmin N tls F ''/healthcheck/fail'' s)
         (\<lambda>s. requestEnvoyAdmin N tls F ''/quitquitquit'' (do_sleep (timeout F) s)))"

section \<open>The query\<close>

definition query_form :: "cli_flags \<Rightarrow> form" where
  "query_form F = [(''namespace'', [namespace F]), (''pod'', [pod_flag F])]"

definition query_request :: "cli_flags \<Rightarrow> cli_request" where
  "query_request F =
     \<lparr>q_Method = ''POST'', q_URL = server_url F (action F),
      q_ContentType = ''application/x-www-form-urlencoded'', q_Body = form_Encode (query_form F)\<rparr>"

definition run_query :: "cli_net \<Rightarrow> client_tls \<Rightarrow> cli_flags \<Rightarrow> cli_state \<Rightarrow> cli_result" where
  "run_query N tls F s =
     (let q = query_request F
      in case net_URL N (q_URL q) of
           Some err \<Rightarrow> (s, Exit err)
         | None \<Rightarrow>
             (let s1 = record_request q s
              in case net_Do N (length (sent s)) tls q of
                   Inl err \<Rightarrow> (s1, Exit err)
                 | Inr resp \<Rightarrow>
                     (case ReadAll resp of
                        Inl err \<Rightarrow> (s1, Exit err)
                      | Inr body \<Rightarrow>
                          (let s2 = s1\<lparr>stdout := stdout s1 @ body\<rparr>
                           in if StatusCode resp \<noteq> 200 then (s2, Exit (Err ''result not ok'')) else (s2, Ret ())))))"

section \<open>main\<close>

text \<open>Without \<open>tlsInsecure\<close> and a CA the pool is empty, not nil: no server can be verified with it.\<close>

definition client_config :: "cli_net \<Rightarrow> cli_flags \<Rightarrow> goerr + client_tls" where
  "client_config N F =
     (case (if \<not> tlsInsecure F \<and> length (tlsClientCrt F) > 0 \<and> length (tlsCA F) > 0
            then map_sum id (\<lambda>c. [c]) (LoadX509KeyPair N (tlsClientCrt F) (tlsClientKey F)) else Inr []) of
        Inl err \<Rightarrow> Inl err
      | Inr cliCerts \<Rightarrow>
          (case (if \<not> tlsInsecure F \<and> length (tlsCA F) > 0
                 then map_sum id (\<lambda>c. [c]) (cli_ReadFile N (tlsCA F)) else Inr []) of
             Inl err \<Rightarrow> Inl err
           | Inr caCertPool \<Rightarrow>
               Inr \<lparr>tc_Certificates = cliCerts, tc_RootCAs = caCertPool, tc_InsecureSkipVerify = tlsInsecure F\<rparr>))"

text \<open>\<open>None\<close>: the client waits for ever.\<close>

definition cli_main :: "cli_net \<Rightarrow> cli_flags \<Rightarrow> cli_state \<Rightarrow> cli_result option" where
  "cli_main N F s =
     (case client_config N F of
        Inl err \<Rightarrow> Some (s, Exit err)
      | Inr tls \<Rightarrow>
          if length (envoyLogLevel F) > 0 then
            Some (requestEnvoyAdmin N tls F (''/logging?level='' @ envoyLogLevel F) s)
          else if drainEnvoy F then Some (drain_envoy N tls F s)
          else if length (namespace F) = 0 then Some (s, Exit (Err ''no namespace''))
          else if length (pod_flag F) = 0 then Some (s, Exit (Err ''no pod''))
          else if wait F then
            (case waitForAPI N tls F 0 s of
               None \<Rightarrow> None
             | Some r \<Rightarrow> Some (and_then r (run_query N tls F)))
          else Some (run_query N tls F s))"

section \<open>The wait loop\<close>

definition ready_at :: "cli_net \<Rightarrow> client_tls \<Rightarrow> cli_flags \<Rightarrow> nat \<Rightarrow> bool" where
  "ready_at N tls F n = (case net_Do N n tls (ready_request F) of Inl _ \<Rightarrow> False | Inr rp \<Rightarrow> StatusCode rp = 200)"

definition replied_at :: "cli_net \<Rightarrow> client_tls \<Rightarrow> cli_flags \<Rightarrow> nat \<Rightarrow> bool" where
  "replied_at N tls F n = (\<not> isl (net_Do N n tls (ready_request F)))"

definition replies :: "cli_net \<Rightarrow> client_tls \<Rightarrow> cli_flags \<Rightarrow> nat \<Rightarrow> nat \<Rightarrow> nat" where
  "replies N tls F n j = length (filter (\<lambda>i. replied_at N tls F (n + i)) [0..<j])"

text \<open>The state after \<open>j\<close> attempts that did not find the server ready: one a second.\<close>

definition after_attempts :: "cli_net \<Rightarrow> client_tls \<Rightarrow> cli_flags \<Rightarrow> nat \<Rightarrow> cli_state \<Rightarrow> cli_state" where
  "after_attempts N tls F j s =
     s\<lparr>sent := sent s @ map (\<lambda>i. (slept s + int i * Second, ready_request F)) [0..<j],
       slept := slept s + int j * Second,
       open_bodies := open_bodies s + replies N tls F (length (sent s)) j\<rparr>"

lemma after_attempts_0 [simp]: "after_attempts N tls F 0 s = s"
  by (simp add: after_attempts_def replies_def)

lemma length_after_attempts [simp]: "length (sent (after_attempts N tls F j s)) = length (sent s) + j"
  by (simp add: after_attempts_def)

lemma after_attempts_Suc:
  "after_attempts N tls F (Suc j) s = after_attempts N tls F 1 (after_attempts N tls F j s)"
  by (simp add: after_attempts_def replies_def algebra_simps)

lemma wait_step:
  assumes "net_URL N (server_url F ''/api/ready'') = None" and "\<not> ready_at N tls F (length (sent s))"
  shows "waitForAPI N tls F d s =
    waitForAPI N tls F (d + replies N tls F (length (sent s)) 1) (after_attempts N tls F 1 s)"
  using assms
  by (cases s; subst waitForAPI.simps)
    (auto simp: ready_at_def replies_def replied_at_def after_attempts_def record_request_def do_sleep_def Let_def
       split: sum.splits)

lemma wait_ready:
  assumes "net_URL N (server_url F ''/api/ready'') = None" and "ready_at N tls F (length (sent s))"
  shows "waitForAPI N tls F d s =
    Some ((record_request (ready_request F) s)\<lparr>open_bodies := open_bodies s - d\<rparr>, Ret ())"
  using assms
  by (subst waitForAPI.simps) (auto simp: ready_at_def record_request_def Let_def split: sum.splits)

lemma wait_unroll:
  assumes "net_URL N (server_url F ''/api/ready'') = None"
    and "\<And>i. i < j \<Longrightarrow> \<not> ready_at N tls F (length (sent s) + i)"
  shows "waitForAPI N tls F d s =
    waitForAPI N tls F (d + replies N tls F (length (sent s)) j) (after_attempts N tls F j s)"
  using assms(2)
proof (induction j)
  case 0
  then show ?case by (simp add: replies_def)
next
  case (Suc j)
  have "replies N tls F (length (sent s)) (Suc j) =
      replies N tls F (length (sent s)) j + replies N tls F (length (sent s) + j) 1"
    by (simp add: replies_def)
  then show ?case
    using Suc.IH [OF Suc.prems] wait_step [OF assms(1), of tls "after_attempts N tls F j s"] Suc.prems [of j]
    by (simp add: after_attempts_Suc [of N tls F j s] add.assoc)
qed

lemma wait_some_ready:
  assumes ret: "waitForAPI N tls F d s = Some r" and url: "net_URL N (server_url F ''/api/ready'') = None"
  shows "\<exists>k \<ge> length (sent s). ready_at N tls F k"
proof -
  have "net_URL N (server_url F ''/api/ready'') = None \<longrightarrow> (\<exists>k \<ge> length (sent s). ready_at N tls F k)"
  proof (rule waitForAPI.raw_induct [where P = "\<lambda>N tls F d s r. net_URL N (server_url F ''/api/ready'') = None \<longrightarrow>
        (\<exists>k \<ge> length (sent s). ready_at N tls F k)", OF _ ret], intro impI)
    fix f :: "cli_net \<Rightarrow> client_tls \<Rightarrow> cli_flags \<Rightarrow> nat \<Rightarrow> cli_state \<Rightarrow> cli_result option" and N tls F d s r
    assume IH: "\<And>N tls F d s r. f N tls F d s = Some r \<Longrightarrow>
        net_URL N (server_url F ''/api/ready'') = None \<longrightarrow> (\<exists>k \<ge> length (sent s). ready_at N tls F k)"
      and url: "net_URL N (server_url F ''/api/ready'') = None"
      and eq: "(case net_URL N (server_url F ''/api/ready'') of
        Some err \<Rightarrow> Some (s, Panic ''nil pointer dereference'')
      | None \<Rightarrow>
          (let resp = net_Do N (length (sent s)) tls (ready_request F);
               s = record_request (ready_request F) s
           in case resp of
                Inl err \<Rightarrow> f N tls F d (do_sleep Second s)
              | Inr rp \<Rightarrow>
                  if StatusCode rp = 200 then Some (s\<lparr>open_bodies := open_bodies s - d\<rparr>, Ret ())
                  else f N tls F (Suc d) (do_sleep Second (s\<lparr>open_bodies := Suc (open_bodies s)\<rparr>)))) = Some r"
    show "\<exists>k \<ge> length (sent s). ready_at N tls F k"
    proof (cases "ready_at N tls F (length (sent s))")
      case False
      then obtain d' s' where "f N tls F d' s' = Some r" "length (sent s') = Suc (length (sent s))"
        using eq url by (auto simp: ready_at_def record_request_def do_sleep_def Let_def split: sum.splits if_splits)
      with IH [OF this(1)] url show ?thesis by (metis Suc_leD)
    qed auto
  qed
  with url show ?thesis by blast
qed

text \<open>
  Property (C24). The client waits until the server is ready and no longer: it returns exactly when
  some answer is a 200, then with one request a second up to and including that one and every body
  closed; while it waits, each answer that was not a 200 leaves one more body open.
\<close>

theorem wait_until_ready:
  assumes "net_URL N (server_url F ''/api/ready'') = None"
  shows "(waitForAPI N tls F 0 s = None \<longleftrightarrow> (\<forall>n \<ge> length (sent s). \<not> ready_at N tls F n)) \<and>
    (\<forall>j. (\<forall>i < j. \<not> ready_at N tls F (length (sent s) + i)) \<longrightarrow>
       waitForAPI N tls F 0 s =
         waitForAPI N tls F (replies N tls F (length (sent s)) j) (after_attempts N tls F j s) \<and>
       (ready_at N tls F (length (sent s) + j) \<longrightarrow>
          waitForAPI N tls F 0 s =
            Some ((after_attempts N tls F j s)
              \<lparr>sent := sent s @ map (\<lambda>i. (slept s + int i * Second, ready_request F)) [0..<Suc j],
               open_bodies := open_bodies s\<rparr>, Ret ())))"
proof -
  let ?n = "length (sent s)"
  have unroll: "waitForAPI N tls F 0 s = waitForAPI N tls F (replies N tls F ?n j) (after_attempts N tls F j s)"
    if "\<forall>i < j. \<not> ready_at N tls F (?n + i)" for j
    using wait_unroll [OF assms, of j tls s 0] that by simp
  have ret: "waitForAPI N tls F 0 s =
      Some ((after_attempts N tls F j s)\<lparr>sent := sent s @ map (\<lambda>i. (slept s + int i * Second, ready_request F)) [0..<Suc j],
        open_bodies := open_bodies s\<rparr>, Ret ())"
    if "\<forall>i < j. \<not> ready_at N tls F (?n + i)" "ready_at N tls F (?n + j)" for j
    using unroll [OF that(1)] wait_ready [OF assms, of tls "after_attempts N tls F j s"] that(2)
    by (simp add: record_request_def) (simp add: after_attempts_def)
  have "\<exists>j. (\<forall>i < j. \<not> ready_at N tls F (?n + i)) \<and> ready_at N tls F (?n + j)" if "n \<ge> ?n" "ready_at N tls F n" for n
  proof -
    have "ready_at N tls F (?n + (n - ?n))" using that by simp
    then show ?thesis using exists_least_iff [of "\<lambda>j. ready_at N tls F (?n + j)"] by blast
  qed
  with ret have "waitForAPI N tls F 0 s \<noteq> None" if "n \<ge> ?n" "ready_at N tls F n" for n using that by fastforce
  moreover have "waitForAPI N tls F 0 s = None" if "\<forall>n \<ge> ?n. \<not> ready_at N tls F n"
    using wait_some_ready [OF _ assms] that by (cases "waitForAPI N tls F 0 s") blast+
  ultimately show ?thesis using unroll ret by blast
qed

text \<open>A network where the first answer is a 503, the second fails and every later one is a 200.\<close>

definition demo_net :: cli_net where
  "demo_net =
     \<lparr>net_URL = (\<lambda>u. None),
      net_Do = (\<lambda>n tls q. if n = 0 then Inr \<lparr>StatusCode = 503, ReadAll = Inr ''''\<rparr>
         else if n = 1 then Inl (Err ''refused'') else Inr \<lparr>StatusCode = 200, ReadAll = Inr ''ok''\<rparr>),
      LoadX509KeyPair = (\<lambda>c k. Inr ''cert''), cli_ReadFile = (\<lambda>p. Inr ''ca'')\<rparr>"

abbreviation demo_flags :: cli_flags where "demo_flags \<equiv> cli_defaults (\<lambda>n. ''v'')"

theorem wait_until_ready_witness:
  "\<exists>tls s'. waitForAPI demo_net tls demo_flags 0 cli_start = Some (s', Ret ()) \<and>
     map fst (sent s') = [0, Second, 2 * Second] \<and> open_bodies s' = 0 \<and>
     open_bodies (after_attempts demo_net tls demo_flags 2 cli_start) = 1"
proof -
  let ?tls = "\<lparr>tc_Certificates = [], tc_RootCAs = [], tc_InsecureSkipVerify = True\<rparr>"
  have url: "net_URL demo_net (server_url demo_flags ''/api/ready'') = None" by (simp add: demo_net_def)
  have len: "length (sent cli_start) = 0" by (simp add: cli_start_def)
  have before: "\<forall>i < 2. \<not> ready_at demo_net ?tls demo_flags (length (sent cli_start) + i)"
    and ready: "ready_at demo_net ?tls demo_flags (length (sent cli_start) + 2)"
    by (auto simp: ready_at_def demo_net_def len less_2_cases_iff)
  have open1: "open_bodies (after_attempts demo_net ?tls demo_flags 2 cli_start) = 1"
    by (simp add: after_attempts_def replies_def replied_at_def demo_net_def cli_start_def numeral_2_eq_2)
  have three: "[0..<Suc 2] = [0, 1, 2]" by (simp add: upt_rec)
  from wait_until_ready [OF url, of ?tls cli_start] before ready
  have "waitForAPI demo_net ?tls demo_flags 0 cli_start =
      Some ((after_attempts demo_net ?tls demo_flags 2 cli_start)
        \<lparr>sent := sent cli_start @ map (\<lambda>i. (slept cli_start + int i * Second, ready_request demo_flags)) [0..<Suc 2],
         open_bodies := open_bodies cli_start\<rparr>, Ret ())" by blast
  with open1 show ?thesis
    unfolding three by (intro exI [of _ ?tls]) (auto simp: cli_start_def)
qed

section \<open>Draining\<close>

text \<open>
  A script of admin requests, each after a pause, and its requests with the times they are sent at; a
  request was answered when it could be made and sent and its body read (its status is not looked at).
\<close>

fun run_script :: "cli_net \<Rightarrow> client_tls \<Rightarrow> cli_flags \<Rightarrow> (int \<times> string) list \<Rightarrow> cli_state \<Rightarrow> cli_result" where
  "run_script N tls F [] s = (s, Ret ())"
| "run_script N tls F ((d, p) # ps) s =
     and_then (requestEnvoyAdmin N tls F p (do_sleep d s)) (run_script N tls F ps)"

fun timed :: "cli_flags \<Rightarrow> int \<Rightarrow> (int \<times> string) list \<Rightarrow> (int \<times> cli_request) list" where
  "timed F t [] = []"
| "timed F t ((d, p) # ps) = (t + d, admin_request F p) # timed F (t + d) ps"

definition answered :: "cli_net \<Rightarrow> client_tls \<Rightarrow> nat \<Rightarrow> cli_request \<Rightarrow> bool" where
  "answered N tls n q =
     (net_URL N (q_URL q) = None \<and>
      (case net_Do N n tls q of Inl _ \<Rightarrow> False | Inr rp \<Rightarrow> (case ReadAll rp of Inl _ \<Rightarrow> False | Inr _ \<Rightarrow> True)))"

lemma requestEnvoyAdmin_cases:
  obtains (answered) "answered N tls (length (sent s)) (admin_request F path)"
      "requestEnvoyAdmin N tls F path s = (record_request (admin_request F path) s, Ret ())"
    | (fails) e s' where "\<not> answered N tls (length (sent s)) (admin_request F path)"
      "requestEnvoyAdmin N tls F path s = (s', Exit e)" "s' = s \<or> s' = record_request (admin_request F path) s"
  by (cases "net_URL N (q_URL (admin_request F path))";
      cases "net_Do N (length (sent s)) tls (admin_request F path)";
      cases "ReadAll (projr (net_Do N (length (sent s)) tls (admin_request F path)))")
    (auto simp: requestEnvoyAdmin_def answered_def Let_def)

lemma timed_length [simp]: "length (timed F t ps) = length ps"
  by (induction F t ps rule: timed.induct) simp_all

lemma all_Suc: "(\<forall>i < Suc n. P i) \<longleftrightarrow> P 0 \<and> (\<forall>i < n. P (Suc i))"
  by (metis less_Suc_eq_0_disj)

lemma run_script_facts:
  assumes "run_script N tls F ps s = (s', r)"
  shows "\<exists>k \<le> length ps. sent s' = sent s @ take k (timed F (slept s) ps) \<and>
    (\<forall>i. Suc i < k \<longrightarrow> answered N tls (length (sent s) + i) (snd (timed F (slept s) ps ! i))) \<and>
    (r = Ret () \<longleftrightarrow> (\<forall>i < length ps. answered N tls (length (sent s) + i) (snd (timed F (slept s) ps ! i)))) \<and>
    (r \<noteq> Ret () \<longrightarrow> (\<exists>e. r = Exit e))"
  using assms
proof (induction ps arbitrary: s)
  case (Cons dp ps)
  obtain d p where dp: "dp = (d, p)" by fastforce
  let ?s = "do_sleep d s" and ?q = "admin_request F p"
  have simps [simp]: "sent ?s = sent s" "slept ?s = slept s + d" by (simp_all add: do_sleep_def)
  show ?case
  proof (cases rule: requestEnvoyAdmin_cases [of N tls ?s F p])
    case (fails e s1)
    with Cons.prems have r: "s' = s1" "r = Exit e" by (auto simp: dp and_then_def)
    have "sent s1 = sent s \<or> sent s1 = sent s @ [(slept s + d, ?q)]"
      using fails(3) by (auto simp: record_request_def)
    then obtain k where "k \<le> 1" "sent s1 = sent s @ take k (timed F (slept s) (dp # ps))"
      by (auto simp: dp intro: that [of 0] that [of 1])
    with fails(1) show ?thesis by (intro exI [of _ k]) (auto simp: r dp all_Suc)
  next
    case answered
    let ?s1 = "record_request ?q ?s"
    have s1: "sent ?s1 = sent s @ [(slept s + d, ?q)]" "slept ?s1 = slept s + d" by (simp_all add: record_request_def)
    from answered Cons.prems have "run_script N tls F ps ?s1 = (s', r)" by (simp add: dp and_then_def)
    from Cons.IH [OF this, unfolded s1] obtain k where
      "k \<le> length ps" "sent s' = (sent s @ [(slept s + d, ?q)]) @ take k (timed F (slept s + d) ps)"
      "\<forall>i. Suc i < k \<longrightarrow> answered N tls (length (sent s @ [(slept s + d, ?q)]) + i) (snd (timed F (slept s + d) ps ! i))"
      "r = Ret () \<longleftrightarrow> (\<forall>i < length ps. answered N tls (length (sent s @ [(slept s + d, ?q)]) + i) (snd (timed F (slept s + d) ps ! i)))"
      "r \<noteq> Ret () \<longrightarrow> (\<exists>e. r = Exit e)" by blast
    moreover have "answered N tls (length (sent s) + i) (snd (((slept s + d, ?q) # timed F (slept s + d) ps) ! i))"
      if "Suc i < Suc k" for i
      using calculation(3) answered(1) that by (cases i) auto
    ultimately show ?thesis using answered(1) by (intro exI [of _ "Suc k"]) (auto simp: dp all_Suc)
  qed
qed simp

abbreviation drain_script :: "cli_flags \<Rightarrow> (int \<times> string) list" where
  "drain_script F \<equiv> [(0, ''/drain_listeners?graceful''), (0, ''/healthcheck/fail''), (timeout F, ''/quitquitquit'')]"

lemma drain_is_script: "drain_envoy N tls F s = run_script N tls F (drain_script F) s"
proof -
  have "do_sleep 0 t = t" "and_then r (\<lambda>s. (s, Ret ())) = r" for t r
    by (simp_all add: do_sleep_def and_then_def split: prod.split outcome.split)
  moreover have "run_script N tls F [] = (\<lambda>s. (s, Ret ()))"
    "run_script N tls F ((d, p) # ps) = (\<lambda>s. and_then (requestEnvoyAdmin N tls F p (do_sleep d s)) (run_script N tls F ps))"
    for d p ps by (simp_all add: fun_eq_iff)
  ultimately show ?thesis by (simp add: drain_envoy_def)
qed

text \<open>
  Property (C25). Draining an Envoy sends, in this order, the graceful drain, the failing of the health
  check and, only after the timeout and only if the first two were answered, the quit; the first
  request that is not answered ends the client with an error and nothing more is sent.
\<close>

theorem drain_order:
  assumes "client_config N F = Inr tls" and "envoyLogLevel F = ''''" and "drainEnvoy F"
    and "plan = [(slept s, admin_request F ''/drain_listeners?graceful''),
      (slept s, admin_request F ''/healthcheck/fail''), (slept s + timeout F, admin_request F ''/quitquitquit'')]"
  shows "\<exists>s' r k. cli_main N F s = Some (s', r) \<and> k \<le> 3 \<and> sent s' = sent s @ take k plan \<and>
    (\<forall>i. Suc i < k \<longrightarrow> answered N tls (length (sent s) + i) (snd (plan ! i))) \<and>
    (r = Ret () \<longleftrightarrow> (\<forall>i < 3. answered N tls (length (sent s) + i) (snd (plan ! i)))) \<and>
    (r \<noteq> Ret () \<longrightarrow> (\<exists>e. r = Exit e))"
proof -
  obtain s' r where r: "run_script N tls F (drain_script F) s = (s', r)" by fastforce
  have "cli_main N F s = Some (s', r)" using assms(1-3) r by (simp add: cli_main_def drain_is_script)
  moreover have "timed F (slept s) (drain_script F) = plan" "length (drain_script F) = 3" by (simp_all add: assms(4))
  ultimately show ?thesis using run_script_facts [OF r] by metis
qed

lemma demo_config: "client_config demo_net (demo_flags\<lparr>drainEnvoy := b\<rparr>) =
    Inr \<lparr>tc_Certificates = [''cert''], tc_RootCAs = [''ca''], tc_InsecureSkipVerify = False\<rparr>"
  by (simp add: client_config_def cli_defaults_def demo_net_def)

theorem drain_order_witness:
  "\<exists>s' e. cli_main demo_net (demo_flags\<lparr>drainEnvoy := True\<rparr>) cli_start = Some (s', Exit e) \<and> length (sent s') \<le> 3"
proof -
  let ?F = "demo_flags\<lparr>drainEnvoy := True\<rparr>"
    and ?tls = "\<lparr>tc_Certificates = [''cert''], tc_RootCAs = [''ca''], tc_InsecureSkipVerify = False\<rparr>"
  have "\<not> answered demo_net ?tls 1 q" for q by (simp add: answered_def demo_net_def)
  then have no: "\<not> (\<forall>i < 3. answered demo_net ?tls (length (sent cli_start) + i) (q i))" for q
    by (intro notI) (auto simp: cli_start_def dest: spec [of _ 1])
  have "envoyLogLevel ?F = ''''" "drainEnvoy ?F" by (simp_all add: cli_defaults_def)
  from drain_order [OF demo_config this refl, of cli_start] no show ?thesis by (fastforce simp: cli_start_def)
qed

end
