(* ===== verification/GenCerts.thy ===== *)
theory GenCerts
  imports Certs GoStd
begin

text \<open>
  \<^verbatim>\<open>cmd/gencerts/main.go\<close>: the command that writes a certificate authority, a server certificate and an
  Envoy certificate to files. The order of the files is that of a Go map; the log of written files
  keeps path, content and mode.
\<close>

type_synonym written = "(string \<times> bytes \<times> nat) list"

definition fileMode :: nat where "fileMode = 6 * 64 + 4 * 8 + 4"

fun write_files ::
  "(string \<Rightarrow> bytes \<Rightarrow> goerr option) \<Rightarrow> string \<Rightarrow> bytes gomap \<Rightarrow> written \<Rightarrow> written \<times> unit outcome" where
  "write_files WriteFile certPath [] out = (out, Ret ())"
| "write_files WriteFile certPath ((fileName, fileContent) # fs) out =
     (let filePath = path_Join [certPath, fileName]
      in case WriteFile filePath fileContent of
           Some err \<Rightarrow> (out, Exit err)
         | None \<Rightarrow> write_files WriteFile certPath fs (out @ [(filePath, fileContent, fileMode)]))"

definition cert_files ::
  "app_config \<Rightarrow> bytes \<times> bytes \<Rightarrow> bytes \<times> bytes \<Rightarrow> bytes \<times> bytes \<Rightarrow> bytes gomap" where
  "cert_files cfg root server envoy =
     (let files = [];
          files = (if length (SSLCrt cfg) = 0 \<and> length (SSLKey cfg) = 0
            then AList.update ''CA.key'' (snd root) (AList.update ''CA.crt'' (fst root) files) else files);
          files = AList.update ''server.key'' (snd server) (AList.update ''server.crt'' (fst server) files)
      in AList.update ''envoy.key'' (snd envoy) (AList.update ''envoy.crt'' (fst envoy) files))"

text \<open>Everything before the first write; an error at any stage is fatal and nothing is written.\<close>

definition fatal_on_error :: "(goerr + 'a) outcome \<Rightarrow> 'a outcome" where
  "fatal_on_error m = bind_outcome m (\<lambda>r. case r of Inl err \<Rightarrow> Exit err | Inr x \<Rightarrow> Ret x)"

definition make_files ::
  "crypto \<Rightarrow> (nat \<Rightarrow> nat \<Rightarrow> int) \<Rightarrow> app_config \<Rightarrow> string \<Rightarrow> bytes gomap outcome" where
  "make_files K clock cfg dnsNames =
     bind_outcome (fatal_on_error (certs_Init K cfg (clock 0) 0))
       (\<lambda>ca. let rootCrt = GetLoadedRootCert ca; rootCrtBytes = GetLoadedRootCertBytes ca;
                 rootKey = GetLoadedRootKey ca
             in bind_outcome (fatal_on_error (GetLoadedRootKeyBytes K ca))
       (\<lambda>rootKeyBytes.
          bind_outcome (fatal_on_error
              (GenServerCert K (clock 1) 1 (Split (CHR '','') dnsNames) rootCrt rootKey CertValidityMax))
       (\<lambda>(_, serverCrtBytes, _, serverKeyBytes).
          bind_outcome (fatal_on_error (GenServerCert K (clock 2) 2 [''envoy''] rootCrt rootKey CertValidityMax))
       (\<lambda>(_, envoyCrtBytes, _, envoyKeyBytes).
          Ret (cert_files cfg (rootCrtBytes, rootKeyBytes) (serverCrtBytes, serverKeyBytes)
                 (envoyCrtBytes, envoyKeyBytes))))))"

definition gencerts_main ::
  "crypto \<Rightarrow> (nat \<Rightarrow> nat \<Rightarrow> int) \<Rightarrow> (bytes gomap \<Rightarrow> bytes gomap) \<Rightarrow> (string \<Rightarrow> bytes \<Rightarrow> goerr option)
     \<Rightarrow> app_config \<Rightarrow> string \<Rightarrow> string \<Rightarrow> written \<times> unit outcome" where
  "gencerts_main K clock order WriteFile cfg certPath dnsNames =
     (case make_files K clock cfg dnsNames of
        Exit err \<Rightarrow> ([], Exit err)
      | Panic p \<Rightarrow> ([], Panic p)
      | Ret files \<Rightarrow> write_files WriteFile certPath (order files) [])"

section \<open>What is written\<close>

lemma fatal_on_error_Ret [simp]: "fatal_on_error m = Ret x \<longleftrightarrow> m = Ret (Inr x)"
  by (cases m) (auto simp: fatal_on_error_def split: sum.splits)

lemma write_files_Ret:
  "write_files W p fs out = (out', Ret ()) \<Longrightarrow> out' = out @ map (\<lambda>(n, c). (path_Join [p, n], c, fileMode)) fs"
  by (induction W p fs out rule: write_files.induct) (auto simp: Let_def split: option.splits)

lemma gencerts_Ret:
  assumes "gencerts_main K clock order W cfg p names = (out, Ret ())"
  obtains files where "make_files K clock cfg names = Ret files"
    "out = map (\<lambda>(n, c). (path_Join [p, n], c, fileMode)) (order files)"
  using assms write_files_Ret [of W p _ "[]" out] by (auto simp: gencerts_main_def split: outcome.splits)

lemma make_files_Ret:
  assumes "make_files K clock cfg names = Ret files"
  obtains ca kb c1 p1 k1 q1 c2 p2 k2 q2 where "certs_Init K cfg (clock 0) 0 = Ret (Inr ca)"
    "GenServerCert K (clock 1) 1 (Split (CHR '','') names) (caCert ca) (caKey ca) CertValidityMax = Ret (Inr (c1, p1, k1, q1))"
    "GenServerCert K (clock 2) 2 [''envoy''] (caCert ca) (caKey ca) CertValidityMax = Ret (Inr (c2, p2, k2, q2))"
    "files = cert_files cfg (caCertBytes ca, kb) (p1, q1) (p2, q2)"
  using assms
  by (auto simp: make_files_def Let_def GetLoadedRootCert_def GetLoadedRootCertBytes_def GetLoadedRootKey_def)

text \<open>A certificate for the names, with its key, signed by the authority in force.\<close>

definition signed_for :: "crypto \<Rightarrow> ca_state \<Rightarrow> (nat \<Rightarrow> int) \<Rightarrow> string list \<Rightarrow> issued \<Rightarrow> bool" where
  "signed_for K ca clock names i =
     (case i of (cert, pem, key, keyPem) \<Rightarrow>
        genCert K (server_template clock (hd names) names CertValidityMax) (caCert ca) (PublicKey K key) (caKey ca)
          = Inr (cert, pem) \<and> exportPrivateKey K key = Inr keyPem \<and> DNSNames cert = names \<and> \<not> IsCA cert)"

lemma signed_forI:
  assumes "x509_law K" and "GenServerCert K clock n names (caCert ca) (caKey ca) CertValidityMax = Ret (Inr (c, p, k, q))"
  shows "signed_for K ca clock names (c, p, k, q)"
proof -
  note g = GenServerCert_Inr [OF assms(2)]
  then obtain der where "CreateCertificate K (server_template clock (hd names) names CertValidityMax)
      (caCert ca) (PublicKey K k) (caKey ca) = Inr der" "ParseCertificate K der = Inr c"
    using genCert_Inr by blast
  from x509_lawD [OF assms(1) this] g show ?thesis by (simp add: signed_for_def server_template_def)
qed

text \<open>
  Property (C26). When the command succeeds it has written the server certificate for exactly the
  names asked for and the Envoy certificate for \<^verbatim>\<open>envoy\<close>, both signed by the authority in force, with
  their keys; and the authority itself exactly when neither of its options is set. Every file,
  private keys included, gets mode 0644.
\<close>

theorem gencerts_writes:
  assumes "x509_law K" and "\<And>m. mset (order m) = mset m"
    and "gencerts_main K clock order W cfg certPath names = (out, Ret ())"
  shows "\<exists>ca kb c1 p1 k1 q1 c2 p2 k2 q2. certs_Init K cfg (clock 0) 0 = Ret (Inr ca) \<and>
    signed_for K ca (clock 1) (Split (CHR '','') names) (c1, p1, k1, q1) \<and>
    signed_for K ca (clock 2) [''envoy''] (c2, p2, k2, q2) \<and>
    set out = (\<lambda>(n, c). (path_Join [certPath, n], c, 420)) `
      ({(''server.crt'', p1), (''server.key'', q1), (''envoy.crt'', p2), (''envoy.key'', q2)} \<union>
       (if SSLCrt cfg = '''' \<and> SSLKey cfg = '''' then {(''CA.crt'', caCertBytes ca), (''CA.key'', kb)} else {}))"
proof -
  obtain files where files: "make_files K clock cfg names = Ret files"
    "out = map (\<lambda>(n, c). (path_Join [certPath, n], c, fileMode)) (order files)"
    using gencerts_Ret [OF assms(3)] by blast
  from files(1) obtain ca kb c1 p1 k1 q1 c2 p2 k2 q2 where
    ca: "certs_Init K cfg (clock 0) 0 = Ret (Inr ca)"
    and s: "GenServerCert K (clock 1) 1 (Split (CHR '','') names) (caCert ca) (caKey ca) CertValidityMax = Ret (Inr (c1, p1, k1, q1))"
    and e: "GenServerCert K (clock 2) 2 [''envoy''] (caCert ca) (caKey ca) CertValidityMax = Ret (Inr (c2, p2, k2, q2))"
    and cf: "files = cert_files cfg (caCertBytes ca, kb) (p1, q1) (p2, q2)" by (rule make_files_Ret)
  have "set out = (\<lambda>(n, c). (path_Join [certPath, n], c, 420)) ` set files"
    unfolding files(2) fileMode_def set_map mset_eq_setD [OF assms(2)] by simp
  moreover have "set files = {(''server.crt'', p1), (''server.key'', q1), (''envoy.crt'', p2), (''envoy.key'', q2)} \<union>
       (if SSLCrt cfg = '''' \<and> SSLKey cfg = '''' then {(''CA.crt'', caCertBytes ca), (''CA.key'', kb)} else {})"
    by (simp add: cf cert_files_def Let_def insert_commute)
  ultimately have "certs_Init K cfg (clock 0) 0 = Ret (Inr ca) \<and>
    signed_for K ca (clock 1) (Split (CHR '','') names) (c1, p1, k1, q1) \<and>
    signed_for K ca (clock 2) [''envoy''] (c2, p2, k2, q2) \<and>
    set out = (\<lambda>(n, c). (path_Join [certPath, n], c, 420)) `
      ({(''server.crt'', p1), (''server.key'', q1), (''envoy.crt'', p2), (''envoy.key'', q2)} \<union>
       (if SSLCrt cfg = '''' \<and> SSLKey cfg = '''' then {(''CA.crt'', caCertBytes ca), (''CA.key'', kb)} else {}))"
    using ca signed_forI [OF assms(1) s] signed_forI [OF assms(1) e] by (simp only: simp_thms)
  then show ?thesis by (intro exI)
qed

text \<open>
  Property (C27). With exactly one of the two authority options set, the command signs with an
  authority it has just made and writes neither its certificate nor its key, so that nothing can
  verify what it wrote.
\<close>

theorem gencerts_loses_authority:
  assumes "(SSLCrt cfg = '''') \<noteq> (SSLKey cfg = '''')" and "\<And>m. mset (order m) = mset m"
    and "gencerts_main K clock order W cfg certPath names = (out, Ret ())"
  shows "\<exists>root pem key keyPem. GenCARoot K (clock 0) 0 = Inr (root, pem, key, keyPem) \<and>
    certs_Init K cfg (clock 0) 0 = Ret (Inr \<lparr>caCert = Some root, caCertBytes = pem, caKey = Some key\<rparr>) \<and>
    fst ` set out = (\<lambda>n. path_Join [certPath, n]) ` {''server.crt'', ''server.key'', ''envoy.crt'', ''envoy.key''}"
proof -
  obtain files where files: "make_files K clock cfg names = Ret files"
    "out = map (\<lambda>(n, c). (path_Join [certPath, n], c, fileMode)) (order files)"
    using gencerts_Ret [OF assms(3)] by blast
  from files(1) obtain ca kb c1 p1 k1 q1 c2 p2 k2 q2 where
    ca: "certs_Init K cfg (clock 0) 0 = Ret (Inr ca)"
    and cf: "files = cert_files cfg (caCertBytes ca, kb) (p1, q1) (p2, q2)" by (rule make_files_Ret)
  have "certs_Init K cfg (clock 0) 0 = Ret (map_sum id (\<lambda>(cert, b, k, _). \<lparr>caCert = Some cert, caCertBytes = b, caKey = Some k\<rparr>)
      (GenCARoot K (clock 0) 0))" using assms(1) by (auto simp: certs_Init_def)
  with ca obtain root pem key keyPem where "GenCARoot K (clock 0) 0 = Inr (root, pem, key, keyPem)"
    "ca = \<lparr>caCert = Some root, caCertBytes = pem, caKey = Some key\<rparr>"
    by (cases "GenCARoot K (clock 0) 0") auto
  moreover have "set (order files) = set files" using assms(2) mset_eq_setD by blast
  moreover have "fst ` set files = {''server.crt'', ''server.key'', ''envoy.crt'', ''envoy.key''}"
    using assms(1) by (auto simp: cf cert_files_def)
  moreover have "fst ` set out = (\<lambda>n. path_Join [certPath, n]) ` fst ` set (order files)"
    by (force simp: files(2))
  ultimately show ?thesis using ca by metis
qed

section \<open>An example run\<close>

text \<open>A library that signs the three templates of a run at time 0.\<close>

definition demo_templates :: "(string \<times> x509_certificate) list" where
  "demo_templates =
     [(''root'', root_template (\<lambda>_. 0)), (''server'', server_template (\<lambda>_. 0) ''a'' [''a'', ''b''] CertValidityMax),
      (''envoy'', server_template (\<lambda>_. 0) ''envoy'' [''envoy''] CertValidityMax)]"

definition demo_signer :: crypto where
  "demo_signer = (demo_crypto (root_template (\<lambda>_. 0)))
     \<lparr>CreateCertificate := (\<lambda>t p pub k. case find (\<lambda>x. snd x = t) demo_templates of
         None \<Rightarrow> Inl (Err ''template'') | Some x \<Rightarrow> Inr (fst x)),
      ParseCertificate := (\<lambda>der. case map_of demo_templates der of
         None \<Rightarrow> Inl (Err ''der'')
       | Some t \<Rightarrow> Inr (t\<lparr>NotBefore := whole_second (NotBefore t), NotAfter := whole_second (NotAfter t),
                         IsCA := BasicConstraintsValid t \<and> IsCA t\<rparr>))\<rparr>"

lemma demo_signer_law: "x509_law demo_signer"
  by (auto simp: x509_law_def demo_signer_def demo_templates_def split: if_splits)

lemma write_all: "write_files (\<lambda>_ _. None) p fs out = (out @ map (\<lambda>(n, c). (path_Join [p, n], c, fileMode)) fs, Ret ())"
  by (induction fs arbitrary: out) (auto simp: Let_def)

lemma demo_names: "Split (CHR '','') ''a,b'' = [''a'', ''b'']"
  by simp

lemma demo_make_files:
  assumes "SSLCrt cfg = '''' \<or> SSLKey cfg = ''''"
  shows "\<exists>files. make_files demo_signer (\<lambda>_ _. 0) cfg ''a,b'' = Ret files"
proof -
  have root: "\<exists>r p k kp. GenCARoot demo_signer (\<lambda>_. 0) 0 = Inr (r, p, k, kp)"
    by (simp add: GenCARoot_def genCert_def exportPrivateKey_def demo_signer_def demo_templates_def demo_crypto_def Let_def)
  have server: "\<exists>i. GenServerCert demo_signer (\<lambda>_. 0) n names rc rk CertValidityMax = Ret (Inr i)"
    if "names = [''a'', ''b''] \<or> names = [''envoy'']" for n names rc rk
    using that by (auto simp: GenServerCert_def genCert_def exportPrivateKey_def demo_signer_def demo_templates_def
      demo_crypto_def Let_def split: option.split)
  have key: "exportPrivateKey demo_signer k = Inr (''PRIVATE KEY:'' @ k)" for k
    by (simp add: exportPrivateKey_def demo_signer_def demo_crypto_def)
  obtain r p k kp where "GenCARoot demo_signer (\<lambda>_. 0) 0 = Inr (r, p, k, kp)" using root by blast
  then have ca: "certs_Init demo_signer cfg (\<lambda>_. 0) 0 = Ret (Inr \<lparr>caCert = Some r, caCertBytes = p, caKey = Some k\<rparr>)"
    using assms by (auto simp: certs_Init_def)
  obtain c1 p1 k1 q1 where 1: "GenServerCert demo_signer (\<lambda>_. 0) 1 [''a'', ''b''] (Some r) (Some k) CertValidityMax = Ret (Inr (c1, p1, k1, q1))"
    using server [of "[''a'', ''b'']"] by (metis prod_cases4)
  obtain c2 p2 k2 q2 where 2: "GenServerCert demo_signer (\<lambda>_. 0) 2 [''envoy''] (Some r) (Some k) CertValidityMax = Ret (Inr (c2, p2, k2, q2))"
    using server [of "[''envoy'']"] by (metis prod_cases4)
  show ?thesis
    using 1 2 unfolding make_files_def ca demo_names
    by (simp add: fatal_on_error_def GetLoadedRootKeyBytes_def GetLoadedRootCert_def GetLoadedRootKey_def
        GetLoadedRootCertBytes_def key Let_def)
qed

lemma demo_gencerts:
  assumes "SSLCrt cfg = '''' \<or> SSLKey cfg = ''''"
  shows "\<exists>out. gencerts_main demo_signer (\<lambda>_ _. 0) rev (\<lambda>_ _. None) cfg ''certs'' ''a,b'' = (out, Ret ())"
  using demo_make_files [OF assms] by (auto simp: gencerts_main_def write_all)

theorem gencerts_writes_witness:
  "\<exists>out pem. gencerts_main demo_signer (\<lambda>_ _. 0) rev (\<lambda>_ _. None) (default_config (\<lambda>_. '''') ''v'') ''certs'' ''a,b'' = (out, Ret ()) \<and>
     (path_Join [''certs'', ''CA.crt''], pem, 420) \<in> set out"
proof -
  let ?cfg = "default_config (\<lambda>_. '''') ''v''"
  have none: "SSLCrt ?cfg = ''''" "SSLKey ?cfg = ''''" by (simp_all add: default_config_def)
  then obtain out where out: "gencerts_main demo_signer (\<lambda>_ _. 0) rev (\<lambda>_ _. None) ?cfg ''certs'' ''a,b'' = (out, Ret ())"
    using demo_gencerts by blast
  from gencerts_writes [OF demo_signer_law mset_rev out] obtain ca :: ca_state where
    "(path_Join [''certs'', ''CA.crt''], caCertBytes ca, 420) \<in> set out" using none by auto
  with out show ?thesis by blast
qed

theorem gencerts_loses_authority_witness:
  "\<exists>out root r. gencerts_main demo_signer (\<lambda>_ _. 0) rev (\<lambda>_ _. None)
       ((default_config (\<lambda>_. '''') ''v'')\<lparr>SSLCrt := ''ca.crt''\<rparr>) ''certs'' ''a,b'' = (out, Ret ()) \<and>
     GenCARoot demo_signer (\<lambda>_. 0) 0 = Inr (root, r) \<and> path_Join [''certs'', ''CA.crt''] \<notin> fst ` set out"
proof -
  let ?cfg = "(default_config (\<lambda>_. '''') ''v'')\<lparr>SSLCrt := ''ca.crt''\<rparr>"
  have one: "(SSLCrt ?cfg = '''') \<noteq> (SSLKey ?cfg = '''')" by (simp add: default_config_def)
  then obtain out where out: "gencerts_main demo_signer (\<lambda>_ _. 0) rev (\<lambda>_ _. None) ?cfg ''certs'' ''a,b'' = (out, Ret ())"
    using demo_gencerts by blast
  have "path_Join [''certs'', ''CA.crt''] \<notin> (\<lambda>n. path_Join [''certs'', n]) `
      {''server.crt'', ''server.key'', ''envoy.crt'', ''envoy.key''}" by code_simp
  with gencerts_loses_authority [OF one mset_rev out] out show ?thesis by fastforce
qed

end
