(* ===== verification/Directory.thy ===== *)
theory Directory
  imports Internal
begin

text \<open>
  The abstract specification of the control plane's bookkeeping: a directory from node IDs to the
  configuration a node is given and whether it is frozen. It is a labelled transition system: what
  handling a ConfigMap may do to the directory is fixed by the ConfigMap alone, entry by entry, and
  everything the program does in the background leaves it as it is. Every step of the program is
  one of its transitions, with the same label.
\<close>

section \<open>The specification\<close>

type_synonym directory = "string \<Rightarrow> (config_type \<times> bool) option"

definition owns :: "configmap \<Rightarrow> config_type \<Rightarrow> bool" where
  "owns cm c \<longleftrightarrow> ConfigMapName c = cm_Name cm \<and> ConfigMapNamespace c = cm_Namespace cm"

definition dir_freeze :: "string \<Rightarrow> directory \<Rightarrow> directory" where
  "dir_freeze n d = d(n := map_option (\<lambda>(c, _). (c, True)) (d n))"

text \<open>
  One key of a ConfigMap and its text. A text that does not parse changes nothing; resources that are
  rejected, or secrets that cannot be issued, freeze the node of the key and no other; otherwise the node is
  given exactly the configuration the text stands for. The flag says whether the next key is looked at.
\<close>

inductive dir_entry ::
  "('s, 'c) env \<Rightarrow> configmap \<Rightarrow> string \<times> string \<Rightarrow> directory \<Rightarrow> bool \<Rightarrow> directory \<Rightarrow> bool"
  for E :: "('s, 'c) env" and cm :: configmap where
  unparsed: "ParseConfigYaml (e_loader E) k t = Ret (Inl err) \<Longrightarrow> dir_entry E cm (k, t) d False d"
| rejected: "ParseConfigYaml (e_loader E) k t = Ret (Inr c) \<Longrightarrow>
    SaveResources (e_codec E) (e_app E) (settle_config cm k c) = (c', Some err) \<Longrightarrow>
    dir_entry E cm (k, t) d False (dir_freeze (ct_ID (settle_config cm k c)) d)"
| without_secrets: "ParseConfigYaml (e_loader E) k t = Ret (Inr c) \<Longrightarrow>
    SaveResources (e_codec E) (e_app E) (settle_config cm k c) = (c', None) \<Longrightarrow>
    NewSecrets (e_codec E) (e_app E) iss (ct_Name c') (Validation c') = Ret (Inl err) \<Longrightarrow>
    dir_entry E cm (k, t) d False (dir_freeze (ct_ID (settle_config cm k c)) d)"
| installed: "ParseConfigYaml (e_loader E) k t = Ret (Inr c) \<Longrightarrow>
    SaveResources (e_codec E) (e_app E) (settle_config cm k c) = (c', None) \<Longrightarrow>
    NewSecrets (e_codec E) (e_app E) iss (ct_Name c') (Validation c') = Ret (Inr secs) \<Longrightarrow>
    dir_entry E cm (k, t) d True (d(ct_ID (settle_config cm k c) \<mapsto> (c', False)))"

inductive dir_entries ::
  "('s, 'c) env \<Rightarrow> configmap \<Rightarrow> (string \<times> string) list \<Rightarrow> directory \<Rightarrow> directory \<Rightarrow> bool"
  for E :: "('s, 'c) env" and cm :: configmap where
  no_entry: "dir_entries E cm [] d d"
| next_entry: "dir_entry E cm x d True d' \<Longrightarrow> dir_entries E cm xs d' d'' \<Longrightarrow> dir_entries E cm (x # xs) d d''"
| last_entry: "dir_entry E cm x d False d' \<Longrightarrow> dir_entries E cm (x # xs) d d'"

definition dir_delete :: "configmap \<Rightarrow> directory \<Rightarrow> directory" where
  "dir_delete cm d n =
     (case d n of None \<Rightarrow> None | Some (c, frozen) \<Rightarrow> if owns cm c then None else Some (c, frozen))"

definition dir_event :: "('s, 'c) env \<Rightarrow> callback \<Rightarrow> directory \<Rightarrow> directory \<Rightarrow> bool" where
  "dir_event E cb d d' =
     (case cb of
        OnNewConfig cm \<Rightarrow>
          (if checkConfigMapLabels (e_app E) cm = Ret True then dir_entries E cm (nilmap (cm_Data cm)) d d' else d' = d)
      | OnDeleteConfig cm \<Rightarrow> d' = dir_delete cm d
      | _ \<Rightarrow> d' = d)"

fun dir_step :: "('s, 'c) env \<Rightarrow> sys_label \<Rightarrow> directory \<Rightarrow> directory \<Rightarrow> bool" where
  "dir_step E Background d d' \<longleftrightarrow> d' = d"
| "dir_step E (Event ev) d d' \<longleftrightarrow>
     (\<exists>m m' cb. handle registered ev m = Ret (m', cb) \<and>
        (case cb of None \<Rightarrow> d' = d | Some c \<Rightarrow> dir_event E c d d'))"
| "dir_step E (UpdateStops cm n) d d' \<longleftrightarrow>
     checkConfigMapLabels (e_app E) cm = Ret True \<and> Some n \<in> entry_id E cm ` set (nilmap (cm_Data cm)) \<and>
       d' = dir_freeze n d"
| "dir_step E (DrainStarts cm n) d d' \<longleftrightarrow> (\<exists>c f. d n = Some (c, f) \<and> owns cm c) \<and> d' = dir_freeze n d"
| "dir_step E (DrainEnds cm n) d d' \<longleftrightarrow> (\<exists>c. d n = Some (c, True) \<and> owns cm c) \<and> d' = d(n := None)"

section \<open>The abstraction\<close>

definition dir :: "'c world \<Rightarrow> directory" where
  "dir w n = map_option (\<lambda>a. (cs_Config (store w a), isStoped (store w a))) (map_of (StoreMap w) n)"

lemma owned_by_owns: "owned_by cm cs = owns cm (cs_Config cs)"
  by (simp add: owned_by_def owns_def)

lemma dir_same:
  assumes "StoreMap w' = StoreMap w"
    and "\<And>a. a \<in> snd ` set (StoreMap w) \<Longrightarrow>
      cs_Config (store w' a) = cs_Config (store w a) \<and> isStoped (store w' a) = isStoped (store w a)"
  shows "dir w' = dir w"
proof
  fix n
  show "dir w' n = dir w n"
  proof (cases "map_of (StoreMap w) n")
    case (Some a)
    then have "a \<in> snd ` set (StoreMap w)" by (force dest: map_of_SomeD)
    with assms Some show ?thesis by (simp add: dir_def)
  qed (simp add: dir_def assms(1))
qed

lemma keyed_unique: "keyed w \<Longrightarrow> map_of (StoreMap w) k = Some a \<Longrightarrow> map_of (StoreMap w) n = Some a \<Longrightarrow> k = n"
  by (auto simp: keyed_def dest!: map_of_SomeD dest: bspec)

lemma dir_same_but: "same_but a w w' \<Longrightarrow> dir w' = dir w"
  unfolding same_but_def by (intro dir_same) metis+

lemma dir_metrics [simp]: "dir (w\<lparr>w_metrics := m\<rparr>) = dir w" "dir (w\<lparr>gos := g\<rparr>) = dir w"
  "dir (next_tick w) = dir w" "dir (w\<lparr>kube := L\<rparr>) = dir w"
  by (rule ext; simp add: dir_def store_def next_tick_def)+

section \<open>ConfigMap events\<close>

lemma dir_stop_old: "world_ok w \<Longrightarrow> keyed w \<Longrightarrow> dir (stop_old n w) = dir_freeze n (dir w)"
proof
  fix k
  assume w: "world_ok w" "keyed w"
  show "dir (stop_old n w) k = dir_freeze n (dir w) k"
  proof (cases "map_of (StoreMap w) k")
    case (Some a)
    have "k = n" if "map_of (StoreMap w) n = Some a" by (rule keyed_unique [OF w(2) Some that])
    then show ?thesis using Some by (auto simp: dir_def dir_freeze_def stop_old_facts [OF w(1)])
  qed (auto simp: dir_def dir_freeze_def stop_old_facts [OF w(1)])
qed

lemma dir_end_drain: "dir (end_drain E n a w) = (dir w)(n := None)"
  by (auto simp: fun_eq_iff dir_def end_drain_def Let_def delete_conv')

lemma dir_listed: "good E w \<Longrightarrow> (n, a) \<in> set (StoreMap w) \<Longrightarrow> dir w n = Some (cs_Config (store w a), isStoped (store w a))"
  by (simp add: dir_def good_def world_ok_def wf_gomap_def)

lemma dir_filed:
  "dir (w\<lparr>StoreMap := AList.update n a (StoreMap w)\<rparr>) = (dir w)(n \<mapsto> (cs_Config (store w a), isStoped (store w a)))"
  by (auto simp: fun_eq_iff dir_def update_conv')

lemma New_store_secrets:
  assumes "New_store E c w = Ret (r, w')"
  shows "\<exists>iss. case r of
      Inl _ \<Rightarrow> \<exists>err. NewSecrets (e_codec E) (e_app E) iss (ct_Name c) (Validation c) = Ret (Inl err)
    | Inr _ \<Rightarrow> \<exists>s. NewSecrets (e_codec E) (e_app E) iss (ct_Name c) (Validation c) = Ret (Inr s)"
proof -
  let ?v = "with_store (fresh_store (e_codec E) c) w" and ?a = "length (heap w)"
  have c: "cs_Config (fresh_store (e_codec E) c) = c" by (simp add: fresh_store_def)
  show ?thesis
    by (rule exI [of _ "issuer_of E ?v"], cases rule: LoadNewSecrets_cases [of E ?v ?a])
      (use assms in \<open>auto simp: New_store_eq Let_def c\<close>)
qed

text \<open>Handling one key is a transition of the directory.\<close>

lemma dir_new_entry:
  assumes "env_laws E" "good E w" "new_entry E cm k t w = Ret (e, w')"
  shows "dir_entry E cm (k, t) (dir w) (e = None) (dir w')"
proof -
  have ok: "order_law E" "world_ok w" "keyed w" using assms by (auto simp: env_laws_def good_def)
  obtain q where q: "ParseConfigYaml (e_loader E) k t = Ret q"
    using assms(3) by (cases "ParseConfigYaml (e_loader E) k t") (auto simp: new_entry_def)
  show ?thesis
  proof (cases q)
    case (Inl err)
    with q assms(3) show ?thesis using unparsed [of E k t err cm "dir w"] by (auto simp: new_entry_def)
  next
    case (Inr c)
    let ?c = "settle_config cm k c"
    let ?w1 = "stop_old (ct_ID ?c) w"
    have p: "ParseConfigYaml (e_loader E) k t = Ret (Inr c)" using q Inr by simp
    have w1: "world_ok ?w1" by (rule stop_old_facts(1) [OF ok(2)])
    have frozen: "dir ?w1 = dir_freeze (ct_ID ?c) (dir w)" by (rule dir_stop_old [OF ok(2,3)])
    obtain c1 r where s: "SaveResources (e_codec E) (e_app E) ?c = (c1, r)" by force
    show ?thesis
    proof (cases r)
      case (Some err)
      with assms(3) s have "e \<noteq> None" "w' = ?w1" by (auto simp: new_entry_parsed [OF p] Let_def)
      with rejected [OF p, of cm c1 err "dir w"] s Some frozen show ?thesis by auto
    next
      case None
      with s have s: "SaveResources (e_codec E) (e_app E) ?c = (c1, None)" by simp
      with assms(3) obtain r2 w2 where N: "New_store E c1 ?w1 = Ret (r2, w2)"
        and body: "(case r2 of Inl err \<Rightarrow> Ret (Some err, w2)
          | Inr a \<Rightarrow> Ret (None, w2\<lparr>StoreMap := AList.update (ct_ID c1) a (StoreMap w2)\<rparr>)) = Ret (e, w')"
        by (auto simp: new_entry_parsed [OF p] Let_def simp del: split_paired_Ex)
      note new = New_store_ok [OF ok(1) w1 N]
      have "a < length (heap ?w1)" if "a \<in> snd ` set (StoreMap ?w1)" for a
        using that w1 unfolding world_ok_def by blast
      then have "dir w2 = dir ?w1" using new by (intro dir_same) auto
      note d2 = this [unfolded frozen]
      obtain iss where iss: "case r2 of
          Inl _ \<Rightarrow> \<exists>err. NewSecrets (e_codec E) (e_app E) iss (ct_Name c1) (Validation c1) = Ret (Inl err)
        | Inr _ \<Rightarrow> \<exists>s. NewSecrets (e_codec E) (e_app E) iss (ct_Name c1) (Validation c1) = Ret (Inr s)"
        using New_store_secrets [OF N] by blast
      show ?thesis
      proof (cases r2)
        case (Inl x)
        with iss obtain err where "NewSecrets (e_codec E) (e_app E) iss (ct_Name c1) (Validation c1) = Ret (Inl err)" by auto
        from without_secrets [OF p s this, of "dir w"] body Inl d2 show ?thesis by auto
      next
        case (Inr a)
        with iss obtain secs where "NewSecrets (e_codec E) (e_app E) iss (ct_Name c1) (Validation c1) = Ret (Inr secs)" by auto
        note inst = installed [OF p s this, of "dir w"]
        have id: "ct_ID c1 = ct_ID ?c" by (rule SaveResources_keeps(1) [OF s])
        have w': "w' = w2\<lparr>StoreMap := AList.update (ct_ID ?c) a (StoreMap w2)\<rparr>" using body Inr id by simp
        have "cs_Config (store w2 a) = c1" "\<not> isStoped (store w2 a)" using new Inr by auto
        then have "dir w' = (dir w)(ct_ID ?c \<mapsto> (c1, False))" unfolding w' dir_filed d2 by (simp add: dir_freeze_def)
        with inst body Inr show ?thesis by auto
      qed
    qed
  qed
qed

lemma dir_new_entries:
  assumes "env_laws E" "good E w" "new_entries E cm es w = Ret (e, w')"
  shows "dir_entries E cm es (dir w) (dir w')"
  using assms(2,3)
proof (induction es arbitrary: w)
  case Nil
  then show ?case by (simp add: no_entry)
next
  case (Cons x es)
  obtain n t where x: "x = (n, t)" by force
  with Cons.prems(2) obtain e1 w1 where w1: "new_entry E cm n t w = Ret (e1, w1)"
    "(case e1 of Some e \<Rightarrow> Ret (Some e, w1) | None \<Rightarrow> new_entries E cm es w1) = Ret (e, w')"
    by (auto simp del: split_paired_Ex)
  have g: "good E w1" using new_entry_good [OF assms(1) Cons.prems(1) w1(1)] by (simp add: grows_def)
  note one = dir_new_entry [OF assms(1) Cons.prems(1) w1(1)]
  show ?case unfolding x
  proof (cases e1)
    case None
    with one Cons.IH [OF g] w1(2) show "dir_entries E cm ((n, t) # es) (dir w) (dir w')" by (auto intro: next_entry)
  next
    case (Some err)
    with one w1(2) show "dir_entries E cm ((n, t) # es) (dir w) (dir w')" by (auto intro: last_entry)
  qed
qed

lemma dir_DeleteConfigMap:
  assumes "env_laws E" "good E w"
  shows "dir (DeleteConfigMap E cm w) = dir_delete cm (dir w)"
proof
  fix n
  let ?w = "DeleteConfigMap E cm w"
  have ok: "cache_laws (e_xds E)" "world_ok w" "keyed w" using assms by (auto simp: env_laws_def good_def)
  show "dir ?w n = dir_delete cm (dir w) n"
  proof (cases "map_of (StoreMap w) n")
    case None
    have "set (StoreMap ?w) \<subseteq> set (StoreMap w)" by (rule delete_only_unfiles)
    then have "n \<notin> fst ` set (StoreMap ?w)" using None by (auto simp: map_of_eq_None_iff)
    then show ?thesis using None by (simp add: dir_def dir_delete_def map_of_eq_None_iff [THEN iffD2])
  next
    case (Some a)
    with DeleteConfigMap_facts [OF ok, of cm] map_of_SomeD [OF Some] show ?thesis
      by (cases "owned_by cm (store w a)")
        (auto simp: dir_def dir_delete_def owned_by_owns map_of_eq_None_iff [THEN iffD2])
  qed
qed

section \<open>The other transitions leave the directory alone\<close>

lemma dir_range:
  assumes "\<And>a w w'. op a w = Ret w' \<Longrightarrow> same_but a w w'" and "Range_stores op w = Ret w'"
  shows "dir w' = dir w"
proof -
  have "dir w' = dir w" if "run_outcome op as w = Ret w'" for "as" w
    using that
  proof (induction "as" arbitrary: w)
    case (Cons a as)
    then obtain w1 where w1: "op a w = Ret w1" "run_outcome op as w1 = Ret w'" by auto
    with Cons.IH [OF w1(2)] dir_same_but [OF assms(1) [OF w1(1)]] show ?case by simp
  qed simp
  with assms(2) show ?thesis by (simp add: Range_stores_def)
qed

lemma same_but_NewPod: "same_but a w (NewPod E a w)"
  by (simp add: NewPod_def same_but_save)

lemma dir_Push:
  assumes "Push E a reason w = Some w'" and "a < length (heap w)"
  shows "dir w' = dir w"
proof -
  obtain v where v: "store w' a = (store w a)\<lparr>cs_Version := v\<rparr>" "\<And>b. b \<noteq> a \<Longrightarrow> store w' b = store w b"
    "StoreMap w' = StoreMap w" by (rule Push_cases [OF assms]) blast
  have "cs_Config (store w' b) = cs_Config (store w b) \<and> isStoped (store w' b) = isStoped (store w b)" for b
    using v by (cases "b = a") auto
  then show ?thesis using v(3) by (intro dir_same) auto
qed

lemma dir_goroutine:
  assumes "good E w" and "g \<in> set (gos w)" and "run_go E g (w\<lparr>gos := remove1 g (gos w)\<rparr>) = Some w'"
  shows "dir w' = dir w"
proof -
  have "go_addr g < length (heap w)" using assms(1,2) by (simp add: good_def world_ok_def)
  then show ?thesis
    using assms(3) dir_Push [of E "go_addr g" _ "w\<lparr>gos := remove1 g (gos w)\<rparr>" w']
      dir_same_but [OF same_but_save [of "go_addr g" "w\<lparr>gos := remove1 g (gos w)\<rparr>" E]]
    by (cases g) auto
qed

lemma dir_initial: "dir (initial_world c L) = (\<lambda>n. None)"
  by (simp add: fun_eq_iff dir_def initial_world_def)

lemma dir_LoadNewSecrets:
  assumes "LoadNewSecrets E a w = Ret (e, w')"
  shows "dir w' = dir w"
proof (cases rule: LoadNewSecrets_cases [of E w a])
  case (made s)
  have "dir (upd_store a (\<lambda>cs. cs\<lparr>cs_secrets := s\<rparr>) (next_tick w)) = dir (next_tick w)"
    by (rule dir_same) (auto simp: store_upd_store)
  with made assms show ?thesis by simp
qed (use assms in auto)

lemma dir_callback:
  assumes "env_laws E" and "good E w" and "run_callback E cb w = Ret w'"
  shows "dir_event E cb (dir w) (dir w')"
proof (cases cb)
  case (OnNewConfig cm)
  with assms(3) obtain e where run: "NewConfigMap E cm w = Ret (e, w')"
    by (auto simp: run_callback_def simp del: split_paired_Ex)
  show ?thesis
  proof (cases "checkConfigMapLabels (e_app E) cm = Ret True")
    case True
    with run have "new_entries E cm (nilmap (cm_Data cm)) w = Ret (e, w')" by (simp add: NewConfigMap_def)
    with dir_new_entries [OF assms(1,2)] True OnNewConfig show ?thesis by (simp add: dir_event_def)
  next
    case False
    with run have "w' = w" by (auto simp: NewConfigMap_def)
    with False OnNewConfig show ?thesis by (simp add: dir_event_def)
  qed
next
  case (OnDeleteConfig cm)
  with assms(3) dir_DeleteConfigMap [OF assms(1,2), of cm] show ?thesis by (auto simp: run_callback_def dir_event_def)
qed (use assms(3) dir_range [of "\<lambda>a w. Ret (NewPod E a w)" w w'] dir_range [of "\<lambda>a w. Ret (DeletePod E a w)" w w']
      dir_range [of "\<lambda>a w. Ret (NewEndpoint E a w)" w w'] in
    \<open>simp_all add: run_callback_def dir_event_def same_but_NewPod DeletePod_def NewEndpoint_def\<close>)

lemma dir_deliver:
  assumes "env_laws E" and "good E w" and "deliver E ev w = Ret w'"
  shows "dir_step E (Event ev) (dir w) (dir w')"
proof -
  from assms(3) obtain m cb where h: "handle registered ev (w_metrics w) = Ret (m, cb)"
    and run: "(case cb of None \<Rightarrow> Ret (w\<lparr>w_metrics := m\<rparr>) | Some c \<Rightarrow> run_callback E c (w\<lparr>w_metrics := m\<rparr>)) = Ret w'"
    by (auto simp: deliver_def Let_def simp del: split_paired_Ex)
  have "case cb of None \<Rightarrow> dir w' = dir w | Some c \<Rightarrow> dir_event E c (dir w) (dir w')"
    using run dir_callback [OF assms(1), of "w\<lparr>w_metrics := m\<rparr>"] assms(2) by (cases cb) auto
  with h show ?thesis by auto
qed

text \<open>
  Property (C4). The program refines the directory: every step of the running program, from every
  reachable state, is a transition of the directory with the same label. The handling of a ConfigMap visits its keys
  until one fails, gives the node of each key exactly the configuration its text stands for, freezes
  the node of the key that fails and touches no other, and does nothing when the ConfigMap is not
  selected; a deletion removes exactly the entries the ConfigMap owns, and within a deletion the beginning
  of a drain freezes an entry it owns and the end removes it; changes of the cluster, saves, pushes,
  synchronisations, rotations and pod and endpoint events leave the directory as it is.
\<close>

theorem program_refines_directory:
  assumes "env_laws E" and "reachable E (w, P)" and "sys_step E l (w, P) (w', P')"
  shows "dir_step E l (dir w) (dir w')"
proof -
  have g: "good E w" using reachable_good [OF assms(1,2)] by simp
  from assms(3) show ?thesis
  proof cases
    case (save_commits a ep arr)
    then show ?thesis using dir_same_but [OF same_but_commit [of a w ep arr]] by simp
  next
    case (goroutine_runs go)
    then show ?thesis using dir_goroutine [OF g] by simp
  next
    case (store_syncs a)
    then show ?thesis using dir_same_but [OF same_but_sync_version] by simp
  next
    case (secrets_load a err)
    then show ?thesis using dir_LoadNewSecrets by simp
  next
    case (rotation_pushes a)
    then show ?thesis using dir_Push by simp
  next
    case (event_arrives ev)
    then show ?thesis using dir_deliver [OF assms(1) g] by simp
  next
    case (update_stops cm entry n)
    then show ?thesis using g dir_stop_old [of w n] by (auto simp: good_def intro: rev_image_eqI)
  next
    case (drain_starts n a cm)
    then show ?thesis
      using g dir_listed [OF g] dir_stop_old [of w n] stop_listed [OF g] by (auto simp: good_def owned_by_owns)
  next
    case (drain_ends n a cm)
    then show ?thesis using dir_listed [OF g] by (auto simp: dir_end_drain owned_by_owns)
  qed simp_all
qed

theorem program_refines_directory_witness:
  "\<exists>w c. deliver demo_env (ConfigAdd (KConfigMap (demo_cm ''node''))) demo_start = Ret w \<and>
     dir_step demo_env (Event (ConfigAdd (KConfigMap (demo_cm ''node'')))) (\<lambda>n. None) (dir w) \<and>
     dir w ''node1'' = Some (c, False)"
proof -
  obtain w where w: "map_of (StoreMap w) ''node1'' = Some 0" "0 < length (heap w)"
    "deliver demo_env (ConfigAdd (KConfigMap (demo_cm ''node''))) demo_start = Ret w"
    using demo_installed by blast
  note step = event_arrives [OF w(3), of "[]"]
  have d: "dir_step demo_env (Event (ConfigAdd (KConfigMap (demo_cm ''node'')))) (\<lambda>n. None) (dir w)"
    using program_refines_directory [OF demo_env_env_laws demo_started step] unfolding dir_initial .
  have data: "nilmap (cm_Data (demo_cm ''node'')) = [(''node1'', ''node'')]" by (simp add: demo_cm_def)
  from d have "dir_event demo_env (OnNewConfig (demo_cm ''node'')) (\<lambda>n. None) (dir w)"
    by (auto simp: handler_defs registered_def)
  then have "dir_entries demo_env (demo_cm ''node'') [(''node1'', ''node'')] (\<lambda>n. None) (dir w)"
    by (simp add: dir_event_def demo_selected data)
  then have "\<exists>f. dir_entry demo_env (demo_cm ''node'') (''node1'', ''node'') (\<lambda>n. None) f (dir w)"
    by cases (auto elim: dir_entries.cases)
  moreover have "dir w ''node1'' \<noteq> None" using w(1) by (simp add: dir_def)
  moreover have "\<exists>c. dir w ''node1'' = Some (c, False)"
    if "dir_entry demo_env (demo_cm ''node'') (''node1'', ''node'') (\<lambda>n. None) f (dir w)" "dir w ''node1'' \<noteq> None" for f
    using that by cases (auto simp: dir_freeze_def split: if_splits)
  ultimately show ?thesis using w(3) d by blast
qed

end
