(* ===== verification/Typing.thy ===== *)
theory Typing
  imports Endpoints Utils
begin

text \<open>
  The type discipline of resources, from the decoder through the rewriting of weights and
  certificates to the lists a snapshot is made from.
\<close>

text \<open>The resource type a message belongs under, and lists that hold only messages of theirs.\<close>

fun type_of :: "resource \<Rightarrow> type_url" where
  "type_of (RCluster _) = ClusterType"
| "type_of (RRoute _) = RouteType"
| "type_of (REndpoint _) = EndpointType"
| "type_of (RListener _) = ListenerType"
| "type_of (RSecret _) = SecretType"

definition typed_lists :: "(type_url \<times> resource list) list \<Rightarrow> bool" where
  "typed_lists ls \<longleftrightarrow> list_all (\<lambda>(t, rs). list_all (\<lambda>r. type_of r = t) rs) ls"

lemma go_each_keeps:
  "(\<And>x. k (fst (f x)) = k x) \<Longrightarrow> map k (fst (go_each f xs)) = map k xs"
  by (induction xs) (auto split: prod.splits option.splits, (metis fst_conv)+)

lemma mutations_keep_type:
  "type_of (fst (mutate_route_resource cfg r)) = type_of r"
  "type_of (fst (mutate_listener_resource C cfg r)) = type_of r"
  "type_of (fst (filter_listener_certificates C r)) = type_of r"
  by (cases r; simp split: prod.split)+

definition all_of :: "type_url \<Rightarrow> resource list \<Rightarrow> bool" where
  "all_of t rs \<longleftrightarrow> set (map type_of rs) \<subseteq> {t}"

lemma all_of_map: "map type_of ys = map type_of xs \<Longrightarrow> all_of t ys = all_of t xs"
  unfolding all_of_def by (simp only:)

lemma class_type:
  "resource_class r = OCluster \<Longrightarrow> type_of r = ClusterType" "resource_class r = ORoute \<Longrightarrow> type_of r = RouteType"
  "resource_class r = OListener \<Longrightarrow> type_of r = ListenerType" "resource_class r = OSecret \<Longrightarrow> type_of r = SecretType"
  by (cases r; simp)+

definition typed_config :: "config_type \<Rightarrow> bool" where
  "typed_config c \<longleftrightarrow> all_of ClusterType (r_clusters c) \<and> all_of RouteType (r_routes c) \<and>
     all_of ListenerType (r_listeners c) \<and> all_of SecretType (r_secrets c)"

lemma parse_sections_typed: "parse_sections C c = Inr c' \<Longrightarrow> typed_config c'"
  by (auto simp: parse_sections_def typed_config_def all_of_def split: sum.splits
      dest!: YamlToResources_class intro: class_type)

lemma mutations_keep_lists:
  "all_of t (fst (mutateWeightedRoutesInListeners C cfg rs)) = all_of t rs"
  "all_of t (fst (mutateWeightedRoutes cfg rs)) = all_of t rs"
  "all_of t (fst (filterCertificates C rs)) = all_of t rs"
  unfolding mutateWeightedRoutesInListeners_def mutateWeightedRoutes_def filterCertificates_def
  by (intro all_of_map go_each_keeps mutations_keep_type)+

lemma update_weights_typed: "typed_config c \<Longrightarrow> typed_config (fst (update_weights C c))"
  using mutations_keep_lists(1) [of ListenerType C c "r_listeners c"] mutations_keep_lists(2) [of RouteType c "r_routes c"]
  by (cases "mutateWeightedRoutesInListeners C c (r_listeners c)"; cases "mutateWeightedRoutes c (r_routes c)")
    (auto simp: update_weights_def typed_config_def split: option.split)

lemma SaveResources_typed:
  assumes "SaveResources C app c = (c', None)"
  shows "typed_config c'"
proof -
  from assms obtain c1 where c1: "parse_sections C c = Inr c1" by (auto simp: SaveResources_def split: sum.splits)
  obtain c2 r where u: "update_weights C c1 = (c2, r)" by force
  with update_weights_typed [OF parse_sections_typed [OF c1], of C] have t: "typed_config c2" by simp
  have "typed_config (c2\<lparr>r_listeners := fst (filterCertificates C (r_listeners c2))\<rparr>)"
    using t by (simp add: typed_config_def mutations_keep_lists)
  with t assms c1 u show ?thesis
    by (auto simp: SaveResources_def split: option.splits prod.splits if_splits)
qed

text \<open>
  Property (C12). Snapshots are well typed: whatever a configuration text decodes to, once it is saved,
  the lists a snapshot of it and of its computed endpoints is made from hold, under each of the five
  resource types, only messages of that type; the rewriting of weights and certificates keeps it so.
\<close>

theorem snapshots_well_typed:
  assumes "SaveResources C app c0 = (c, None)"
    and "prepare_endpoints order L app c eps = Some (ep, arr)"
  shows "\<exists>ls. GetConfigSnapshot X v c ep secrets = NewSnapshot X v ls \<and> typed_lists ls \<and>
    set (map fst ls) = {ClusterType, RouteType, ListenerType, SecretType, EndpointType} \<and> distinct (map fst ls)"
proof -
  have "all_of EndpointType ep"
    using assms(2) by (auto simp: all_of_def prepare_endpoints_def publishEp_def Let_def split: sum.splits if_splits)
  with SaveResources_typed [OF assms(1)] show ?thesis
    by (intro exI [of _ "[(ClusterType, GetClusters c), (RouteType, GetRoutes c), (ListenerType, GetListeners c),
          (SecretType, GetSecrets c @ map RSecret secrets), (EndpointType, ep)]"])
      (auto simp: GetConfigSnapshot_def typed_lists_def typed_config_def all_of_def GetClusters_def GetRoutes_def
        GetListeners_def GetSecrets_def list_all_iff)
qed

theorem snapshots_well_typed_witness:
  "\<exists>c ep arr ls. SaveResources demo_codec demo_app demo_config = (c, None) \<and>
     prepare_endpoints rev demo_listers demo_app c (Some []) = Some (ep, arr) \<and>
     GetConfigSnapshot map_xds ''v'' c ep [] = NewSnapshot map_xds ''v'' ls \<and> typed_lists ls \<and> GetRoutes c \<noteq> []"
proof -
  have ok: "snd (SaveResources demo_codec demo_app demo_config) = None \<and>
      GetRoutes (fst (SaveResources demo_codec demo_app demo_config)) \<noteq> []" by code_simp
  then obtain c where c: "SaveResources demo_codec demo_app demo_config = (c, None)" "GetRoutes c \<noteq> []"
    by (metis prod.collapse)
  have "Kubernetes c = Kubernetes demo_config" by (rule SaveResources_keeps(4) [OF c(1)])
  also have "\<dots> = []" by code_simp
  finally have "getLocalityLbEndpoints demo_listers demo_app c = Inr []"
    by (simp add: getLocalityLbEndpoints_def)
  then have "prepare_endpoints rev demo_listers demo_app c (Some []) = Some ([], [])"
    by (simp add: prepare_endpoints_def merge_endpoints_def publishEp_def publishEpArray_def isInvalidIP_def cluster_members_def)
  from snapshots_well_typed [OF c(1) this, of map_xds "''v''" "[]"] c this show ?thesis by blast
qed

end
