(* ===== verification/Spec2Isabelle.thy ===== *)
theory Spec2Isabelle
  imports MainCmd Web Cli GenCerts Directory Typing
begin

text \<open>
  Verification of envoy-control-plane: an xDS server for Envoy that runs in Kubernetes. The program
  watches ConfigMaps, pods and Endpoints. Every key of a selected ConfigMap is the configuration of one
  Envoy node; from it the program makes a store, which combines the configuration with the addresses
  of the pods or services it names and with TLS secrets, and serves the result as a versioned snapshot
  from the cache of go-control-plane. A store publishes again when its endpoints change, a periodic job
  repairs snapshots whose version is not the store's, another rotates the secrets, and deleting the
  ConfigMap stops the store, lets it drain and removes node and snapshot. An administration server
  shows the state, issues certificates and answers the questions of a command-line client that runs
  beside Envoy in the pod.

  \<^bold>\<open>How the program is laid out here.\<close> Every theory models one package of \<^verbatim>\<open>src/\<close> in the order of its code,
  with the names of its functions, and imports the theories of the packages it calls.

  \<^item> Shared vocabulary. \<open>Prelude\<close>: Go errors (\<open>goerr\<close>) and the ways a call can end (\<open>outcome\<close>: \<open>Ret\<close>, or
    \<open>Panic\<close>, or \<open>Exit\<close> for a fatal log), Go maps as association lists whose order is the unspecified
    iteration order, the loop that returns at the first error, and two locales, \<open>visitor\<close> (rewriting in
    place, element by element) and \<open>machine\<close> (an invariant of a step function). \<open>GoStd\<close>: the parts of
    \<^verbatim>\<open>strings\<close>, \<^verbatim>\<open>path\<close>, \<^verbatim>\<open>fmt\<close>, \<^verbatim>\<open>strconv\<close> and \<^verbatim>\<open>net\<close> the program depends on. \<open>Url\<close>: the
    parts of \<^verbatim>\<open>net/url\<close> and \<^verbatim>\<open>net/http\<close>: form encoding, query parsing, unescaping and the matching of paths by
    a mux. \<open>Envoy\<close>: the Envoy messages the program builds or rewrites, with the fields it touches.
  \<^item> \<open>AppConfig\<close> is \<^verbatim>\<open>pkg/config/config.go\<close>; \<open>ConfigType\<close> is \<^verbatim>\<open>pkg/config/configType.go\<close>, the configuration
    of a node with its parsing and the rewriting of weights and certificates; \<open>Resources\<close> is
    \<^verbatim>\<open>pkg/resources\<close>; \<open>Typing\<close> relates the three: what is decoded, rewritten and put in a snapshot has the type its
    list says.
  \<^item> \<open>Metrics\<close>, \<open>Api\<close>, \<open>Certs\<close> and \<open>Utils\<close> are the packages of these names under \<^verbatim>\<open>pkg/\<close>.
  \<^item> \<open>Endpoints\<close> and \<open>ConfigStore\<close> are \<^verbatim>\<open>pkg/configstore/configStore.go\<close>: the first computes the endpoints of a
    store from the listers, the second changes the state. \<open>ConfigMapsStore\<close> is \<^verbatim>\<open>pkg/configmapsstore\<close>.
  \<^item> \<open>ControlPlane\<close> is \<^verbatim>\<open>pkg/controlplane\<close>: callbacks, access log service, logger, server options.
  \<^item> \<open>Internal\<close> is \<^verbatim>\<open>internal/internal.go\<close>: initialisation, the wiring of the informers to the stores, the
    two periodic jobs, and the interleaving of everything that runs concurrently. \<open>MainCmd\<close> is
    \<^verbatim>\<open>cmd/main/main.go\<close> with the leader election.
  \<^item> \<open>Web\<close> is \<^verbatim>\<open>pkg/web/web.go\<close>, \<open>Cli\<close> is \<^verbatim>\<open>cmd/cli/main.go\<close>, \<open>GenCerts\<close> is \<^verbatim>\<open>cmd/gencerts/main.go\<close>.
  \<^item> \<open>Directory\<close> is the abstract specification of the bookkeeping (below), and this theory holds the properties
    that join the web server to the client and to the directory.

  \<^bold>\<open>State.\<close> A \<^verbatim>\<open>*ConfigStore\<close> is an address of \<open>heap\<close>, a list of \<open>config_store\<close> records with the fields of the Go
  struct. The \<open>world\<close> holds that heap, \<^verbatim>\<open>configstore.StoreMap\<close> (node ID to address), \<^verbatim>\<open>SnapshotCache\<close>, the
  informer caches (\<open>kube\<close>), the goroutines started and not yet run (\<open>gos\<close>: a push or a save), the counters
  from which UUIDs, times and map orders are drawn, and the metrics. What does not change is the \<open>env\<close>: the
  process configuration and the libraries. Nil and empty are kept apart wherever the code can see the
  difference (\<open>lastEndpoints\<close>, \<open>lastEndpointsArray\<close>, the maps of objects, pointers in messages). Weights and
  ports are words of their width; \<^verbatim>\<open>uint32(weight.Value)\<close> is the narrowing of a word.

  \<^bold>\<open>What the lemmas show.\<close>

  \<^item> The life of a store (\<open>ConfigStore\<close>): a save publishes exactly the current endpoints and schedules a push
    exactly when the change key differs; a failed lookup or an invalid address publishes nothing; saving again is idle; a
    push ends exactly when a fresh UUID can be drawn and then serves this store's node and no other; the
    periodic check heals a wrong version. The locale \<open>store_op\<close> is the contract of every operation the program runs on all stores, and
    is interpreted on pod additions and deletions, endpoint events and the periodic check.
  \<^item> What is computed (\<open>Endpoints\<close>, \<open>ConfigType\<close>, \<open>Resources\<close>, \<open>Typing\<close>): exactly the selected pods become
    endpoints, each with the address, zone, priority and health of its pod; the result does not depend on the order maps are
    iterated in; the change key loses nothing it formats; weights are rewritten exactly where
    annotated and nothing else of a message changes, proved once for every level of the message in the locale \<open>visitor\<close>.
  \<^item> ConfigMaps (\<open>ConfigMapsStore\<close>): what an update installs and a deletion removes, and what goes
    wrong: an update rejected after the old store was stopped, a push that outlives its deletion.
  \<^item> The running program (\<open>Internal\<close>): the inductive step relation \<open>sys_step\<close> has a step for every change
    of the informer caches, for a save's computation and, separately, its commit, for a started goroutine, an
    informer event, a synchronisation, the two halves of a rotation, the stop of the store an update replaces and the
    beginning and end of a drain, labelled by the ConfigMap it belongs to. The invariant \<open>good\<close> holds in every reachable state: in
    particular, whatever a node is served was made of the configuration of a store of that node and of
    endpoints \<open>computed\<close> for that configuration.
  \<^item> The abstract specification (\<open>Directory\<close>): a directory from node IDs to a configuration and whether it
    is frozen, as a labelled transition system. \<open>dir_entry\<close> says for each key of a ConfigMap what it may install or
    freeze, \<open>dir_delete\<close> what a deletion removes, and nothing else changes the directory; \<open>dir\<close> abstracts a
    world, and every step of the program is a transition with the same label. The dump of the administration
    server shows the directory.
  \<^item> The edges: credentials guard every administration page under any spelling of its path (\<open>Web\<close>); form
    values survive the trip from the client to the server (\<open>Url\<close>, this theory); the client waits until the server is
    ready and drains Envoy in order (\<open>Cli\<close>); an instance serves xDS only once it leads, outlives a lost lease by its grace period and then ends, and the parts start in order (\<open>MainCmd\<close>); the files
    \<^verbatim>\<open>gencerts\<close> writes (\<open>GenCerts\<close>); the readiness signal fires once, access log lines are complete, logged responses
    leak a file each, and a node ID can name a file outside the log directory (\<open>ControlPlane\<close>).

  \<^bold>\<open>Loops.\<close> Loops over slices and maps are structural. The two loops that may not end are partial functions into an
  option, with \<open>None\<close> for a run that does not end: \<open>new_version\<close>, which draws UUIDs until one differs from
  the current version, and \<open>waitForAPI\<close> of the client; for both there is a theorem that says when they end. The
  periodic jobs run until the context is done and take the number of passes as an argument. The server reads
  at most 10 MB of a form (\<open>maxFormSize\<close>), which bounds the round trip of the client's question.

  \<^bold>\<open>Libraries.\<close> Code outside the repository is an argument of the definitions: the template engine and the YAML
  decoder (\<open>loader\<close>), the protobuf codecs (\<open>codec\<close>), go-control-plane's cache and snapshots (\<open>xds\<close>), client-go (\<open>listers\<close> and
  the arguments of \<open>Api\<close>), \<^verbatim>\<open>crypto/x509\<close> (\<open>crypto\<close>), JSON, \<^verbatim>\<open>pprof\<close>, \<^verbatim>\<open>time.ParseDuration\<close> and the metrics page
  (\<open>web_lib\<close>), the network and the files of the client (\<open>cli_net\<close>). The laws assumed of them are predicates with
  an instance proved for each: \<open>cache_laws\<close> (a snapshot set is the one read, for its node alone), \<open>order_law\<close> (an iteration
  visits the entries of the map), \<open>any_laws\<close> (packing and unpacking a message). \<open>map_xds\<close> is a cache that satisfies the
  first, and \<open>demo_env\<close> an environment for the witnesses.

  \<^bold>\<open>Choices.\<close> Log lines and the errors of writing a response are left out, except where the log is the output
  (the access log). A fatal log is \<open>Exit\<close>; the exit handler \<^verbatim>\<open>main\<close> registers for it (cancel, sleep, exit) is modelled
  where processes are, in \<open>MainCmd\<close>, and the others keep \<open>Exit\<close>. \<open>deliver\<close> runs the handler of an event as
  one step, and the steps named above add what may happen inside it. Stops, drains, synchronisations and
  rotations are enabled more often than the code performs them, so what holds of every reachable state
  holds of the program.

  \<^bold>\<open>Not modelled.\<close> \<^verbatim>\<open>cmd/main/extensions.go\<close> is blank imports, whose effect is the registry of message types inside
  protobuf. The registration of flags (\<^verbatim>\<open>SetFlags\<close> fills the pointers whose defaults are modelled), the Sentry hook
  and the level of the log have no effect on what is served. The wire behaviour of gRPC and the
  rendering of \<^verbatim>\<open>promhttp\<close> are library code. Durations are not measured: the periods of the jobs and the race of a
  shutdown with running requests are not part of the model. A certificate's validity against the
  rotation period and the aliasing of the slices of \<^verbatim>\<open>configEndpoints\<close> that \<^verbatim>\<open>append\<close> could share between two
  concurrent saves are the next parts to add. Charts, examples, scripts and the end-to-end tests are
  not code of the program.
\<close>

section \<open>The pod's question and the server's answer\<close>

text \<open>
  What \<^verbatim>\<open>net/http\<close> makes of a request of the client for a path of the server, and of an answer of the
  server for the client.
\<close>

definition received :: "string \<Rightarrow> cli_request \<Rightarrow> request" where
  "received path q =
     \<lparr>rq_Method = q_Method q, rq_EscapedPath = path, rq_RawQuery = '''',
      rq_form_body = (if q_ContentType q = ''application/x-www-form-urlencoded'' then Some (q_Body q) else None),
      rq_BasicAuth = None\<rparr>"

definition reply_of :: "(response \<times> 'c world) outcome \<Rightarrow> cli_reply" where
  "reply_of r =
     (case r of
        Ret (rs, w) \<Rightarrow> \<lparr>StatusCode = (case rs_Status rs of None \<Rightarrow> 200 | Some c \<Rightarrow> c), ReadAll = Inr (rs_Body rs)\<rparr>
      | _ \<Rightarrow> \<lparr>StatusCode = 0, ReadAll = Inl (Err ''EOF'')\<rparr>)"

definition connected :: "('s, 'c) env \<Rightarrow> 's web_lib \<Rightarrow> mux \<Rightarrow> 'c world \<Rightarrow> cli_net \<Rightarrow> cli_flags \<Rightarrow> bool" where
  "connected E L m w N F \<longleftrightarrow>
     (\<forall>n tls q path. path \<in> {''/api/ready'', ''/api/zone''} \<longrightarrow> q_URL q = server_url F path \<longrightarrow>
        net_URL N (q_URL q) = None \<and> net_Do N n tls q = Inr (reply_of (serve E L m (received path q) w)))"

lemma connectedD:
  assumes "connected E L m w N F" and "path \<in> {''/api/ready'', ''/api/zone''}" and "q_URL q = server_url F path"
  shows "net_URL N (server_url F path) = None"
    and "net_Do N n tls q = Inr (reply_of (serve E L m (received path q) w))"
  using assms unfolding connected_def by metis+

lemma serve_open:
  assumes "rt \<in> set getRoutes" and "\<not> admin_page (route_page rt)" and "rq_EscapedPath r = r_path rt"
    and "rq_Method r \<noteq> ''CONNECT''"
  shows "serve E L all_pages r w = serve_page E L (route_page rt) r w"
proof -
  have "URL_Path r = pathUnescape (r_path rt)" using assms(3) by (simp add: URL_Path_def)
  with open_path [OF assms(1,2)] have "\<not> HasPrefix (URL_Path r) adminPrefix" by simp
  moreover have "mux_ServeHTTP m r = mux_ServeHTTP m (get_request (r_path rt) None)" for m
    using assms(3,4) unfolding mux_ServeHTTP_def mux_find_def get_request_simps by (simp add: URL_Path_def Let_def)
  ultimately show ?thesis
    using every_route_served [of None] assms(1) by (simp add: serve_def auth_def list_all_iff)
qed

lemma query_parsed:
  assumes "length (form_Encode (query_form F)) \<le> maxFormSize"
  shows "\<exists>g. ParseForm (received path (query_request F)) = (g, None) \<and>
    form_Get g ''namespace'' = namespace F \<and> form_Get g ''pod'' = pod_flag F"
proof -
  have "wf_gomap (query_form F)" by (simp add: query_form_def wf_gomap_def)
  from ParseQuery_Encode [OF this] obtain g where
    g: "ParseQuery (form_Encode (query_form F)) = (g, None)" "\<And>k. slot g k = slot (query_form F) k" by blast
  have "ParseQuery '''' = ([], None)" by (simp add: ParseQuery_def parse_piece_def)
  then have "ParseForm (received path (query_request F)) = (g, None)"
    using g(1) assms by (simp add: ParseForm_def received_def query_request_def parsePostForm_def copyValues_def)
  moreover have "slot g ''namespace'' = [namespace F]" "slot g ''pod'' = [pod_flag F]"
    unfolding g(2) by (simp_all add: query_form_def slot_def)
  ultimately show ?thesis by (simp add: form_Get_def)
qed

text \<open>
  Property (C11). The client and the server agree on the question, whatever bytes the names contain: a
  client that asks a ready server for the zone of its pod ends successfully with exactly the zone of
  the pod of its namespace and name on its output.
\<close>

theorem cli_prints_zone:
  assumes "GetHandler False = Ret m" and "connected E L m w N F" and "client_config N F = Inr tls"
    and "action F = ''/api/zone''" and "envoyLogLevel F = ''''" and "\<not> drainEnvoy F"
    and "namespace F \<noteq> ''''" and "pod_flag F \<noteq> ''''"
    and "length (form_Encode (query_form F)) \<le> maxFormSize"
  shows "\<exists>s'. cli_main N F cli_start = Some (s', Ret ()) \<and>
    stdout s' = GetZoneByPodName (apiPods L) (apiNodes L) (e_app E) (namespace F) (pod_flag F)"
proof -
  let ?z = "GetZoneByPodName (apiPods L) (apiNodes L) (e_app E) (namespace F) (pod_flag F)"
  have m: "m = all_pages" using assms(1) GetHandler_eq by simp
  obtain g where g: "ParseForm (received ''/api/zone'' (query_request F)) = (g, None)"
    "form_Get g ''namespace'' = namespace F" "form_Get g ''pod'' = pod_flag F"
    using query_parsed [OF assms(9)] by blast
  have zone: "func_route ''/api/zone'' ''Get pod zone'' HandlerZone \<in> set getRoutes"
    and ready: "func_route ''/api/ready'' ''Route for application rediness probe'' HandlerReady \<in> set getRoutes"
    by (simp_all add: getRoutes_def)
  have "serve E L m (received ''/api/zone'' (query_request F)) w = Ret (Write ?z new_response, w)"
    using serve_open [OF zone, of "received ''/api/zone'' (query_request F)" E L w] g
    by (simp add: m func_route_def route_page_def admin_page_def handlerZone_def received_def query_request_def)
  then have answer: "net_URL N (q_URL (query_request F)) = None"
    "net_Do N n tls (query_request F) = Inr \<lparr>StatusCode = 200, ReadAll = Inr ?z\<rparr>" for n
    using connectedD [OF assms(2), of "''/api/zone''" "query_request F"] assms(4)
    by (simp_all add: reply_of_def response_defs) (simp_all add: query_request_def)
  have "serve E L m (received ''/api/ready'' (ready_request F)) w = Ret (handlerReady, w)"
    using serve_open [OF ready, of "received ''/api/ready'' (ready_request F)" E L w]
    by (simp add: m func_route_def route_page_def admin_page_def received_def ready_request_def)
  then have "net_URL N (server_url F ''/api/ready'') = None" "ready_at N tls F 0"
    using connectedD [OF assms(2), of "''/api/ready''" "ready_request F"]
    by (simp_all add: ready_at_def reply_of_def handlerReady_def response_defs) (simp_all add: ready_request_def)
  from wait_ready [OF this(1), of tls cli_start 0] this(2)
  have wait: "waitForAPI N tls F 0 cli_start = Some (record_request (ready_request F) cli_start, Ret ())"
    by (simp add: cli_start_def record_request_def)
  have query: "\<exists>s'. run_query N tls F s = (s', Ret ()) \<and> stdout s' = stdout s @ ?z" for s
    using answer by (simp add: run_query_def Let_def record_request_def)
  let ?s = "if wait F then record_request (ready_request F) cli_start else cli_start"
  have "cli_main N F cli_start = Some (run_query N tls F ?s)"
    using assms(3,5-8) wait by (simp add: cli_main_def and_then_def)
  moreover have "stdout ?s = ''''" by (simp add: cli_start_def record_request_def)
  ultimately show ?thesis using query [of ?s] by auto
qed

abbreviation zone_flags :: cli_flags where
  "zone_flags \<equiv> demo_flags\<lparr>namespace := ''ns 1'', pod_flag := ''p&1''\<rparr>"

definition demo_connection :: cli_net where
  "demo_connection = demo_net\<lparr>net_Do := (\<lambda>n tls q.
     Inr (reply_of (serve demo_env demo_lib all_pages
       (received (if q_URL q = server_url zone_flags ''/api/ready'' then ''/api/ready'' else ''/api/zone'') q) demo_one)))\<rparr>"

theorem cli_prints_zone_witness:
  "\<exists>s'. cli_main demo_connection zone_flags cli_start = Some (s', Ret ()) \<and> stdout s' = ''zone-a''"
proof -
  let ?ca = "\<lparr>tc_Certificates = [''cert''], tc_RootCAs = [''ca''], tc_InsecureSkipVerify = False\<rparr>"
  have "server_url zone_flags ''/api/ready'' \<noteq> server_url zone_flags ''/api/zone''" by (simp add: server_url_def)
  then have conn: "connected demo_env demo_lib all_pages demo_one demo_connection zone_flags"
    unfolding connected_def demo_connection_def by (auto simp: demo_net_def)
  have config: "client_config demo_connection zone_flags = Inr ?ca"
    by (simp add: client_config_def cli_defaults_def demo_connection_def demo_net_def)
  have flags: "action zone_flags = ''/api/zone''" "envoyLogLevel zone_flags = ''''" "\<not> drainEnvoy zone_flags"
    "namespace zone_flags \<noteq> ''''" "pod_flag zone_flags \<noteq> ''''" by (simp_all add: cli_defaults_def)
  have "form_Encode (query_form zone_flags) = ''namespace=ns+1&pod=p%261''" by code_simp
  then have "length (form_Encode (query_form zone_flags)) \<le> maxFormSize" by (simp add: maxFormSize_def)
  from cli_prints_zone [OF GetHandler_eq(1) conn config flags this] show ?thesis
    by (simp add: demo_lib_def GetZoneByPodName_def demo_env_def default_config_def mapget_def cli_defaults_def)
qed

section \<open>The directory over HTTP\<close>

lemma filter_filed:
  "keyed w \<Longrightarrow> wf_gomap m \<Longrightarrow> set m \<subseteq> set (StoreMap w) \<Longrightarrow>
     filter (\<lambda>(_, a). ct_ID (cs_Config (store w a)) = n) m = (case map_of m n of None \<Rightarrow> [] | Some a \<Rightarrow> [(n, a)])"
proof (induction m)
  case (Cons x m)
  obtain k a where x: "x = (k, a)" by force
  then have k: "ct_ID (cs_Config (store w a)) = k" using Cons.prems by (auto simp: keyed_def dest: bspec)
  have "map_of m k = None" using Cons.prems(2) by (simp add: x wf_gomap_def map_of_eq_None_iff)
  moreover have "wf_gomap m" using Cons.prems(2) by (simp add: wf_gomap_def)
  ultimately show ?case using Cons x k by (auto split: option.split)
qed simp

text \<open>
  Property (C35). The administrator sees the directory: in every reachable state, the dump of the
  configuration of a node is exactly the configuration the directory has for it, and the error page
  when it has none.
\<close>

theorem config_dump_shows_directory:
  assumes "env_laws E" and "reachable E (w, P)" and "form_Get (fst (ParseForm r)) ''id'' = n" and "n \<noteq> ''''"
  shows "handlerConfigDump L r w =
    (case dir w n of
       None \<Rightarrow> http_Error ''no results'' 500 json_response
     | Some (c, _) \<Rightarrow> Write (case MarshalConfigs L [c] of Inl err \<Rightarrow> '''' | Inr b \<Rightarrow> b) json_response)"
proof -
  have ok: "keyed w" "wf_gomap (StoreMap w)"
    using reachable_good [OF assms(1,2)] by (auto simp: good_def world_ok_def)
  have "filter (\<lambda>(_, a). wanted n (ct_ID (cs_Config (store w a)))) (StoreMap w) =
      (case map_of (StoreMap w) n of None \<Rightarrow> [] | Some a \<Rightarrow> [(n, a)])"
    using filter_filed [OF ok, of n] assms(4) by (simp add: wanted_def)
  then show ?thesis
    by (cases "map_of (StoreMap w) n")
      (simp_all add: handlerConfigDump_def assms(3) Let_def write_results_def dir_def split: sum.split)
qed

theorem config_dump_shows_directory_witness:
  "handlerConfigDump demo_lib ((get_request ''/api/admin/config_dump'' None)\<lparr>rq_RawQuery := ''id=node1''\<rparr>) demo_start =
     http_Error ''no results'' 500 json_response"
proof -
  let ?r = "(get_request ''/api/admin/config_dump'' None)\<lparr>rq_RawQuery := ''id=node1''\<rparr>"
  have "form_Get (fst (ParseForm ?r)) ''id'' = ''node1''" by code_simp
  from config_dump_shows_directory [OF demo_env_env_laws demo_started this, of demo_lib]
  show ?thesis by (simp add: dir_def initial_world_def)
qed

end
